theory Spec2Isabelle
  imports Main "HOL-Library.Word"
begin

unbundle bit_operations_syntax

section \<open>The register virtual machine\<close>

text \<open>
  The register machine of the VM implementation file. The class declaration of \<open>VM\<close> and the
  \<open>Instruction\<close> struct are not part of the sources at hand; the fields below are the ones the
  member functions use. Registers are \<open>uint64_t\<close> (the handlers read them into \<open>uint64_t\<close>
  locals); \<open>size_t\<close> is taken as 64 bits wide; the program counter, the stack pointer, the
  instruction's immediate and the entries of the call stack are taken as unsigned 64-bit values
  as well, and the register selectors of an instruction as bytes. Members carry the source's
  names without the trailing underscore.
\<close>

type_synonym u8 = "8 word"
type_synonym u32 = "32 word"
type_synonym u64 = "64 word"

datatype OpCode =
    ADD | SUB | MUL | DIV | MOD
  | AND_OP | OR_OP | XOR_OP | SHL | SHR
  | LOAD | STORE | LOADIMM
  | PUSH | POP
  | JMP | JZ | JNZ | JLT | JLE | JGT | JGE | CALL | RET
  | CMP
  | NOP | HALT
  | OTHER_OPCODE

record Instruction =
  opcode :: OpCode
  dest :: u8
  operand1 :: u8
  operand2 :: u8
  immediate :: u64

text \<open>Every \<open>throw std::runtime_error(...)\<close> of the machine, one constructor per message.\<close>

datatype vm_error =
    MemoryReadOutOfBounds
  | MemoryWriteOutOfBounds
  | StackOverflow
  | StackUnderflow
  | InvalidRegisterIndex
  | UnknownOpcode
  | DivisionByZero
  | ModuloByZero
  | ReturnFromEmptyCallStack

record VM =
  heap_size :: u64
  stack_size :: u64
  heap :: "u8 list"
  stack :: "u8 list"
  registers :: "u64 list"
  pc :: u64
  sp :: u64
  fp :: u64
  halt_flag :: bool
  call_stack :: "u64 list"
  program :: "Instruction list"

definition NUM_REGISTERS :: nat where
  "NUM_REGISTERS = 16"

text \<open>
  A member function either completes or throws. Its model returns the error, if any, together
  with the machine as the throw or the return leaves it, so that what an aborted operation has
  already written stays visible.
\<close>

type_synonym 'a vm_result = "(vm_error + 'a) \<times> VM"

subsection \<open>Bytes in memory\<close>

text \<open>
  \<open>std::memcpy\<close> between a \<open>uint64_t\<close> and a byte buffer, on a little-endian target: the
  least significant byte comes first.
\<close>

fun to_bytes :: "nat \<Rightarrow> u64 \<Rightarrow> u8 list" where
  "to_bytes 0 v = []"
| "to_bytes (Suc n) v = ucast v # to_bytes n (drop_bit 8 v)"

fun from_bytes :: "u8 list \<Rightarrow> u64" where
  "from_bytes [] = 0"
| "from_bytes (b # bs) = ucast b OR push_bit 8 (from_bytes bs)"

definition memcpy_to :: "u8 list \<Rightarrow> nat \<Rightarrow> u8 list \<Rightarrow> u8 list" where
  "memcpy_to mem off bs = take off mem @ bs @ drop (off + length bs) mem"

definition memcpy_from :: "u8 list \<Rightarrow> nat \<Rightarrow> nat \<Rightarrow> u8 list" where
  "memcpy_from mem off n = take n (drop off mem)"

subsection \<open>Heap access\<close>

text \<open>\<open>addr\<close> is a \<open>uint32_t\<close>; \<open>addr + size\<close> is computed in \<open>size_t\<close>.\<close>

definition read_memory :: "u32 \<Rightarrow> u64 \<Rightarrow> VM \<Rightarrow> u64 vm_result" where
  "read_memory addr sz s =
     (if ucast addr + sz > heap_size s then (Inl MemoryReadOutOfBounds, s)
      else (Inr (from_bytes (memcpy_from (heap s) (unat addr) (min (unat sz) 8))), s))"

definition write_memory :: "u32 \<Rightarrow> u64 \<Rightarrow> u64 \<Rightarrow> VM \<Rightarrow> unit vm_result" where
  "write_memory addr v sz s =
     (if ucast addr + sz > heap_size s then (Inl MemoryWriteOutOfBounds, s)
      else (Inr (), s\<lparr>heap := memcpy_to (heap s) (unat addr) (to_bytes (min (unat sz) 8) v)\<rparr>))"

subsection \<open>Stack operations\<close>

text \<open>
  \<open>sp_ + size > stack_size_\<close> and \<open>sp_ += size\<close> are unsigned machine arithmetic: the sum
  wraps around at \<open>2 ^ 64\<close>.
\<close>

definition push :: "u64 \<Rightarrow> u64 \<Rightarrow> VM \<Rightarrow> unit vm_result" where
  "push v sz s =
     (if sp s + sz > stack_size s then (Inl StackOverflow, s)
      else (Inr (),
            s\<lparr>stack := memcpy_to (stack s) (unat (sp s)) (to_bytes (min (unat sz) 8) v),
              sp := sp s + sz\<rparr>))"

definition pop :: "u64 \<Rightarrow> VM \<Rightarrow> u64 vm_result" where
  "pop sz s =
     (if sp s < sz then (Inl StackUnderflow, s)
      else (let s' = s\<lparr>sp := sp s - sz\<rparr>
            in (Inr (from_bytes (memcpy_from (stack s') (unat (sp s')) (min (unat sz) 8))), s')))"

subsection \<open>Registers\<close>

definition read_register :: "u8 \<Rightarrow> VM \<Rightarrow> u64 vm_result" where
  "read_register reg s =
     (if unat reg \<ge> NUM_REGISTERS then (Inl InvalidRegisterIndex, s)
      else (Inr (registers s ! unat reg), s))"

definition write_register :: "u8 \<Rightarrow> u64 \<Rightarrow> VM \<Rightarrow> unit vm_result" where
  "write_register reg v s =
     (if unat reg \<ge> NUM_REGISTERS then (Inl InvalidRegisterIndex, s)
      else (Inr (), s\<lparr>registers := (registers s)[unat reg := v]\<rparr>))"

text \<open>
  The instruction handlers index \<open>registers_\<close> directly, without the check of
  \<open>read_register\<close>. An index outside the register file is undefined behaviour in the source;
  the theorems about handlers assume the selectors an instruction uses are below
  \<open>NUM_REGISTERS\<close> and the register file has that many entries.
\<close>

definition reg :: "VM \<Rightarrow> u8 \<Rightarrow> u64" where
  "reg s r = registers s ! unat r"

definition set_reg :: "u8 \<Rightarrow> u64 \<Rightarrow> VM \<Rightarrow> VM" where
  "set_reg r v s = s\<lparr>registers := (registers s)[unat r := v]\<rparr>"

definition valid_registers :: "Instruction \<Rightarrow> VM \<Rightarrow> bool" where
  "valid_registers instr s \<longleftrightarrow>
     length (registers s) = NUM_REGISTERS \<and>
     unat (dest instr) < NUM_REGISTERS \<and>
     unat (operand1 instr) < NUM_REGISTERS \<and>
     unat (operand2 instr) < NUM_REGISTERS"

subsection \<open>Arithmetic handlers\<close>

definition execute_add :: "Instruction \<Rightarrow> VM \<Rightarrow> unit vm_result" where
  "execute_add instr s =
     (let a = reg s (operand1 instr); b = reg s (operand2 instr)
      in (Inr (), set_reg (dest instr) (a + b) s))"

definition execute_sub :: "Instruction \<Rightarrow> VM \<Rightarrow> unit vm_result" where
  "execute_sub instr s =
     (let a = reg s (operand1 instr); b = reg s (operand2 instr)
      in (Inr (), set_reg (dest instr) (a - b) s))"

definition execute_mul :: "Instruction \<Rightarrow> VM \<Rightarrow> unit vm_result" where
  "execute_mul instr s =
     (let a = reg s (operand1 instr); b = reg s (operand2 instr)
      in (Inr (), set_reg (dest instr) (a * b) s))"

definition execute_div :: "Instruction \<Rightarrow> VM \<Rightarrow> unit vm_result" where
  "execute_div instr s =
     (let a = reg s (operand1 instr); b = reg s (operand2 instr)
      in if b = 0 then (Inl DivisionByZero, s)
         else (Inr (), set_reg (dest instr) (a div b) s))"

definition execute_mod :: "Instruction \<Rightarrow> VM \<Rightarrow> unit vm_result" where
  "execute_mod instr s =
     (let a = reg s (operand1 instr); b = reg s (operand2 instr)
      in if b = 0 then (Inl ModuloByZero, s)
         else (Inr (), set_reg (dest instr) (a mod b) s))"

subsection \<open>Bitwise handlers\<close>

definition execute_and :: "Instruction \<Rightarrow> VM \<Rightarrow> unit vm_result" where
  "execute_and instr s =
     (let a = reg s (operand1 instr); b = reg s (operand2 instr)
      in (Inr (), set_reg (dest instr) (a AND b) s))"

definition execute_or :: "Instruction \<Rightarrow> VM \<Rightarrow> unit vm_result" where
  "execute_or instr s =
     (let a = reg s (operand1 instr); b = reg s (operand2 instr)
      in (Inr (), set_reg (dest instr) (a OR b) s))"

definition execute_xor :: "Instruction \<Rightarrow> VM \<Rightarrow> unit vm_result" where
  "execute_xor instr s =
     (let a = reg s (operand1 instr); b = reg s (operand2 instr)
      in (Inr (), set_reg (dest instr) (a XOR b) s))"

text \<open>
  A shift by 64 or more is undefined behaviour in the source; the model gives 0 there. No
  statement below depends on it.
\<close>

definition execute_shl :: "Instruction \<Rightarrow> VM \<Rightarrow> unit vm_result" where
  "execute_shl instr s =
     (let v = reg s (operand1 instr); shift = reg s (operand2 instr)
      in (Inr (), set_reg (dest instr) (push_bit (unat shift) v) s))"

definition execute_shr :: "Instruction \<Rightarrow> VM \<Rightarrow> unit vm_result" where
  "execute_shr instr s =
     (let v = reg s (operand1 instr); shift = reg s (operand2 instr)
      in (Inr (), set_reg (dest instr) (drop_bit (unat shift) v) s))"

subsection \<open>Memory and stack handlers\<close>

definition execute_load :: "Instruction \<Rightarrow> VM \<Rightarrow> unit vm_result" where
  "execute_load instr s =
     (let addr = (ucast (reg s (operand1 instr)) :: u32)
      in case read_memory addr 8 s of
           (Inl e, s') \<Rightarrow> (Inl e, s')
         | (Inr v, s') \<Rightarrow> (Inr (), set_reg (dest instr) v s'))"

definition execute_store :: "Instruction \<Rightarrow> VM \<Rightarrow> unit vm_result" where
  "execute_store instr s =
     (let addr = (ucast (reg s (operand1 instr)) :: u32); v = reg s (operand2 instr)
      in write_memory addr v 8 s)"

definition execute_loadimm :: "Instruction \<Rightarrow> VM \<Rightarrow> unit vm_result" where
  "execute_loadimm instr s = (Inr (), set_reg (dest instr) (immediate instr) s)"

definition execute_push :: "Instruction \<Rightarrow> VM \<Rightarrow> unit vm_result" where
  "execute_push instr s = push (reg s (operand1 instr)) 8 s"

definition execute_pop :: "Instruction \<Rightarrow> VM \<Rightarrow> unit vm_result" where
  "execute_pop instr s =
     (case pop 8 s of
        (Inl e, s') \<Rightarrow> (Inl e, s')
      | (Inr v, s') \<Rightarrow> (Inr (), set_reg (dest instr) v s'))"

subsection \<open>Control flow handlers\<close>

definition execute_jmp :: "Instruction \<Rightarrow> VM \<Rightarrow> unit vm_result" where
  "execute_jmp instr s = (Inr (), s\<lparr>pc := immediate instr - 1\<rparr>)"

definition execute_jz :: "Instruction \<Rightarrow> VM \<Rightarrow> unit vm_result" where
  "execute_jz instr s =
     (if reg s (operand1 instr) = 0 then (Inr (), s\<lparr>pc := immediate instr - 1\<rparr>)
      else (Inr (), s))"

definition execute_jnz :: "Instruction \<Rightarrow> VM \<Rightarrow> unit vm_result" where
  "execute_jnz instr s =
     (if reg s (operand1 instr) \<noteq> 0 then (Inr (), s\<lparr>pc := immediate instr - 1\<rparr>)
      else (Inr (), s))"

text \<open>The four signed jumps read both registers as \<open>int64_t\<close>.\<close>

definition execute_jlt :: "Instruction \<Rightarrow> VM \<Rightarrow> unit vm_result" where
  "execute_jlt instr s =
     (let a = sint (reg s (operand1 instr)); b = sint (reg s (operand2 instr))
      in if a < b then (Inr (), s\<lparr>pc := immediate instr - 1\<rparr>) else (Inr (), s))"

definition execute_jle :: "Instruction \<Rightarrow> VM \<Rightarrow> unit vm_result" where
  "execute_jle instr s =
     (let a = sint (reg s (operand1 instr)); b = sint (reg s (operand2 instr))
      in if a \<le> b then (Inr (), s\<lparr>pc := immediate instr - 1\<rparr>) else (Inr (), s))"

definition execute_jgt :: "Instruction \<Rightarrow> VM \<Rightarrow> unit vm_result" where
  "execute_jgt instr s =
     (let a = sint (reg s (operand1 instr)); b = sint (reg s (operand2 instr))
      in if a > b then (Inr (), s\<lparr>pc := immediate instr - 1\<rparr>) else (Inr (), s))"

definition execute_jge :: "Instruction \<Rightarrow> VM \<Rightarrow> unit vm_result" where
  "execute_jge instr s =
     (let a = sint (reg s (operand1 instr)); b = sint (reg s (operand2 instr))
      in if a \<ge> b then (Inr (), s\<lparr>pc := immediate instr - 1\<rparr>) else (Inr (), s))"

text \<open>The call stack is a vector: \<open>push_back\<close> appends, \<open>back\<close> is the last entry.\<close>

definition execute_call :: "Instruction \<Rightarrow> VM \<Rightarrow> unit vm_result" where
  "execute_call instr s =
     (Inr (), s\<lparr>call_stack := call_stack s @ [pc s], pc := immediate instr - 1\<rparr>)"

definition execute_ret :: "Instruction \<Rightarrow> VM \<Rightarrow> unit vm_result" where
  "execute_ret instr s =
     (if call_stack s = [] then (Inl ReturnFromEmptyCallStack, s)
      else (Inr (), s\<lparr>pc := last (call_stack s), call_stack := butlast (call_stack s)\<rparr>))"

definition execute_cmp :: "Instruction \<Rightarrow> VM \<Rightarrow> unit vm_result" where
  "execute_cmp instr s =
     (let a = sint (reg s (operand1 instr)); b = sint (reg s (operand2 instr))
      in if a = b then (Inr (), set_reg 15 0 s)
         else if a < b then (Inr (), set_reg 15 1 s)
         else (Inr (), set_reg 15 2 s))"

subsection \<open>Dispatch\<close>

text \<open>The \<open>switch\<close> of \<open>execute_instruction\<close>, before the increment of the program counter.\<close>

definition dispatch :: "Instruction \<Rightarrow> VM \<Rightarrow> unit vm_result" where
  "dispatch instr s =
     (case opcode instr of
        ADD \<Rightarrow> execute_add instr s
      | SUB \<Rightarrow> execute_sub instr s
      | MUL \<Rightarrow> execute_mul instr s
      | DIV \<Rightarrow> execute_div instr s
      | MOD \<Rightarrow> execute_mod instr s
      | AND_OP \<Rightarrow> execute_and instr s
      | OR_OP \<Rightarrow> execute_or instr s
      | XOR_OP \<Rightarrow> execute_xor instr s
      | SHL \<Rightarrow> execute_shl instr s
      | SHR \<Rightarrow> execute_shr instr s
      | LOAD \<Rightarrow> execute_load instr s
      | STORE \<Rightarrow> execute_store instr s
      | LOADIMM \<Rightarrow> execute_loadimm instr s
      | PUSH \<Rightarrow> execute_push instr s
      | POP \<Rightarrow> execute_pop instr s
      | JMP \<Rightarrow> execute_jmp instr s
      | JZ \<Rightarrow> execute_jz instr s
      | JNZ \<Rightarrow> execute_jnz instr s
      | JLT \<Rightarrow> execute_jlt instr s
      | JLE \<Rightarrow> execute_jle instr s
      | JGT \<Rightarrow> execute_jgt instr s
      | JGE \<Rightarrow> execute_jge instr s
      | CALL \<Rightarrow> execute_call instr s
      | RET \<Rightarrow> execute_ret instr s
      | CMP \<Rightarrow> execute_cmp instr s
      | NOP \<Rightarrow> (Inr (), s)
      | HALT \<Rightarrow> (Inr (), s\<lparr>halt_flag := True\<rparr>)
      | OTHER_OPCODE \<Rightarrow> (Inl UnknownOpcode, s))"

text \<open>A handler that throws leaves \<open>execute_instruction\<close> before \<open>pc_++\<close>.\<close>

definition execute_instruction :: "Instruction \<Rightarrow> VM \<Rightarrow> unit vm_result" where
  "execute_instruction instr s =
     (case dispatch instr s of
        (Inl e, s') \<Rightarrow> (Inl e, s')
      | (Inr u, s') \<Rightarrow> (Inr (), s'\<lparr>pc := pc s' + 1\<rparr>))"

text \<open>
  The guard and the fetch of the loop in \<open>run\<close>: the instruction the next iteration executes,
  if there is one.
\<close>

definition fetch :: "VM \<Rightarrow> Instruction option" where
  "fetch s =
     (if \<not> halt_flag s \<and> unat (pc s) < length (program s) then Some (program s ! unat (pc s))
      else None)"

text \<open>
  The loop of \<open>run\<close> need not end (a program may jump back for ever), so it runs on fuel:
  \<open>None\<close> when the fuel is used up, otherwise the outcome of the run.
\<close>

fun run_loop :: "nat \<Rightarrow> VM \<Rightarrow> unit vm_result option" where
  "run_loop 0 s = None"
| "run_loop (Suc n) s =
     (case fetch s of
        None \<Rightarrow> Some (Inr (), s)
      | Some instr \<Rightarrow>
          (case execute_instruction instr s of
             (Inl e, s') \<Rightarrow> Some (Inl e, s')
           | (Inr u, s') \<Rightarrow> run_loop n s'))"

definition run :: "nat \<Rightarrow> Instruction list \<Rightarrow> VM \<Rightarrow> unit vm_result option" where
  "run n prog s = run_loop n (s\<lparr>program := prog, pc := 0, halt_flag := False\<rparr>)"

text \<open>The constructor: both memory regions and the register file are zeroed.\<close>

definition VM_new :: "u64 \<Rightarrow> u64 \<Rightarrow> VM" where
  "VM_new hsz ssz =
     \<lparr>heap_size = hsz, stack_size = ssz,
      heap = replicate (unat hsz) 0, stack = replicate (unat ssz) 0,
      registers = replicate NUM_REGISTERS 0,
      pc = 0, sp = 0, fp = 0, halt_flag = False, call_stack = [], program = []\<rparr>"

subsection \<open>Jumps\<close>

definition is_jump :: "OpCode \<Rightarrow> bool" where
  "is_jump op \<longleftrightarrow> op \<in> {JMP, JZ, JNZ, JLT, JLE, JGT, JGE, CALL}"

text \<open>The condition under which each jump handler assigns the program counter.\<close>

definition branch_taken :: "Instruction \<Rightarrow> VM \<Rightarrow> bool" where
  "branch_taken instr s =
     (case opcode instr of
        JMP \<Rightarrow> True
      | JZ \<Rightarrow> reg s (operand1 instr) = 0
      | JNZ \<Rightarrow> reg s (operand1 instr) \<noteq> 0
      | JLT \<Rightarrow> sint (reg s (operand1 instr)) < sint (reg s (operand2 instr))
      | JLE \<Rightarrow> sint (reg s (operand1 instr)) \<le> sint (reg s (operand2 instr))
      | JGT \<Rightarrow> sint (reg s (operand1 instr)) > sint (reg s (operand2 instr))
      | JGE \<Rightarrow> sint (reg s (operand1 instr)) \<ge> sint (reg s (operand2 instr))
      | CALL \<Rightarrow> True
      | _ \<Rightarrow> False)"

text \<open>Machines and instructions used to instantiate the theorems below.\<close>

definition instr0 :: Instruction where
  "instr0 = \<lparr>opcode = NOP, dest = 0, operand1 = 1, operand2 = 2, immediate = 0\<rparr>"

definition vm0 :: VM where
  "vm0 = (VM_new 32 32)\<lparr>program := replicate 8 instr0, pc := 3\<rparr>"

section \<open>The lexer\<close>

text \<open>
  The token vocabulary. The enum declaration that the lexer and the parser are compiled
  against is not among the sources; the constructors below are the tags the two
  implementation files name. Tags whose names are taken in HOL carry the suffix \<open>_TOKEN\<close>.
\<close>

datatype (plugins only: code) TokenType =
    NUMBER | FLOAT | STRING | CHAR_TOKEN | IDENTIFIER
  | IF | ELSE | FOR | WHILE | RETURN | FUNCTION | VAR | CONST_TOKEN | CLASS | STRUCT
  | TRUE | FALSE | NULL_TOKEN | VOID | INT_TOKEN | BOOL
  | LEFT_PAREN | RIGHT_PAREN | LEFT_BRACE | RIGHT_BRACE | LEFT_BRACKET | RIGHT_BRACKET
  | COMMA | SEMICOLON | COLON | QUESTION | DOT
  | EQUAL_EQUAL | EQUAL | NOT_EQUAL | NOT_TOKEN
  | LESS_EQUAL | LEFT_SHIFT | LESS | GREATER_EQUAL | RIGHT_SHIFT | GREATER
  | AND_AND | AND_TOKEN | OR_OR | OR_TOKEN
  | PLUS_PLUS | PLUS_EQUAL | PLUS | MINUS_MINUS | MINUS_EQUAL | ARROW | MINUS
  | STAR_EQUAL | STAR | SLASH_EQUAL | SLASH | PERCENT_EQUAL | PERCENT
  | CARET | TILDE
  | NEWLINE | ASSIGN | MULTIPLY | DIVIDE | MODULO
  | END_OF_FILE | ERROR

datatype Token =
  Token (token_type: TokenType) (token_value: string) (token_line: int) (token_column: int)

record Lexer =
  source :: string
  position :: nat
  line :: int
  column :: int

definition Lexer_new :: "string \<Rightarrow> Lexer" where
  "Lexer_new src = \<lparr>source = src, position = 0, line = 1, column = 1\<rparr>"

definition keywords_table :: "string \<Rightarrow> TokenType option" where
  "keywords_table = map_of
     [(''if'', IF), (''else'', ELSE), (''for'', FOR), (''while'', WHILE),
      (''return'', RETURN), (''function'', FUNCTION), (''var'', VAR), (''const'', CONST_TOKEN),
      (''class'', CLASS), (''struct'', STRUCT), (''true'', TRUE), (''false'', FALSE),
      (''null'', NULL_TOKEN), (''void'', VOID), (''int'', INT_TOKEN), (''float'', FLOAT),
      (''string'', STRING), (''bool'', BOOL)]"

subsection \<open>Character classes\<close>

text \<open>
  The classification functions of \<open><cctype>\<close> in the C locale. Bytes above 127 belong to no
  class.
\<close>

definition isspace :: "char \<Rightarrow> bool" where
  "isspace c \<longleftrightarrow> c \<in> {CHR '' '', CHR 0x09, CHR 0x0A, CHR 0x0B, CHR 0x0C, CHR 0x0D}"

definition isdigit :: "char \<Rightarrow> bool" where
  "isdigit c \<longleftrightarrow> (48 :: nat) \<le> of_char c \<and> of_char c \<le> (57 :: nat)"

definition isalpha :: "char \<Rightarrow> bool" where
  "isalpha c \<longleftrightarrow> ((65 :: nat) \<le> of_char c \<and> of_char c \<le> (90 :: nat))
                 \<or> ((97 :: nat) \<le> of_char c \<and> of_char c \<le> (122 :: nat))"

definition isalnum :: "char \<Rightarrow> bool" where
  "isalnum c \<longleftrightarrow> isalpha c \<or> isdigit c"

definition isxdigit :: "char \<Rightarrow> bool" where
  "isxdigit c \<longleftrightarrow> isdigit c
                 \<or> ((65 :: nat) \<le> of_char c \<and> of_char c \<le> (70 :: nat))
                 \<or> ((97 :: nat) \<le> of_char c \<and> of_char c \<le> (102 :: nat))"

subsection \<open>Cursor\<close>

text \<open>
  \<open>source[position]\<close>: reading a \<open>std::string\<close> at its length gives the NUL character.
\<close>

definition at_position :: "Lexer \<Rightarrow> char" where
  "at_position s = (if position s < length (source s) then source s ! position s else CHR 0x00)"

definition advance :: "Lexer \<Rightarrow> Lexer" where
  "advance s =
     (if position s < length (source s) then
        (if source s ! position s = CHR 0x0A
         then s\<lparr>line := line s + 1, column := 1, position := position s + 1\<rparr>
         else s\<lparr>column := column s + 1, position := position s + 1\<rparr>)
      else s)"

text \<open>
  \<open>peek(offset)\<close>. Modelled from the spec: the lexer calls it without an argument, and the
  default is in the class declaration, which is not among the sources. Every call here
  passes 1: the specification has the two-character operators recognised by the character
  after the current one.
\<close>

definition peek :: "nat \<Rightarrow> Lexer \<Rightarrow> char" where
  "peek offset s =
     (let lookahead = position s + offset
      in if lookahead \<ge> length (source s) then CHR 0x00 else source s ! lookahead)"

lemma source_advance [simp]: "source (advance s) = source s"
  by (simp add: advance_def)

lemma position_advance:
  "position (advance s) = (if position s < length (source s) then Suc (position s) else position s)"
  by (simp add: advance_def)

subsection \<open>Whitespace and comments\<close>

function skip_line_comment :: "Lexer \<Rightarrow> Lexer" where
  "skip_line_comment s =
     (if position s < length (source s) \<and> source s ! position s \<noteq> CHR 0x0A
      then skip_line_comment (advance s) else s)"
  by pat_completeness auto
termination
  by (relation "measure (\<lambda>s. length (source s) - position s)") (auto simp: position_advance)

function skip_block_comment :: "Lexer \<Rightarrow> Lexer" where
  "skip_block_comment s =
     (if position s < length (source s) then
        (if source s ! position s = CHR ''*'' \<and> peek 1 s = CHR ''/''
         then advance (advance s)
         else skip_block_comment (advance s))
      else s)"
  by pat_completeness auto
termination
  by (relation "measure (\<lambda>s. length (source s) - position s)") (auto simp: position_advance)

declare skip_line_comment.simps [simp del] skip_block_comment.simps [simp del]

lemma skip_line_comment_mono:
  "source (skip_line_comment s) = source s \<and> position s \<le> position (skip_line_comment s)"
proof (induction s rule: skip_line_comment.induct)
  case (1 s)
  then show ?case
    by (subst (1 2) skip_line_comment.simps) (auto simp: position_advance split: if_splits)
qed

lemma skip_block_comment_mono:
  "source (skip_block_comment s) = source s \<and> position s \<le> position (skip_block_comment s)"
proof (induction s rule: skip_block_comment.induct)
  case (1 s)
  then show ?case
    by (subst (1 2) skip_block_comment.simps) (auto simp: position_advance split: if_splits)
qed

text \<open>The body of the \<open>//\<close> case after its two characters: to the end of the line and over it.\<close>

definition skip_rest_of_line :: "Lexer \<Rightarrow> Lexer" where
  "skip_rest_of_line s =
     (let s1 = skip_line_comment s
      in if position s1 < length (source s1) then advance s1 else s1)"

lemma advance_mono: "position s \<le> position (advance s)"
  by (simp add: position_advance)

lemma advance_advance_mono: "position s \<le> position (advance (advance s))"
  using advance_mono [of s] advance_mono [of "advance s"] by simp

lemma advance_strict:
  "position s < length (source s) \<Longrightarrow> position s < position (advance s)"
  by (simp add: position_advance)

lemma skip_rest_of_line_mono:
  "source (skip_rest_of_line s) = source s \<and> position s \<le> position (skip_rest_of_line s)"
  using skip_line_comment_mono [of s] advance_mono [of "skip_line_comment s"]
  by (auto simp: skip_rest_of_line_def Let_def)

function skipWhitespaceAndComments :: "Lexer \<Rightarrow> Lexer" where
  "skipWhitespaceAndComments s =
     (if position s < length (source s) then
        (if isspace (source s ! position s) then skipWhitespaceAndComments (advance s)
         else if source s ! position s = CHR ''/'' \<and> peek 1 s = CHR ''/'' then
           skipWhitespaceAndComments (skip_rest_of_line (advance (advance s)))
         else if source s ! position s = CHR ''/'' \<and> peek 1 s = CHR ''*'' then
           skipWhitespaceAndComments (skip_block_comment (advance (advance s)))
         else s)
      else s)"
  by pat_completeness auto
termination
proof (relation "measure (\<lambda>s. length (source s) - position s)", goal_cases)
  case 1
  show ?case by simp
next
  case (2 s)
  then show ?case using advance_strict [of s] by simp
next
  case (3 s)
  then show ?case
    using skip_rest_of_line_mono [of "advance (advance s)"] advance_strict [of s]
      advance_mono [of "advance s"]
    by auto
next
  case (4 s)
  then show ?case
    using skip_block_comment_mono [of "advance (advance s)"] advance_strict [of s]
      advance_mono [of "advance s"]
    by auto
qed

declare skipWhitespaceAndComments.simps [simp del]

subsection \<open>Scanners\<close>

definition makeToken :: "TokenType \<Rightarrow> string \<Rightarrow> Lexer \<Rightarrow> Token \<times> Lexer" where
  "makeToken ty v s = (Token ty v (line s) (column s), advance s)"

text \<open>The escape tables of string and character literals.\<close>

definition string_escape :: "char \<Rightarrow> char" where
  "string_escape escaped =
     (if escaped = CHR ''n'' then CHR 0x0A
      else if escaped = CHR ''t'' then CHR 0x09
      else if escaped = CHR ''r'' then CHR 0x0D
      else if escaped = CHR 0x5C then CHR 0x5C
      else if escaped = CHR 0x22 then CHR 0x22
      else if escaped = CHR ''0'' then CHR 0x00
      else escaped)"

definition char_escape :: "char \<Rightarrow> char" where
  "char_escape escaped =
     (if escaped = CHR ''n'' then CHR 0x0A
      else if escaped = CHR ''t'' then CHR 0x09
      else if escaped = CHR ''r'' then CHR 0x0D
      else if escaped = CHR 0x5C then CHR 0x5C
      else if escaped = CHR 0x27 then CHR 0x27
      else if escaped = CHR ''0'' then CHR 0x00
      else escaped)"

function scanString_loop :: "string \<Rightarrow> Lexer \<Rightarrow> string \<times> Lexer" where
  "scanString_loop v s =
     (if position s < length (source s) \<and> source s ! position s \<noteq> CHR 0x22 then
        (if source s ! position s = CHR 0x5C \<and> peek 1 s \<noteq> CHR 0x00 then
           scanString_loop (v @ [string_escape (at_position (advance s))]) (advance (advance s))
         else scanString_loop (v @ [source s ! position s]) (advance s))
      else (v, s))"
  by pat_completeness auto
termination
  by (relation "measure (\<lambda>(v, s). length (source s) - position s)")
     (auto simp: position_advance)

definition scanString :: "Lexer \<Rightarrow> Token \<times> Lexer" where
  "scanString s =
     (let startLine = line s; startColumn = column s;
          (v, s1) = scanString_loop [] (advance s);
          s2 = (if position s1 < length (source s1) then advance s1 else s1)
      in (Token STRING v startLine startColumn, s2))"

definition scanCharacter :: "Lexer \<Rightarrow> Token \<times> Lexer" where
  "scanCharacter s =
     (let startLine = line s; startColumn = column s;
          s1 = advance s;
          (v, s2) =
            (if position s1 < length (source s1) \<and> source s1 ! position s1 = CHR 0x5C then
               (let s' = advance s1; escaped = at_position s'
                in ([char_escape escaped], advance s'))
             else if position s1 < length (source s1) then
               ([source s1 ! position s1], advance s1)
             else ([], s1));
          s3 = (if position s2 < length (source s2) \<and> source s2 ! position s2 = CHR 0x27
                then advance s2 else s2)
      in (Token CHAR_TOKEN v startLine startColumn, s3))"

text \<open>
  The loops of the form \<open>while (position < length && pred(source[position]))
  { value += source[position]; advance(); }\<close>, which number and identifier scanning share.
\<close>

function scan_while :: "(char \<Rightarrow> bool) \<Rightarrow> string \<Rightarrow> Lexer \<Rightarrow> string \<times> Lexer" where
  "scan_while pred v s =
     (if position s < length (source s) \<and> pred (source s ! position s)
      then scan_while pred (v @ [source s ! position s]) (advance s)
      else (v, s))"
  by pat_completeness auto
termination
  by (relation "measure (\<lambda>(pred, v, s). length (source s) - position s)")
     (auto simp: position_advance)

definition scanNumber :: "Lexer \<Rightarrow> Token \<times> Lexer" where
  "scanNumber s =
     (let startLine = line s; startColumn = column s in
      if at_position s = CHR ''0'' \<and> (peek 1 s = CHR ''x'' \<or> peek 1 s = CHR ''X'') then
        (let v1 = [at_position s]; s1 = advance s;
             v2 = v1 @ [at_position s1]; s2 = advance s1;
             (v3, s3) = scan_while isxdigit v2 s2
         in (Token NUMBER v3 startLine startColumn, s3))
      else
        (let (v1, s1) = scan_while isdigit [] s in
         if position s1 < length (source s1) \<and> source s1 ! position s1 = CHR ''.'' \<and>
            position s1 + 1 < length (source s1) \<and> isdigit (source s1 ! (position s1 + 1))
         then
           (let v2 = v1 @ [source s1 ! position s1]; s2 = advance s1;
                (v3, s3) = scan_while isdigit v2 s2;
                (v6, s6) =
                  (if position s3 < length (source s3) \<and>
                      (source s3 ! position s3 = CHR ''e'' \<or> source s3 ! position s3 = CHR ''E'')
                   then
                     (let v4 = v3 @ [source s3 ! position s3]; s4 = advance s3;
                          (v5, s5) =
                            (if position s4 < length (source s4) \<and>
                                (source s4 ! position s4 = CHR ''+'' \<or>
                                 source s4 ! position s4 = CHR ''-'')
                             then (v4 @ [source s4 ! position s4], advance s4)
                             else (v4, s4))
                      in scan_while isdigit v5 s5)
                   else (v3, s3))
            in (Token FLOAT v6 startLine startColumn, s6))
         else (Token NUMBER v1 startLine startColumn, s1)))"

definition scanIdentifier :: "Lexer \<Rightarrow> Token \<times> Lexer" where
  "scanIdentifier s =
     (let startLine = line s; startColumn = column s;
          (v, s1) = scan_while (\<lambda>c. isalnum c \<or> c = CHR ''_'') [] s
      in case keywords_table v of
           Some ty \<Rightarrow> (Token ty v startLine startColumn, s1)
         | None \<Rightarrow> (Token IDENTIFIER v startLine startColumn, s1))"

declare scanString_loop.simps [simp del] scan_while.simps [simp del]

subsection \<open>The next token\<close>

text \<open>
  The chain of tests of \<open>nextToken\<close> after whitespace and comments are skipped and the end of
  the input is excluded; \<open>s\<close> is the lexer at the first character of the token.
\<close>

definition scanToken :: "Lexer \<Rightarrow> Token \<times> Lexer" where
  "scanToken s =
     (let current = source s ! position s in
      if current = CHR ''('' then makeToken LEFT_PAREN ''('' s
      else if current = CHR '')'' then makeToken RIGHT_PAREN '')'' s
      else if current = CHR ''{'' then makeToken LEFT_BRACE ''{'' s
      else if current = CHR ''}'' then makeToken RIGHT_BRACE ''}'' s
      else if current = CHR ''['' then makeToken LEFT_BRACKET ''['' s
      else if current = CHR '']'' then makeToken RIGHT_BRACKET '']'' s
      else if current = CHR '','' then makeToken COMMA '','' s
      else if current = CHR '';'' then makeToken SEMICOLON '';'' s
      else if current = CHR '':'' then makeToken COLON '':'' s
      else if current = CHR ''?'' then makeToken QUESTION ''?'' s
      else if current = CHR ''.'' then makeToken DOT ''.'' s
      else if current = CHR ''='' then
        (if peek 1 s = CHR ''='' then makeToken EQUAL_EQUAL ''=='' (advance s)
         else makeToken EQUAL ''='' s)
      else if current = CHR ''!'' then
        (if peek 1 s = CHR ''='' then makeToken NOT_EQUAL ''!='' (advance s)
         else makeToken NOT_TOKEN ''!'' s)
      else if current = CHR ''<'' then
        (if peek 1 s = CHR ''='' then makeToken LESS_EQUAL ''<='' (advance s)
         else if peek 1 s = CHR ''<'' then makeToken LEFT_SHIFT ''<<'' (advance s)
         else makeToken LESS ''<'' s)
      else if current = CHR ''>'' then
        (if peek 1 s = CHR ''='' then makeToken GREATER_EQUAL ''>='' (advance s)
         else if peek 1 s = CHR ''>'' then makeToken RIGHT_SHIFT ''>>'' (advance s)
         else makeToken GREATER ''>'' s)
      else if current = CHR ''&'' then
        (if peek 1 s = CHR ''&'' then makeToken AND_AND ''&&'' (advance s)
         else makeToken AND_TOKEN ''&'' s)
      else if current = CHR ''|'' then
        (if peek 1 s = CHR ''|'' then makeToken OR_OR ''||'' (advance s)
         else makeToken OR_TOKEN ''|'' s)
      else if current = CHR ''+'' then
        (if peek 1 s = CHR ''+'' then makeToken PLUS_PLUS ''++'' (advance s)
         else if peek 1 s = CHR ''='' then makeToken PLUS_EQUAL ''+='' (advance s)
         else makeToken PLUS ''+'' s)
      else if current = CHR ''-'' then
        (if peek 1 s = CHR ''-'' then makeToken MINUS_MINUS ''--'' (advance s)
         else if peek 1 s = CHR ''='' then makeToken MINUS_EQUAL ''-='' (advance s)
         else if peek 1 s = CHR ''>'' then makeToken ARROW ''->'' (advance s)
         else makeToken MINUS ''-'' s)
      else if current = CHR ''*'' then
        (if peek 1 s = CHR ''='' then makeToken STAR_EQUAL ''*='' (advance s)
         else makeToken STAR ''*'' s)
      else if current = CHR ''/'' then
        (if peek 1 s = CHR ''='' then makeToken SLASH_EQUAL ''/='' (advance s)
         else makeToken SLASH ''/'' s)
      else if current = CHR ''%'' then
        (if peek 1 s = CHR ''='' then makeToken PERCENT_EQUAL ''%='' (advance s)
         else makeToken PERCENT ''%'' s)
      else if current = CHR ''^'' then makeToken CARET ''^'' s
      else if current = CHR ''~'' then makeToken TILDE ''~'' s
      else if current = CHR 0x22 then scanString s
      else if current = CHR 0x27 then scanCharacter s
      else if isdigit current then scanNumber s
      else if isalpha current \<or> current = CHR ''_'' then scanIdentifier s
      else (Token ERROR [current] (line s) (column s), advance s))"

definition nextToken :: "Lexer \<Rightarrow> Token \<times> Lexer" where
  "nextToken s0 =
     (let s = skipWhitespaceAndComments s0 in
      if position s \<ge> length (source s) then (Token END_OF_FILE [] (line s) (column s), s)
      else scanToken s)"


subsection \<open>Every token consumes input\<close>

definition progress :: "Lexer \<Rightarrow> Token \<times> Lexer \<Rightarrow> bool" where
  "progress s r \<longleftrightarrow>
     source (snd r) = source s \<and> position s < position (snd r) \<and>
     token_type (fst r) \<noteq> END_OF_FILE"

lemma makeToken_progress:
  "position s < length (source s) \<Longrightarrow> ty \<noteq> END_OF_FILE \<Longrightarrow> progress s (makeToken ty v s)"
  by (simp add: progress_def makeToken_def position_advance)

lemma makeToken_advance_progress:
  "position s < length (source s) \<Longrightarrow> ty \<noteq> END_OF_FILE \<Longrightarrow>
     progress s (makeToken ty v (advance s))"
  by (simp add: progress_def makeToken_def position_advance)

lemma scanString_loop_mono:
  "source (snd (scanString_loop v s)) = source s \<and>
   position s \<le> position (snd (scanString_loop v s))"
proof (induction v s rule: scanString_loop.induct)
  case (1 v s)
  note a = advance_mono [of s] advance_advance_mono [of s]
  show ?case
    apply (subst (1 2) scanString_loop.simps)
    using 1 a by (auto simp: Let_def)
qed

lemma scan_while_mono:
  "source (snd (scan_while pred v s)) = source s \<and>
   position s \<le> position (snd (scan_while pred v s))"
proof (induction pred v s rule: scan_while.induct)
  case (1 pred v s)
  note a = advance_mono [of s]
  show ?case
    apply (subst (1 2) scan_while.simps)
    using 1 a by auto
qed

lemma scan_while_progress:
  "position s < length (source s) \<Longrightarrow> pred (source s ! position s) \<Longrightarrow>
     position s < position (snd (scan_while pred v s))"
  using scan_while_mono [of pred "v @ [source s ! position s]" "advance s"]
    advance_strict [of s]
  by (subst scan_while.simps) simp

lemma scanString_progress:
  "position s < length (source s) \<Longrightarrow> progress s (scanString s)"
  using scanString_loop_mono [of "[]" "advance s"] advance_strict [of s]
    advance_mono [of "snd (scanString_loop [] (advance s))"]
  by (auto simp: progress_def scanString_def Let_def split: prod.splits)

lemma scanCharacter_progress:
  "position s < length (source s) \<Longrightarrow> progress s (scanCharacter s)"
  by (auto simp: progress_def scanCharacter_def Let_def position_advance split: prod.splits
        if_splits)


lemma scan_while_monoD:
  "scan_while pred v s = (v', s') \<Longrightarrow> source s' = source s \<and> position s \<le> position s'"
  using scan_while_mono [of pred v s] by simp

lemma scan_while_progressD:
  "scan_while pred v s = (v', s') \<Longrightarrow> position s < length (source s) \<Longrightarrow>
     pred (source s ! position s) \<Longrightarrow> position s < position s'"
  using scan_while_progress [of s pred v] by simp

lemma scanNumber_progress:
  assumes "position s < length (source s)" and "isdigit (source s ! position s)"
  shows "progress s (scanNumber s)"
proof (cases "at_position s = CHR ''0'' \<and> (peek 1 s = CHR ''x'' \<or> peek 1 s = CHR ''X'')")
  case True
  obtain v3 s3 where
    w: "scan_while isxdigit ([at_position s] @ [at_position (advance s)]) (advance (advance s))
          = (v3, s3)"
    by (cases "scan_while isxdigit ([at_position s] @ [at_position (advance s)])
                 (advance (advance s))")
  have "source s3 = source s" "position s < position s3"
    using scan_while_monoD [OF w] advance_strict [OF assms(1)] advance_mono [of "advance s"]
    by simp_all
  then show ?thesis
    using True w by (simp add: progress_def scanNumber_def Let_def)
next
  case False
  obtain v1 s1 where w: "scan_while isdigit [] s = (v1, s1)"
    by (cases "scan_while isdigit [] s")
  have p: "source s1 = source s" "position s < position s1"
    using scan_while_monoD [OF w] scan_while_progressD [OF w assms] by simp_all
  show ?thesis
    using False w p
    by (auto simp: progress_def scanNumber_def Let_def position_advance
          split: prod.splits if_splits dest!: scan_while_monoD)
qed

lemma keywords_table_not_eof: "keywords_table v \<noteq> Some END_OF_FILE"
  by (simp add: keywords_table_def)

lemma scanIdentifier_progress:
  assumes "position s < length (source s)"
    and "isalpha (source s ! position s) \<or> source s ! position s = CHR ''_''"
  shows "progress s (scanIdentifier s)"
proof -
  obtain v1 s1 where w: "scan_while (\<lambda>c. isalnum c \<or> c = CHR ''_'') [] s = (v1, s1)"
    by (cases "scan_while (\<lambda>c. isalnum c \<or> c = CHR ''_'') [] s")
  have "isalnum (source s ! position s) \<or> source s ! position s = CHR ''_''"
    using assms(2) by (auto simp: isalnum_def)
  then have p: "source s1 = source s" "position s < position s1"
    using scan_while_monoD [OF w] scan_while_progressD [OF w assms(1)] by simp_all
  show ?thesis
    using w p keywords_table_not_eof [of v1]
    by (auto simp: progress_def scanIdentifier_def Let_def split: option.splits)
qed

lemma error_progress:
  "position s < length (source s) \<Longrightarrow>
     progress s (Token ERROR [c] (line s) (column s), advance s)"
  by (simp add: progress_def position_advance)

lemma scanToken_progress:
  assumes "position s < length (source s)"
  shows "progress s (scanToken s)"
  unfolding scanToken_def Let_def
  using assms
  by (simp add: makeToken_progress makeToken_advance_progress scanString_progress
        scanCharacter_progress scanNumber_progress scanIdentifier_progress error_progress)

lemma skipWhitespaceAndComments_mono:
  "source (skipWhitespaceAndComments s) = source s \<and>
   position s \<le> position (skipWhitespaceAndComments s)"
proof (induction s rule: skipWhitespaceAndComments.induct)
  case (1 s)
  note a = advance_mono [of s] advance_advance_mono [of s]
    skip_rest_of_line_mono [of "advance (advance s)"]
    skip_block_comment_mono [of "advance (advance s)"]
  show ?case
    apply (subst (1 2) skipWhitespaceAndComments.simps)
    using 1 a by auto
qed

lemma nextToken_progress:
  assumes "nextToken s = (token, s')" and "token_type token \<noteq> END_OF_FILE"
  shows "source s' = source s \<and> position s < position s' \<and> position s < length (source s)"
proof -
  let ?k = "skipWhitespaceAndComments s"
  have k: "source ?k = source s" "position s \<le> position ?k"
    using skipWhitespaceAndComments_mono [of s] by simp_all
  have lt: "position ?k < length (source ?k)"
    using assms by (auto simp: nextToken_def Let_def split: if_splits)
  then have "scanToken ?k = (token, s')"
    using assms(1) by (simp add: nextToken_def Let_def)
  then show ?thesis
    using scanToken_progress [OF lt] k lt by (simp add: progress_def)
qed

subsection \<open>The token sequence\<close>

text \<open>
  \<open>tokenize\<close> collects the tokens of \<open>nextToken\<close> up to and including the first
  \<open>END_OF_FILE\<close> token.
\<close>

function tokenize :: "Lexer \<Rightarrow> Token list" where
  "tokenize s =
     (case nextToken s of
        (token, s') \<Rightarrow>
          if token_type token \<noteq> END_OF_FILE then token # tokenize s' else [token])"
  by pat_completeness auto
termination
proof (relation "measure (\<lambda>s. length (source s) - position s)", goal_cases)
  case 1
  show ?case by simp
next
  case prems: 2
  then show ?case
    by (auto dest!: nextToken_progress [OF sym])
qed

declare tokenize.simps [simp del]


text \<open>Characters that start a token rule of \<open>nextToken\<close>.\<close>

definition starts_token :: "char \<Rightarrow> bool" where
  "starts_token c \<longleftrightarrow>
     c \<in> set ''(){}[],;:?.=!<>&|+-*/%^~'' \<or> c = CHR 0x22 \<or> c = CHR 0x27 \<or>
     isdigit c \<or> isalpha c \<or> c = CHR ''_''"

text \<open>
  Whether the text from index \<open>p\<close> on holds the two characters that close a block comment.
\<close>

definition comment_closed :: "string \<Rightarrow> nat \<Rightarrow> bool" where
  "comment_closed src p \<longleftrightarrow>
     list_ex (\<lambda>i. src ! i = CHR ''*'' \<and> src ! Suc i = CHR ''/'') [p ..< length src - 1]"

section \<open>The compiler\<close>

text \<open>
  The bytecode compiler of namespace \<open>rplus\<close>. Its header, the syntax tree it walks and the
  module it fills (\<open>ASTNode\<close> and its subclasses, \<open>Instruction\<close>, \<open>Function\<close>,
  \<open>FunctionScope\<close>, \<open>BytecodeModule\<close>) are declared in files that are not among the sources;
  they are modelled here from the way the compiler uses them and from the specification.
  The opcode and instruction types of the compiler are distinct from those of the register
  machine and carry the prefix \<open>rplus\<close>.
\<close>

datatype rplus_OpCode =
    LoadConst | LoadVar | StoreVar
  | Add | Sub | Mul | Div | Mod
  | Equal | NotEqual | Less | LessEqual | Greater | GreaterEqual
  | And | Or | Neg | Not_OP
  | Jump | JumpIfFalse | Call | Return
  | NewArray | IndexLoad | IndexStore

datatype rplus_Instruction =
  rplus_Instruction (instr_opcode: rplus_OpCode) (instr_operands: "u32 list")

record Function =
  function_name :: string
  parameterCount :: nat
  function_parameters :: "string list"
  bytecode :: "rplus_Instruction list"

definition UINT32_MAX :: u32 where
  "UINT32_MAX = 0xFFFFFFFF"

text \<open>
  Modelled from the spec: \<open>BytecodeModule\<close>, whose code is not among the sources. The
  specification gives it an ordered list of functions, a shared constant pool and an index
  of the functions by name; \<open>lookupFunction\<close> answers \<open>UINT32_MAX\<close> for an unknown name, the
  value the compiler tests for.
\<close>

record 'v BytecodeModule =
  module_functions :: "Function list"
  constants :: "'v list"
  function_index :: "string \<rightharpoonup> u32"

definition BytecodeModule_new :: "'v BytecodeModule" where
  "BytecodeModule_new = \<lparr>module_functions = [], constants = [], function_index = Map.empty\<rparr>"

definition addConstant :: "'v \<Rightarrow> 'v BytecodeModule \<Rightarrow> u32 \<times> 'v BytecodeModule" where
  "addConstant v m = (of_nat (length (constants m)), m\<lparr>constants := constants m @ [v]\<rparr>)"

definition registerFunction :: "Function \<Rightarrow> 'v BytecodeModule \<Rightarrow> 'v BytecodeModule" where
  "registerFunction f m =
     m\<lparr>module_functions := module_functions m @ [f],
       function_index := (function_index m)(function_name f \<mapsto> of_nat (length (module_functions m)))\<rparr>"

definition lookupFunction :: "string \<Rightarrow> 'v BytecodeModule \<Rightarrow> u32" where
  "lookupFunction name m = (case function_index m name of Some i \<Rightarrow> i | None \<Rightarrow> UINT32_MAX)"

text \<open>
  Modelled from the spec: \<open>FunctionScope\<close>, whose code is not among the sources. The
  specification gives a scope an ordered map from names to slots, initialised with the
  parameter slots; a variable is allocated by appending it. A scope's own lookup answers
  \<open>UINT32_MAX\<close> for a name it does not bind, the value the compiler tests for.
\<close>

record FunctionScope =
  scope_name :: string
  scope_variables :: "(string \<times> u32) list"

definition FunctionScope_new :: "string \<Rightarrow> string list \<Rightarrow> FunctionScope" where
  "FunctionScope_new name params =
     \<lparr>scope_name = name,
      scope_variables = zip params (map of_nat [0 ..< length params])\<rparr>"

definition scope_lookupVariable :: "FunctionScope \<Rightarrow> string \<Rightarrow> u32" where
  "scope_lookupVariable sc name =
     (case map_of (scope_variables sc) name of Some slot \<Rightarrow> slot | None \<Rightarrow> UINT32_MAX)"

definition scope_allocateVariable :: "FunctionScope \<Rightarrow> string \<Rightarrow> u32 \<times> FunctionScope" where
  "scope_allocateVariable sc name =
     (let slot = of_nat (length (scope_variables sc))
      in (slot, sc\<lparr>scope_variables := scope_variables sc @ [(name, slot)]\<rparr>))"

text \<open>
  The syntax tree, one constructor per case of the \<open>switch\<close> in \<open>visitNode\<close> (without the suffix
  \<open>Node\<close> of the class names), and \<open>OtherNode\<close> for every node type the \<open>switch\<close> does not list.
  Where the compiler casts a child to \<open>BlockNode\<close> (the body of a function or of a loop, the
  branches of an \<open>if\<close>), the tree holds the statements of that block, so that the cast is
  defined for every tree.
\<close>

datatype 'v ASTNode =
    Program "'v ASTNode list"
  | FunctionDef string "string list" "'v ASTNode list"
  | Block "'v ASTNode list"
  | BinaryOp "'v ASTNode" string "'v ASTNode"
  | UnaryOp string "'v ASTNode"
  | Literal 'v
  | Identifier string
  | Assignment string "'v ASTNode"
  | IfStatement "'v ASTNode" "'v ASTNode list" "'v ASTNode list option"
  | WhileLoop "'v ASTNode" "'v ASTNode list"
  | ForLoop "'v ASTNode" "'v ASTNode" "'v ASTNode" "'v ASTNode list"
  | FunctionCall string "'v ASTNode list"
  | ReturnStatement "'v ASTNode option"
  | ArrayLiteral "'v ASTNode list"
  | IndexAccess "'v ASTNode" "'v ASTNode"
  | OtherNode

datatype compile_error =
    UnknownASTNodeType
  | UndefinedVariable string
  | UndefinedFunction string
  | UnknownBinaryOperator string
  | UnknownUnaryOperator string
  | RegisterOverflow
  | NoActiveScope

text \<open>
  The members of \<open>Compiler\<close>. \<open>current_function\<close> points at the function under construction
  and is only saved and restored; the model keeps that function's name.
\<close>

record 'v Compiler =
  current_function :: "string option"
  current_module :: "'v BytecodeModule"
  current_bytecode :: "rplus_Instruction list"
  current_register :: u32
  next_register :: u32
  next_label :: u32
  label_positions :: "u32 \<rightharpoonup> nat"
  scope_stack :: "FunctionScope list"

text \<open>Modelled from the spec: the bound of the register counter, "a fixed constant, e.g. 256".\<close>

definition MAX_REGISTERS :: u32 where
  "MAX_REGISTERS = 256"

subsection \<open>Helpers\<close>

definition binaryOpToOpCode :: "string \<Rightarrow> compile_error + rplus_OpCode" where
  "binaryOpToOpCode op =
     (if op = ''+'' then Inr Add
      else if op = ''-'' then Inr Sub
      else if op = ''*'' then Inr Mul
      else if op = ''/'' then Inr Div
      else if op = ''%'' then Inr Mod
      else if op = ''=='' then Inr Equal
      else if op = ''!='' then Inr NotEqual
      else if op = ''<'' then Inr Less
      else if op = ''<='' then Inr LessEqual
      else if op = ''>'' then Inr Greater
      else if op = ''>='' then Inr GreaterEqual
      else if op = ''&&'' then Inr And
      else if op = ''||'' then Inr Or
      else Inl (UnknownBinaryOperator op))"

definition unaryOpToOpCode :: "string \<Rightarrow> compile_error + rplus_OpCode" where
  "unaryOpToOpCode op =
     (if op = ''-'' then Inr Neg
      else if op = ''!'' then Inr Not_OP
      else Inl (UnknownUnaryOperator op))"

definition emit :: "rplus_OpCode \<Rightarrow> u32 list \<Rightarrow> 'v Compiler \<Rightarrow> 'v Compiler" where
  "emit op operands s =
     s\<lparr>current_bytecode := current_bytecode s @ [rplus_Instruction op operands]\<rparr>"

definition allocateRegister :: "'v Compiler \<Rightarrow> compile_error + 'v Compiler" where
  "allocateRegister s =
     (if current_register s < MAX_REGISTERS
      then Inr (s\<lparr>current_register := current_register s + 1\<rparr>)
      else Inl RegisterOverflow)"

definition genLabel :: "'v Compiler \<Rightarrow> u32 \<times> 'v Compiler" where
  "genLabel s = (next_label s, s\<lparr>next_label := next_label s + 1\<rparr>)"

definition markLabel :: "u32 \<Rightarrow> 'v Compiler \<Rightarrow> 'v Compiler" where
  "markLabel label s =
     s\<lparr>label_positions := (label_positions s)(label \<mapsto> length (current_bytecode s))\<rparr>"

text \<open>The scope stack is a vector: \<open>back\<close> is its last element.\<close>

definition lookupVariable :: "string \<Rightarrow> 'v Compiler \<Rightarrow> u32" where
  "lookupVariable name s =
     (if scope_stack s \<noteq> [] then scope_lookupVariable (last (scope_stack s)) name
      else UINT32_MAX)"

definition allocateVariable :: "string \<Rightarrow> 'v Compiler \<Rightarrow> compile_error + u32 \<times> 'v Compiler" where
  "allocateVariable name s =
     (if scope_stack s \<noteq> [] then
        (let (slot, sc) = scope_allocateVariable (last (scope_stack s)) name
         in Inr (slot, s\<lparr>scope_stack := butlast (scope_stack s) @ [sc]\<rparr>))
      else Inl NoActiveScope)"

definition pushScope :: "FunctionScope \<Rightarrow> 'v Compiler \<Rightarrow> 'v Compiler" where
  "pushScope scope s = s\<lparr>scope_stack := scope_stack s @ [scope]\<rparr>"

definition popScope :: "'v Compiler \<Rightarrow> 'v Compiler" where
  "popScope s = (if scope_stack s \<noteq> [] then s\<lparr>scope_stack := butlast (scope_stack s)\<rparr> else s)"

text \<open>
  The end of \<open>visitFunctionDef\<close>, after the body is compiled: the return is added if it is
  missing, the function is registered with the bytecode buffer as its code, and the
  previous function, an empty buffer and the enclosing scope are restored.
\<close>

definition add_missing_return :: "'v Compiler \<Rightarrow> 'v Compiler" where
  "add_missing_return s =
     (if current_bytecode s = [] \<or> instr_opcode (last (current_bytecode s)) \<noteq> Return
      then emit Return [] (emit LoadConst [0] s)
      else s)"

definition finish_function ::
  "Function \<Rightarrow> string option \<Rightarrow> 'v Compiler \<Rightarrow> 'v Compiler" where
  "finish_function func prev_func s =
     (let s1 = add_missing_return s;
          s2 = s1\<lparr>current_module :=
                  registerFunction (func\<lparr>bytecode := current_bytecode s1\<rparr>) (current_module s1)\<rparr>;
          s3 = s2\<lparr>current_function := prev_func, current_bytecode := []\<rparr>
      in popScope s3)"

subsection \<open>The visitor\<close>

text \<open>
  \<open>visitNode\<close> with the \<open>visit...\<close> member it dispatches to, one equation per node type;
  \<open>visitNodes\<close> is the loop \<open>for (stmt : statements) visitNode(*stmt)\<close> of \<open>visitProgram\<close>,
  \<open>visitBlock\<close>, \<open>visitFunctionCall\<close> and \<open>visitArrayLiteral\<close>. An exception ends the visit: the
  result is \<open>Inl\<close> of the error.
\<close>

fun visitNode :: "'v ASTNode \<Rightarrow> 'v Compiler \<Rightarrow> compile_error + 'v Compiler"
  and visitNodes :: "'v ASTNode list \<Rightarrow> 'v Compiler \<Rightarrow> compile_error + 'v Compiler"
where
  "visitNodes [] s = Inr s"
| "visitNodes (stmt # stmts) s =
     (case visitNode stmt s of Inl e \<Rightarrow> Inl e | Inr s1 \<Rightarrow> visitNodes stmts s1)"
| "visitNode (Program statements) s = visitNodes statements s"
| "visitNode (FunctionDef name parameters body) s =
     (let func = \<lparr>function_name = name, parameterCount = length parameters,
                  function_parameters = parameters, bytecode = []\<rparr>;
          s1 = pushScope (FunctionScope_new name parameters) s;
          prev_func = current_function s1;
          s2 = s1\<lparr>current_function := Some name\<rparr>
      in case visitNodes body s2 of
           Inl e \<Rightarrow> Inl e
         | Inr s3 \<Rightarrow> Inr (finish_function func prev_func s3))"
| "visitNode (Block statements) s = visitNodes statements s"
| "visitNode (BinaryOp left op right) s =
     (case visitNode left s of
        Inl e \<Rightarrow> Inl e
      | Inr s1 \<Rightarrow>
          (let left_reg = current_register s1 - 1 in
           case visitNode right s1 of
             Inl e \<Rightarrow> Inl e
           | Inr s2 \<Rightarrow>
               (let right_reg = current_register s2 - 1 in
                case binaryOpToOpCode op of
                  Inl e \<Rightarrow> Inl e
                | Inr opc \<Rightarrow> Inr (emit opc [left_reg, right_reg] s2))))"
| "visitNode (UnaryOp op operand) s =
     (case visitNode operand s of
        Inl e \<Rightarrow> Inl e
      | Inr s1 \<Rightarrow>
          (let r = current_register s1 - 1 in
           case unaryOpToOpCode op of
             Inl e \<Rightarrow> Inl e
           | Inr opc \<Rightarrow> Inr (emit opc [r] s1)))"
| "visitNode (Literal v) s =
     (let (const_index, m) = addConstant v (current_module s)
      in allocateRegister (emit LoadConst [const_index] (s\<lparr>current_module := m\<rparr>)))"
| "visitNode (Identifier name) s =
     (let var_index = lookupVariable name s in
      if var_index \<noteq> UINT32_MAX then allocateRegister (emit LoadVar [var_index] s)
      else Inl (UndefinedVariable name))"
| "visitNode (Assignment name v) s =
     (case visitNode v s of
        Inl e \<Rightarrow> Inl e
      | Inr s1 \<Rightarrow>
          (let value_reg = current_register s1 - 1;
               var_index = lookupVariable name s1 in
           if var_index = UINT32_MAX then
             (case allocateVariable name s1 of
                Inl e \<Rightarrow> Inl e
              | Inr (var_index', s2) \<Rightarrow> Inr (emit StoreVar [var_index', value_reg] s2))
           else Inr (emit StoreVar [var_index, value_reg] s1)))"
| "visitNode (IfStatement condition thenBranch elseBranch) s =
     (case visitNode condition s of
        Inl e \<Rightarrow> Inl e
      | Inr s1 \<Rightarrow>
          (let cond_reg = current_register s1 - 1;
               (false_label, s2) = genLabel s1;
               s3 = emit JumpIfFalse [cond_reg, false_label] s2 in
           case visitNodes thenBranch s3 of
             Inl e \<Rightarrow> Inl e
           | Inr s4 \<Rightarrow>
               (let (end_label, s5) = genLabel s4;
                    s6 = emit Jump [end_label] s5;
                    s7 = markLabel false_label s6 in
                case elseBranch of
                  None \<Rightarrow> Inr (markLabel end_label s7)
                | Some stmts \<Rightarrow>
                    (case visitNodes stmts s7 of
                       Inl e \<Rightarrow> Inl e
                     | Inr s8 \<Rightarrow> Inr (markLabel end_label s8)))))"
| "visitNode (WhileLoop condition body) s =
     (let (loop_label, s1) = genLabel s;
          s2 = markLabel loop_label s1 in
      case visitNode condition s2 of
        Inl e \<Rightarrow> Inl e
      | Inr s3 \<Rightarrow>
          (let cond_reg = current_register s3 - 1;
               (exit_label, s4) = genLabel s3;
               s5 = emit JumpIfFalse [cond_reg, exit_label] s4 in
           case visitNodes body s5 of
             Inl e \<Rightarrow> Inl e
           | Inr s6 \<Rightarrow> Inr (markLabel exit_label (emit Jump [loop_label] s6))))"
| "visitNode (ForLoop init condition update body) s =
     (let s0 = pushScope (FunctionScope_new ''for_loop'' []) s in
      case visitNode init s0 of
        Inl e \<Rightarrow> Inl e
      | Inr s1 \<Rightarrow>
          (let (loop_label, s2) = genLabel s1;
               s3 = markLabel loop_label s2 in
           case visitNode condition s3 of
             Inl e \<Rightarrow> Inl e
           | Inr s4 \<Rightarrow>
               (let cond_reg = current_register s4 - 1;
                    (exit_label, s5) = genLabel s4;
                    s6 = emit JumpIfFalse [cond_reg, exit_label] s5 in
                case visitNodes body s6 of
                  Inl e \<Rightarrow> Inl e
                | Inr s7 \<Rightarrow>
                    (case visitNode update s7 of
                       Inl e \<Rightarrow> Inl e
                     | Inr s8 \<Rightarrow>
                         Inr (popScope (markLabel exit_label (emit Jump [loop_label] s8)))))))"
| "visitNode (FunctionCall name arguments) s =
     (case visitNodes arguments s of
        Inl e \<Rightarrow> Inl e
      | Inr s1 \<Rightarrow>
          (let func_index = lookupFunction name (current_module s1) in
           if func_index = UINT32_MAX then Inl (UndefinedFunction name)
           else allocateRegister (emit Call [func_index, of_nat (length arguments)] s1)))"
| "visitNode (ReturnStatement None) s = Inr (emit Return [] (emit LoadConst [0] s))"
| "visitNode (ReturnStatement (Some v)) s =
     (case visitNode v s of
        Inl e \<Rightarrow> Inl e
      | Inr s1 \<Rightarrow> (let ret_reg = current_register s1 - 1 in Inr (emit Return [ret_reg] s1)))"
| "visitNode (ArrayLiteral elements) s =
     (case visitNodes elements s of
        Inl e \<Rightarrow> Inl e
      | Inr s1 \<Rightarrow> allocateRegister (emit NewArray [of_nat (length elements)] s1))"
| "visitNode (IndexAccess array index) s =
     (case visitNode array s of
        Inl e \<Rightarrow> Inl e
      | Inr s1 \<Rightarrow>
          (let array_reg = current_register s1 - 1 in
           case visitNode index s1 of
             Inl e \<Rightarrow> Inl e
           | Inr s2 \<Rightarrow>
               (let index_reg = current_register s2 - 1
                in Inr (emit IndexLoad [array_reg, index_reg] s2))))"
| "visitNode OtherNode s = Inl UnknownASTNodeType"



text \<open>
  The constructor. It leaves \<open>current_register_\<close> without an initial value; the model takes
  that value as an argument.
\<close>

definition Compiler_new :: "u32 \<Rightarrow> 'v Compiler" where
  "Compiler_new r =
     \<lparr>current_function = None, current_module = BytecodeModule_new, current_bytecode = [],
      current_register = r, next_register = 0, next_label = 0,
      label_positions = Map.empty, scope_stack = []\<rparr>"

subsection \<open>Properties stated by the claims\<close>






text \<open>The state in which \<open>visitFunctionDef\<close> compiles the body of a function.\<close>

definition function_entry :: "string \<Rightarrow> string list \<Rightarrow> 'v Compiler \<Rightarrow> 'v Compiler" where
  "function_entry name parameters s =
     (pushScope (FunctionScope_new name parameters) s)\<lparr>current_function := Some name\<rparr>"





definition loop_function :: "unit ASTNode" where
  "loop_function =
     FunctionDef ''f'' [''x'']
       [ForLoop (Identifier ''x'') (Identifier ''x'') (Identifier ''x'') []]"

text \<open>
  The reading of claim C7 in its own words: scan the scope stack from its top and answer with
  the first scope that binds the name.
\<close>

definition nearest_binding :: "FunctionScope list \<Rightarrow> string \<Rightarrow> u32" where
  "nearest_binding scopes name =
     (case filter (\<lambda>sc. scope_lookupVariable sc name \<noteq> UINT32_MAX) (rev scopes) of
        [] \<Rightarrow> UINT32_MAX
      | sc # _ \<Rightarrow> scope_lookupVariable sc name)"


section \<open>The expression parser\<close>

text \<open>
  The recursive-descent parser of expressions, from \<open>parseExpression\<close> down to \<open>parsePrimary\<close>,
  with the token cursor it works on. The node classes it builds are declared in a header
  that is not among the sources; the datatype has one constructor per class the parser
  instantiates, with the constructor arguments in the order the parser passes them.

  \<open>NumberNode\<close> holds the result of \<open>std::stod\<close>, a floating-point conversion that may throw.
  The conversion is a parameter \<open>stod\<close> of the parser and the number type \<open>'n\<close> its result;
  \<open>NumberConversion\<close> stands for the exceptions of \<open>std::stod\<close>.
\<close>

datatype 'n Node =
    NumberNode 'n
  | StringNode string
  | VariableNode string
  | BooleanNode bool
  | NullNode
  | ArrayNode "'n Node list"
  | CallNode "'n Node" "'n Node list"
  | IndexNode "'n Node" "'n Node"
  | UnaryOpNode TokenType "'n Node"
  | BinaryOpNode "'n Node" TokenType "'n Node"
  | AssignmentNode string "'n Node"

datatype parse_error =
    Expected string int
  | InvalidAssignmentTarget
  | UnexpectedToken string
  | NumberConversion string

text \<open>
  The parser descends through mutually recursive functions and loops. The model runs on
  fuel, one unit per call: \<open>Timeout\<close> when the fuel is used up, \<open>Throw\<close> for an exception,
  \<open>Done\<close> for a result together with the cursor \<open>current\<close> after it.
\<close>

datatype 'a outcome = Timeout | Throw parse_error | Done 'a nat

subsection \<open>The token cursor\<close>

text \<open>The token vector \<open>ts\<close> never changes; the state of the parser is the index \<open>current\<close>.\<close>

definition Parser_peek :: "Token list \<Rightarrow> nat \<Rightarrow> Token" where
  "Parser_peek ts current =
     (if current \<ge> length ts then Token END_OF_FILE [] 0 0 else ts ! current)"

definition isAtEnd :: "Token list \<Rightarrow> nat \<Rightarrow> bool" where
  "isAtEnd ts current \<longleftrightarrow>
     current \<ge> length ts \<or> token_type (Parser_peek ts current) = END_OF_FILE"

definition check :: "Token list \<Rightarrow> TokenType \<Rightarrow> nat \<Rightarrow> bool" where
  "check ts ty current =
     (if isAtEnd ts current then False else token_type (Parser_peek ts current) = ty)"

text \<open>
  \<open>previous\<close> reads \<open>tokens[current - 1]\<close>; the parser calls it only after a successful
  \<open>match\<close> or \<open>consume\<close>, when \<open>current\<close> is positive.
\<close>

definition previous :: "Token list \<Rightarrow> nat \<Rightarrow> Token" where
  "previous ts current = ts ! (current - 1)"

definition Parser_advance :: "Token list \<Rightarrow> nat \<Rightarrow> nat" where
  "Parser_advance ts current = (if \<not> isAtEnd ts current then current + 1 else current)"

definition consume :: "Token list \<Rightarrow> TokenType \<Rightarrow> string \<Rightarrow> nat \<Rightarrow> Token outcome" where
  "consume ts ty message current =
     (if check ts ty current
      then Done (previous ts (Parser_advance ts current)) (Parser_advance ts current)
      else Throw (Expected message (token_line (Parser_peek ts current))))"

subsection \<open>Expressions\<close>

text \<open>
  Each \<open>while (match(...))\<close> loop is the function with the suffix \<open>_loop\<close>;
  \<open>parseExpressions_loop\<close> is the \<open>do { ... parseExpression() } while (match(COMMA))\<close> of call
  arguments and array elements.
\<close>

text \<open>The fuel among the arguments of a parser function: the measure of termination.\<close>

definition fuel_of :: "'a \<times> 'b \<times> nat \<times> 'c \<Rightarrow> nat" where
  "fuel_of = (\<lambda>(stod, ts, n, rest). n)"

function (sequential) parseExpression :: "(string \<Rightarrow> parse_error + 'n) \<Rightarrow> Token list \<Rightarrow> nat \<Rightarrow> nat \<Rightarrow> 'n Node outcome"
  and parseAssignment :: "(string \<Rightarrow> parse_error + 'n) \<Rightarrow> Token list \<Rightarrow> nat \<Rightarrow> nat \<Rightarrow> 'n Node outcome"
  and parseLogicalOr :: "(string \<Rightarrow> parse_error + 'n) \<Rightarrow> Token list \<Rightarrow> nat \<Rightarrow> nat \<Rightarrow> 'n Node outcome"
  and parseLogicalOr_loop ::
    "(string \<Rightarrow> parse_error + 'n) \<Rightarrow> Token list \<Rightarrow> nat \<Rightarrow> 'n Node \<Rightarrow> nat \<Rightarrow> 'n Node outcome"
  and parseLogicalAnd :: "(string \<Rightarrow> parse_error + 'n) \<Rightarrow> Token list \<Rightarrow> nat \<Rightarrow> nat \<Rightarrow> 'n Node outcome"
  and parseLogicalAnd_loop ::
    "(string \<Rightarrow> parse_error + 'n) \<Rightarrow> Token list \<Rightarrow> nat \<Rightarrow> 'n Node \<Rightarrow> nat \<Rightarrow> 'n Node outcome"
  and parseEquality :: "(string \<Rightarrow> parse_error + 'n) \<Rightarrow> Token list \<Rightarrow> nat \<Rightarrow> nat \<Rightarrow> 'n Node outcome"
  and parseEquality_loop ::
    "(string \<Rightarrow> parse_error + 'n) \<Rightarrow> Token list \<Rightarrow> nat \<Rightarrow> 'n Node \<Rightarrow> nat \<Rightarrow> 'n Node outcome"
  and parseRelational :: "(string \<Rightarrow> parse_error + 'n) \<Rightarrow> Token list \<Rightarrow> nat \<Rightarrow> nat \<Rightarrow> 'n Node outcome"
  and parseRelational_loop ::
    "(string \<Rightarrow> parse_error + 'n) \<Rightarrow> Token list \<Rightarrow> nat \<Rightarrow> 'n Node \<Rightarrow> nat \<Rightarrow> 'n Node outcome"
  and parseAdditive :: "(string \<Rightarrow> parse_error + 'n) \<Rightarrow> Token list \<Rightarrow> nat \<Rightarrow> nat \<Rightarrow> 'n Node outcome"
  and parseAdditive_loop ::
    "(string \<Rightarrow> parse_error + 'n) \<Rightarrow> Token list \<Rightarrow> nat \<Rightarrow> 'n Node \<Rightarrow> nat \<Rightarrow> 'n Node outcome"
  and parseMultiplicative :: "(string \<Rightarrow> parse_error + 'n) \<Rightarrow> Token list \<Rightarrow> nat \<Rightarrow> nat \<Rightarrow> 'n Node outcome"
  and parseMultiplicative_loop ::
    "(string \<Rightarrow> parse_error + 'n) \<Rightarrow> Token list \<Rightarrow> nat \<Rightarrow> 'n Node \<Rightarrow> nat \<Rightarrow> 'n Node outcome"
  and parseUnary :: "(string \<Rightarrow> parse_error + 'n) \<Rightarrow> Token list \<Rightarrow> nat \<Rightarrow> nat \<Rightarrow> 'n Node outcome"
  and parsePostfix :: "(string \<Rightarrow> parse_error + 'n) \<Rightarrow> Token list \<Rightarrow> nat \<Rightarrow> nat \<Rightarrow> 'n Node outcome"
  and parsePostfix_loop ::
    "(string \<Rightarrow> parse_error + 'n) \<Rightarrow> Token list \<Rightarrow> nat \<Rightarrow> 'n Node \<Rightarrow> nat \<Rightarrow> 'n Node outcome"
  and parseExpressions_loop ::
    "(string \<Rightarrow> parse_error + 'n) \<Rightarrow> Token list \<Rightarrow> nat \<Rightarrow> 'n Node list \<Rightarrow> nat
       \<Rightarrow> 'n Node list outcome"
  and parsePrimary :: "(string \<Rightarrow> parse_error + 'n) \<Rightarrow> Token list \<Rightarrow> nat \<Rightarrow> nat \<Rightarrow> 'n Node outcome"
where
  "parseExpression stod ts 0 c = Timeout"
| "parseExpression stod ts (Suc n) c = parseAssignment stod ts n c"
| "parseAssignment stod ts 0 c = Timeout"
| "parseAssignment stod ts (Suc n) c =
     (case parseLogicalOr stod ts n c of
        Timeout \<Rightarrow> Timeout
      | Throw e \<Rightarrow> Throw e
      | Done expr c1 \<Rightarrow>
          if check ts ASSIGN c1 then
            (case parseAssignment stod ts n (Parser_advance ts c1) of
               Timeout \<Rightarrow> Timeout
             | Throw e \<Rightarrow> Throw e
             | Done v c2 \<Rightarrow>
                 (case expr of
                    VariableNode name \<Rightarrow> Done (AssignmentNode name v) c2
                  | _ \<Rightarrow> Throw InvalidAssignmentTarget))
          else Done expr c1)"
| "parseLogicalOr stod ts 0 c = Timeout"
| "parseLogicalOr stod ts (Suc n) c =
     (case parseLogicalAnd stod ts n c of
        Timeout \<Rightarrow> Timeout
      | Throw e \<Rightarrow> Throw e
      | Done expr c1 \<Rightarrow> parseLogicalOr_loop stod ts n expr c1)"
| "parseLogicalOr_loop stod ts 0 expr c = Timeout"
| "parseLogicalOr_loop stod ts (Suc n) expr c =
     (if check ts OR_TOKEN c then
        (case parseLogicalAnd stod ts n (Parser_advance ts c) of
           Timeout \<Rightarrow> Timeout
         | Throw e \<Rightarrow> Throw e
         | Done right c1 \<Rightarrow>
             parseLogicalOr_loop stod ts n
               (BinaryOpNode expr (token_type (previous ts (Parser_advance ts c))) right) c1)
      else Done expr c)"
| "parseLogicalAnd stod ts 0 c = Timeout"
| "parseLogicalAnd stod ts (Suc n) c =
     (case parseEquality stod ts n c of
        Timeout \<Rightarrow> Timeout
      | Throw e \<Rightarrow> Throw e
      | Done expr c1 \<Rightarrow> parseLogicalAnd_loop stod ts n expr c1)"
| "parseLogicalAnd_loop stod ts 0 expr c = Timeout"
| "parseLogicalAnd_loop stod ts (Suc n) expr c =
     (if check ts AND_TOKEN c then
        (case parseEquality stod ts n (Parser_advance ts c) of
           Timeout \<Rightarrow> Timeout
         | Throw e \<Rightarrow> Throw e
         | Done right c1 \<Rightarrow>
             parseLogicalAnd_loop stod ts n
               (BinaryOpNode expr (token_type (previous ts (Parser_advance ts c))) right) c1)
      else Done expr c)"
| "parseEquality stod ts 0 c = Timeout"
| "parseEquality stod ts (Suc n) c =
     (case parseRelational stod ts n c of
        Timeout \<Rightarrow> Timeout
      | Throw e \<Rightarrow> Throw e
      | Done expr c1 \<Rightarrow> parseEquality_loop stod ts n expr c1)"
| "parseEquality_loop stod ts 0 expr c = Timeout"
| "parseEquality_loop stod ts (Suc n) expr c =
     (if check ts EQUAL_EQUAL c \<or> check ts NOT_EQUAL c then
        (case parseRelational stod ts n (Parser_advance ts c) of
           Timeout \<Rightarrow> Timeout
         | Throw e \<Rightarrow> Throw e
         | Done right c1 \<Rightarrow>
             parseEquality_loop stod ts n
               (BinaryOpNode expr (token_type (previous ts (Parser_advance ts c))) right) c1)
      else Done expr c)"
| "parseRelational stod ts 0 c = Timeout"
| "parseRelational stod ts (Suc n) c =
     (case parseAdditive stod ts n c of
        Timeout \<Rightarrow> Timeout
      | Throw e \<Rightarrow> Throw e
      | Done expr c1 \<Rightarrow> parseRelational_loop stod ts n expr c1)"
| "parseRelational_loop stod ts 0 expr c = Timeout"
| "parseRelational_loop stod ts (Suc n) expr c =
     (if check ts LESS c \<or> check ts LESS_EQUAL c \<or> check ts GREATER c \<or>
         check ts GREATER_EQUAL c then
        (case parseAdditive stod ts n (Parser_advance ts c) of
           Timeout \<Rightarrow> Timeout
         | Throw e \<Rightarrow> Throw e
         | Done right c1 \<Rightarrow>
             parseRelational_loop stod ts n
               (BinaryOpNode expr (token_type (previous ts (Parser_advance ts c))) right) c1)
      else Done expr c)"
| "parseAdditive stod ts 0 c = Timeout"
| "parseAdditive stod ts (Suc n) c =
     (case parseMultiplicative stod ts n c of
        Timeout \<Rightarrow> Timeout
      | Throw e \<Rightarrow> Throw e
      | Done expr c1 \<Rightarrow> parseAdditive_loop stod ts n expr c1)"
| "parseAdditive_loop stod ts 0 expr c = Timeout"
| "parseAdditive_loop stod ts (Suc n) expr c =
     (if check ts PLUS c \<or> check ts MINUS c then
        (case parseMultiplicative stod ts n (Parser_advance ts c) of
           Timeout \<Rightarrow> Timeout
         | Throw e \<Rightarrow> Throw e
         | Done right c1 \<Rightarrow>
             parseAdditive_loop stod ts n
               (BinaryOpNode expr (token_type (previous ts (Parser_advance ts c))) right) c1)
      else Done expr c)"
| "parseMultiplicative stod ts 0 c = Timeout"
| "parseMultiplicative stod ts (Suc n) c =
     (case parseUnary stod ts n c of
        Timeout \<Rightarrow> Timeout
      | Throw e \<Rightarrow> Throw e
      | Done expr c1 \<Rightarrow> parseMultiplicative_loop stod ts n expr c1)"
| "parseMultiplicative_loop stod ts 0 expr c = Timeout"
| "parseMultiplicative_loop stod ts (Suc n) expr c =
     (if check ts MULTIPLY c \<or> check ts DIVIDE c \<or> check ts MODULO c then
        (case parseUnary stod ts n (Parser_advance ts c) of
           Timeout \<Rightarrow> Timeout
         | Throw e \<Rightarrow> Throw e
         | Done right c1 \<Rightarrow>
             parseMultiplicative_loop stod ts n
               (BinaryOpNode expr (token_type (previous ts (Parser_advance ts c))) right) c1)
      else Done expr c)"
| "parseUnary stod ts 0 c = Timeout"
| "parseUnary stod ts (Suc n) c =
     (if check ts NOT_TOKEN c \<or> check ts MINUS c then
        (case parseUnary stod ts n (Parser_advance ts c) of
           Timeout \<Rightarrow> Timeout
         | Throw e \<Rightarrow> Throw e
         | Done expr c1 \<Rightarrow>
             Done (UnaryOpNode (token_type (previous ts (Parser_advance ts c))) expr) c1)
      else parsePostfix stod ts n c)"
| "parsePostfix stod ts 0 c = Timeout"
| "parsePostfix stod ts (Suc n) c =
     (case parsePrimary stod ts n c of
        Timeout \<Rightarrow> Timeout
      | Throw e \<Rightarrow> Throw e
      | Done expr c1 \<Rightarrow> parsePostfix_loop stod ts n expr c1)"
| "parsePostfix_loop stod ts 0 expr c = Timeout"
| "parsePostfix_loop stod ts (Suc n) expr c =
     (if check ts LEFT_PAREN c then
        (case (if \<not> check ts RIGHT_PAREN (Parser_advance ts c)
               then parseExpressions_loop stod ts n [] (Parser_advance ts c)
               else Done [] (Parser_advance ts c)) of
           Timeout \<Rightarrow> Timeout
         | Throw e \<Rightarrow> Throw e
         | Done args c1 \<Rightarrow>
             (case consume ts RIGHT_PAREN ''Expected ')' after arguments'' c1 of
                Timeout \<Rightarrow> Timeout
              | Throw e \<Rightarrow> Throw e
              | Done t c2 \<Rightarrow> parsePostfix_loop stod ts n (CallNode expr args) c2))
      else if check ts LEFT_BRACKET c then
        (case parseExpression stod ts n (Parser_advance ts c) of
           Timeout \<Rightarrow> Timeout
         | Throw e \<Rightarrow> Throw e
         | Done index c1 \<Rightarrow>
             (case consume ts RIGHT_BRACKET ''Expected ']' after array index'' c1 of
                Timeout \<Rightarrow> Timeout
              | Throw e \<Rightarrow> Throw e
              | Done t c2 \<Rightarrow> parsePostfix_loop stod ts n (IndexNode expr index) c2))
      else Done expr c)"
| "parseExpressions_loop stod ts 0 acc c = Timeout"
| "parseExpressions_loop stod ts (Suc n) acc c =
     (case parseExpression stod ts n c of
        Timeout \<Rightarrow> Timeout
      | Throw e \<Rightarrow> Throw e
      | Done e c1 \<Rightarrow>
          if check ts COMMA c1
          then parseExpressions_loop stod ts n (acc @ [e]) (Parser_advance ts c1)
          else Done (acc @ [e]) c1)"
| "parsePrimary stod ts 0 c = Timeout"
| "parsePrimary stod ts (Suc n) c =
     (if check ts NUMBER c then
        (case stod (token_value (previous ts (Parser_advance ts c))) of
           Inl e \<Rightarrow> Throw e
         | Inr x \<Rightarrow> Done (NumberNode x) (Parser_advance ts c))
      else if check ts STRING c then
        Done (StringNode (token_value (previous ts (Parser_advance ts c)))) (Parser_advance ts c)
      else if check ts IDENTIFIER c then
        Done (VariableNode (token_value (previous ts (Parser_advance ts c)))) (Parser_advance ts c)
      else if check ts TRUE c then Done (BooleanNode True) (Parser_advance ts c)
      else if check ts FALSE c then Done (BooleanNode False) (Parser_advance ts c)
      else if check ts NULL_TOKEN c then Done NullNode (Parser_advance ts c)
      else if check ts LEFT_PAREN c then
        (case parseExpression stod ts n (Parser_advance ts c) of
           Timeout \<Rightarrow> Timeout
         | Throw e \<Rightarrow> Throw e
         | Done expr c1 \<Rightarrow>
             (case consume ts RIGHT_PAREN ''Expected ')' after expression'' c1 of
                Timeout \<Rightarrow> Timeout
              | Throw e \<Rightarrow> Throw e
              | Done t c2 \<Rightarrow> Done expr c2))
      else if check ts LEFT_BRACKET c then
        (case (if \<not> check ts RIGHT_BRACKET (Parser_advance ts c)
               then parseExpressions_loop stod ts n [] (Parser_advance ts c)
               else Done [] (Parser_advance ts c)) of
           Timeout \<Rightarrow> Timeout
         | Throw e \<Rightarrow> Throw e
         | Done elements c1 \<Rightarrow>
             (case consume ts RIGHT_BRACKET ''Expected ']' after array elements'' c1 of
                Timeout \<Rightarrow> Timeout
              | Throw e \<Rightarrow> Throw e
              | Done t c2 \<Rightarrow> Done (ArrayNode elements) c2))
      else Throw (UnexpectedToken (token_value (Parser_peek ts c))))"

  by pat_completeness auto

termination
  by (relation "measure
     (case_sum (case_sum (case_sum (case_sum fuel_of fuel_of) (case_sum fuel_of fuel_of)) (case_sum (case_sum fuel_of fuel_of) (case_sum fuel_of (case_sum fuel_of fuel_of)))) (case_sum (case_sum (case_sum fuel_of fuel_of) (case_sum fuel_of (case_sum fuel_of fuel_of))) (case_sum (case_sum fuel_of fuel_of) (case_sum fuel_of (case_sum fuel_of fuel_of)))))")
     (simp_all add: fuel_of_def)


text \<open>
  A conversion used to instantiate the theorems: it keeps the lexeme of the number.
\<close>

definition keep_lexeme :: "string \<Rightarrow> parse_error + string" where
  "keep_lexeme v = Inr v"

text \<open>The tokens of \<open>a = b = 1\<close> and of \<open>1 = 2\<close>, in the parser's vocabulary.\<close>

definition chained_assignment :: "Token list" where
  "chained_assignment =
     [Token IDENTIFIER ''a'' 1 1, Token ASSIGN ''='' 1 3, Token IDENTIFIER ''b'' 1 5,
      Token ASSIGN ''='' 1 7, Token NUMBER ''1'' 1 9, Token END_OF_FILE [] 1 10]"

definition number_assignment :: "Token list" where
  "number_assignment =
     [Token NUMBER ''1'' 1 1, Token ASSIGN ''='' 1 3, Token NUMBER ''2'' 1 5,
      Token END_OF_FILE [] 1 6]"

text \<open>
  A result reached with some fuel is the result with one more unit of fuel, for each of
  the parser functions.
\<close>

definition fuel_stable :: "(string \<Rightarrow> parse_error + 'n) \<Rightarrow> Token list \<Rightarrow> nat \<Rightarrow> bool" where
  "fuel_stable stod ts n \<longleftrightarrow>
     (\<forall>c. parseExpression stod ts n c \<noteq> Timeout \<longrightarrow>
        parseExpression stod ts (Suc n) c = parseExpression stod ts n c) \<and>
     (\<forall>c. parseAssignment stod ts n c \<noteq> Timeout \<longrightarrow>
        parseAssignment stod ts (Suc n) c = parseAssignment stod ts n c) \<and>
     (\<forall>c. parseLogicalOr stod ts n c \<noteq> Timeout \<longrightarrow>
        parseLogicalOr stod ts (Suc n) c = parseLogicalOr stod ts n c) \<and>
     (\<forall>x c. parseLogicalOr_loop stod ts n x c \<noteq> Timeout \<longrightarrow>
        parseLogicalOr_loop stod ts (Suc n) x c = parseLogicalOr_loop stod ts n x c) \<and>
     (\<forall>c. parseLogicalAnd stod ts n c \<noteq> Timeout \<longrightarrow>
        parseLogicalAnd stod ts (Suc n) c = parseLogicalAnd stod ts n c) \<and>
     (\<forall>x c. parseLogicalAnd_loop stod ts n x c \<noteq> Timeout \<longrightarrow>
        parseLogicalAnd_loop stod ts (Suc n) x c = parseLogicalAnd_loop stod ts n x c) \<and>
     (\<forall>c. parseEquality stod ts n c \<noteq> Timeout \<longrightarrow>
        parseEquality stod ts (Suc n) c = parseEquality stod ts n c) \<and>
     (\<forall>x c. parseEquality_loop stod ts n x c \<noteq> Timeout \<longrightarrow>
        parseEquality_loop stod ts (Suc n) x c = parseEquality_loop stod ts n x c) \<and>
     (\<forall>c. parseRelational stod ts n c \<noteq> Timeout \<longrightarrow>
        parseRelational stod ts (Suc n) c = parseRelational stod ts n c) \<and>
     (\<forall>x c. parseRelational_loop stod ts n x c \<noteq> Timeout \<longrightarrow>
        parseRelational_loop stod ts (Suc n) x c = parseRelational_loop stod ts n x c) \<and>
     (\<forall>c. parseAdditive stod ts n c \<noteq> Timeout \<longrightarrow>
        parseAdditive stod ts (Suc n) c = parseAdditive stod ts n c) \<and>
     (\<forall>x c. parseAdditive_loop stod ts n x c \<noteq> Timeout \<longrightarrow>
        parseAdditive_loop stod ts (Suc n) x c = parseAdditive_loop stod ts n x c) \<and>
     (\<forall>c. parseMultiplicative stod ts n c \<noteq> Timeout \<longrightarrow>
        parseMultiplicative stod ts (Suc n) c = parseMultiplicative stod ts n c) \<and>
     (\<forall>x c. parseMultiplicative_loop stod ts n x c \<noteq> Timeout \<longrightarrow>
        parseMultiplicative_loop stod ts (Suc n) x c = parseMultiplicative_loop stod ts n x c) \<and>
     (\<forall>c. parseUnary stod ts n c \<noteq> Timeout \<longrightarrow>
        parseUnary stod ts (Suc n) c = parseUnary stod ts n c) \<and>
     (\<forall>c. parsePostfix stod ts n c \<noteq> Timeout \<longrightarrow>
        parsePostfix stod ts (Suc n) c = parsePostfix stod ts n c) \<and>
     (\<forall>x c. parsePostfix_loop stod ts n x c \<noteq> Timeout \<longrightarrow>
        parsePostfix_loop stod ts (Suc n) x c = parsePostfix_loop stod ts n x c) \<and>
     (\<forall>x c. parseExpressions_loop stod ts n x c \<noteq> Timeout \<longrightarrow>
        parseExpressions_loop stod ts (Suc n) x c = parseExpressions_loop stod ts n x c) \<and>
     (\<forall>c. parsePrimary stod ts n c \<noteq> Timeout \<longrightarrow>
        parsePrimary stod ts (Suc n) c = parsePrimary stod ts n c)"

text \<open>
  The result of a parser function, whatever the fuel: \<open>returns p r\<close> when the function \<open>p\<close> of
  the fuel gives \<open>r\<close>, an exception or a value, with some amount of fuel (and then with every
  larger amount).
\<close>

definition returns :: "(nat \<Rightarrow> 'a outcome) \<Rightarrow> 'a outcome \<Rightarrow> bool" where
  "returns p r \<longleftrightarrow> r \<noteq> Timeout \<and> (\<exists>n. p n = r)"

text \<open>No parser function moves the cursor backwards.\<close>

definition cursor_monotone :: "(string \<Rightarrow> parse_error + 'n) \<Rightarrow> Token list \<Rightarrow> nat \<Rightarrow> bool" where
  "cursor_monotone stod ts n \<longleftrightarrow>
     (\<forall>c v c'. parseExpression stod ts n c = Done v c' \<longrightarrow> c \<le> c') \<and>
     (\<forall>c v c'. parseAssignment stod ts n c = Done v c' \<longrightarrow> c \<le> c') \<and>
     (\<forall>c v c'. parseLogicalOr stod ts n c = Done v c' \<longrightarrow> c \<le> c') \<and>
     (\<forall>x c v c'. parseLogicalOr_loop stod ts n x c = Done v c' \<longrightarrow> c \<le> c') \<and>
     (\<forall>c v c'. parseLogicalAnd stod ts n c = Done v c' \<longrightarrow> c \<le> c') \<and>
     (\<forall>x c v c'. parseLogicalAnd_loop stod ts n x c = Done v c' \<longrightarrow> c \<le> c') \<and>
     (\<forall>c v c'. parseEquality stod ts n c = Done v c' \<longrightarrow> c \<le> c') \<and>
     (\<forall>x c v c'. parseEquality_loop stod ts n x c = Done v c' \<longrightarrow> c \<le> c') \<and>
     (\<forall>c v c'. parseRelational stod ts n c = Done v c' \<longrightarrow> c \<le> c') \<and>
     (\<forall>x c v c'. parseRelational_loop stod ts n x c = Done v c' \<longrightarrow> c \<le> c') \<and>
     (\<forall>c v c'. parseAdditive stod ts n c = Done v c' \<longrightarrow> c \<le> c') \<and>
     (\<forall>x c v c'. parseAdditive_loop stod ts n x c = Done v c' \<longrightarrow> c \<le> c') \<and>
     (\<forall>c v c'. parseMultiplicative stod ts n c = Done v c' \<longrightarrow> c \<le> c') \<and>
     (\<forall>x c v c'. parseMultiplicative_loop stod ts n x c = Done v c' \<longrightarrow> c \<le> c') \<and>
     (\<forall>c v c'. parseUnary stod ts n c = Done v c' \<longrightarrow> c \<le> c') \<and>
     (\<forall>c v c'. parsePostfix stod ts n c = Done v c' \<longrightarrow> c \<le> c') \<and>
     (\<forall>x c v c'. parsePostfix_loop stod ts n x c = Done v c' \<longrightarrow> c \<le> c') \<and>
     (\<forall>x c v c'. parseExpressions_loop stod ts n x c = Done v c' \<longrightarrow> c \<le> c') \<and>
     (\<forall>c v c'. parsePrimary stod ts n c = Done v c' \<longrightarrow> c \<le> c')"

text \<open>
  Fuel that suffices: twenty units for each token from the cursor to the end of the token
  vector, and the depth of the function in the chain of calls that consume no token.
\<close>

definition enough_fuel :: "(string \<Rightarrow> parse_error + 'n) \<Rightarrow> Token list \<Rightarrow> nat \<Rightarrow> bool" where
  "enough_fuel stod ts n \<longleftrightarrow>
     (\<forall>c. 20 * (length ts - c) + 18 \<le> n \<longrightarrow> parseExpression stod ts n c \<noteq> Timeout) \<and>
     (\<forall>c. 20 * (length ts - c) + 17 \<le> n \<longrightarrow> parseAssignment stod ts n c \<noteq> Timeout) \<and>
     (\<forall>c. 20 * (length ts - c) + 16 \<le> n \<longrightarrow> parseLogicalOr stod ts n c \<noteq> Timeout) \<and>
     (\<forall>x c. 20 * (length ts - c) + 15 \<le> n \<longrightarrow> parseLogicalOr_loop stod ts n x c \<noteq> Timeout) \<and>
     (\<forall>c. 20 * (length ts - c) + 14 \<le> n \<longrightarrow> parseLogicalAnd stod ts n c \<noteq> Timeout) \<and>
     (\<forall>x c. 20 * (length ts - c) + 13 \<le> n \<longrightarrow> parseLogicalAnd_loop stod ts n x c \<noteq> Timeout) \<and>
     (\<forall>c. 20 * (length ts - c) + 12 \<le> n \<longrightarrow> parseEquality stod ts n c \<noteq> Timeout) \<and>
     (\<forall>x c. 20 * (length ts - c) + 11 \<le> n \<longrightarrow> parseEquality_loop stod ts n x c \<noteq> Timeout) \<and>
     (\<forall>c. 20 * (length ts - c) + 10 \<le> n \<longrightarrow> parseRelational stod ts n c \<noteq> Timeout) \<and>
     (\<forall>x c. 20 * (length ts - c) + 9 \<le> n \<longrightarrow> parseRelational_loop stod ts n x c \<noteq> Timeout) \<and>
     (\<forall>c. 20 * (length ts - c) + 8 \<le> n \<longrightarrow> parseAdditive stod ts n c \<noteq> Timeout) \<and>
     (\<forall>x c. 20 * (length ts - c) + 7 \<le> n \<longrightarrow> parseAdditive_loop stod ts n x c \<noteq> Timeout) \<and>
     (\<forall>c. 20 * (length ts - c) + 6 \<le> n \<longrightarrow> parseMultiplicative stod ts n c \<noteq> Timeout) \<and>
     (\<forall>x c. 20 * (length ts - c) + 5 \<le> n \<longrightarrow> parseMultiplicative_loop stod ts n x c \<noteq> Timeout) \<and>
     (\<forall>c. 20 * (length ts - c) + 4 \<le> n \<longrightarrow> parseUnary stod ts n c \<noteq> Timeout) \<and>
     (\<forall>c. 20 * (length ts - c) + 3 \<le> n \<longrightarrow> parsePostfix stod ts n c \<noteq> Timeout) \<and>
     (\<forall>x c. 20 * (length ts - c) + 2 \<le> n \<longrightarrow> parsePostfix_loop stod ts n x c \<noteq> Timeout) \<and>
     (\<forall>x c. 20 * (length ts - c) + 19 \<le> n \<longrightarrow> parseExpressions_loop stod ts n x c \<noteq> Timeout) \<and>
     (\<forall>c. 20 * (length ts - c) + 1 \<le> n \<longrightarrow> parsePrimary stod ts n c \<noteq> Timeout)"

section \<open>Theorems about the register machine\<close>

lemma dispatch_jump:
  "is_jump (opcode instr) \<Longrightarrow> branch_taken instr s \<Longrightarrow>
     fst (dispatch instr s) = Inr () \<and>
     pc (snd (dispatch instr s)) = immediate instr - 1 \<and>
     halt_flag (snd (dispatch instr s)) = halt_flag s \<and>
     program (snd (dispatch instr s)) = program s"
  by (auto simp: is_jump_def branch_taken_def dispatch_def execute_jmp_def execute_jz_def
        execute_jnz_def execute_jlt_def execute_jle_def execute_jgt_def execute_jge_def
        execute_call_def Let_def)

lemma execute_instruction_pc:
  "fst (dispatch instr s) = Inr u \<Longrightarrow>
     execute_instruction instr s
       = (Inr (), (snd (dispatch instr s))\<lparr>pc := pc (snd (dispatch instr s)) + 1\<rparr>)"
  by (cases "dispatch instr s") (auto simp: execute_instruction_def)

text \<open>
  Claim C2. When an instruction completes, \<open>execute_instruction\<close> leaves the program counter
  exactly one above the value its handler left. A jump handler (JMP, JZ, JNZ, JLT, JLE, JGT,
  JGE, CALL) that takes its branch sets the program counter to the immediate minus 1 (in
  unsigned 64-bit arithmetic). Hence after a taken jump with immediate \<open>T\<close> the program counter
  is \<open>T\<close>, and the instruction the run loop fetches next is the one at index \<open>T\<close> of the
  program; the loop ends if the program has no index \<open>T\<close>.
\<close>

theorem jump_reaches_target:
  "(fst (dispatch instr s) = Inr () \<longrightarrow>
      fst (execute_instruction instr s) = Inr () \<and>
      pc (snd (execute_instruction instr s)) = pc (snd (dispatch instr s)) + 1) \<and>
   (is_jump (opcode instr) \<and> branch_taken instr s \<longrightarrow>
      pc (snd (dispatch instr s)) = immediate instr - 1 \<and>
      fst (execute_instruction instr s) = Inr () \<and>
      pc (snd (execute_instruction instr s)) = immediate instr \<and>
      (\<not> halt_flag s \<longrightarrow>
         fetch (snd (execute_instruction instr s))
           = (if unat (immediate instr) < length (program s)
              then Some (program s ! unat (immediate instr)) else None)))"
proof (intro conjI impI)
  assume "fst (dispatch instr s) = Inr ()"
  from execute_instruction_pc [OF this]
  show "fst (execute_instruction instr s) = Inr ()"
    and "pc (snd (execute_instruction instr s)) = pc (snd (dispatch instr s)) + 1"
    by simp_all
next
  assume j: "is_jump (opcode instr) \<and> branch_taken instr s"
  then have d: "fst (dispatch instr s) = Inr ()"
    "pc (snd (dispatch instr s)) = immediate instr - 1"
    "halt_flag (snd (dispatch instr s)) = halt_flag s"
    "program (snd (dispatch instr s)) = program s"
    using dispatch_jump [of instr s] by simp_all
  note e = execute_instruction_pc [OF d(1)]
  show "pc (snd (dispatch instr s)) = immediate instr - 1" by (rule d(2))
  show "fst (execute_instruction instr s) = Inr ()" using e by simp
  show "pc (snd (execute_instruction instr s)) = immediate instr" using e d(2) by simp
  show "fetch (snd (execute_instruction instr s))
           = (if unat (immediate instr) < length (program s)
              then Some (program s ! unat (immediate instr)) else None)"
    if "\<not> halt_flag s"
    using that e d by (simp add: fetch_def)
qed

theorem jump_reaches_target_witness:
  "is_jump (opcode (instr0\<lparr>opcode := JZ, immediate := 5\<rparr>)) \<and>
   branch_taken (instr0\<lparr>opcode := JZ, immediate := 5\<rparr>) vm0 \<and>
   \<not> halt_flag vm0 \<and>
   fst (dispatch (instr0\<lparr>opcode := JZ, immediate := 5\<rparr>) vm0) = Inr () \<and>
   pc (snd (execute_instruction (instr0\<lparr>opcode := JZ, immediate := 5\<rparr>) vm0)) = 5 \<and>
   fetch (snd (execute_instruction (instr0\<lparr>opcode := JZ, immediate := 5\<rparr>) vm0)) = Some instr0 \<and>
   pc (snd (execute_instruction (instr0\<lparr>opcode := JMP, immediate := 0\<rparr>) vm0)) = 0"
proof -
  let ?i = "instr0\<lparr>opcode := JZ, immediate := 5\<rparr>"
  have h: "is_jump (opcode ?i)" "branch_taken ?i vm0" "\<not> halt_flag vm0"
    "fst (dispatch ?i vm0) = Inr ()"
    by (simp_all add: is_jump_def branch_taken_def instr0_def vm0_def VM_new_def reg_def
          NUM_REGISTERS_def dispatch_def execute_jz_def)
  have p: "unat (immediate ?i) < length (program vm0)"
    "program vm0 ! unat (immediate ?i) = instr0"
    by (simp_all add: instr0_def vm0_def VM_new_def)
  have k: "is_jump (opcode (instr0\<lparr>opcode := JMP, immediate := 0\<rparr>))"
    "branch_taken (instr0\<lparr>opcode := JMP, immediate := 0\<rparr>) vm0"
    by (simp_all add: is_jump_def branch_taken_def instr0_def)
  show ?thesis
    using jump_reaches_target [of ?i vm0]
      jump_reaches_target [of "instr0\<lparr>opcode := JMP, immediate := 0\<rparr>" vm0] h p k
    by simp
qed

text \<open>
  Claim C3. CALL appends the current program counter to the call stack and continues at its
  immediate target. A RET executed with that entry on top of the call stack removes it and,
  after the increment that follows every dispatch, leaves the program counter one above the
  program counter of the CALL, so the next instruction fetched is the one after the CALL.
  RET fails exactly when the call stack is empty; the error is then "Return from empty call
  stack", the machine is left as it was, and RET has no other error.
\<close>

theorem call_ret_roundtrip:
  "(opcode c = CALL \<longrightarrow>
      execute_instruction c s
        = (Inr (), s\<lparr>call_stack := call_stack s @ [pc s], pc := immediate c\<rparr>)) \<and>
   (opcode r = RET \<longrightarrow>
      (call_stack t = cs @ [p] \<longrightarrow>
         execute_instruction r t = (Inr (), t\<lparr>pc := p + 1, call_stack := cs\<rparr>)) \<and>
      (call_stack t = call_stack (snd (execute_instruction c s)) \<and> opcode c = CALL \<longrightarrow>
         fst (execute_instruction r t) = Inr () \<and>
         pc (snd (execute_instruction r t)) = pc s + 1 \<and>
         call_stack (snd (execute_instruction r t)) = call_stack s) \<and>
      (fst (execute_instruction r t) = Inl ReturnFromEmptyCallStack \<longleftrightarrow> call_stack t = []) \<and>
      (call_stack t = [] \<longrightarrow> snd (execute_instruction r t) = t) \<and>
      (\<forall>e. fst (execute_instruction r t) = Inl e \<longrightarrow>
           e = ReturnFromEmptyCallStack \<and> call_stack t = []))"
  by (auto simp: execute_instruction_def dispatch_def execute_call_def execute_ret_def)

theorem call_ret_roundtrip_witness:
  "opcode (instr0\<lparr>opcode := CALL, immediate := 6\<rparr>) = CALL \<and>
   opcode (instr0\<lparr>opcode := RET\<rparr>) = RET \<and>
   execute_instruction (instr0\<lparr>opcode := CALL, immediate := 6\<rparr>) vm0
     = (Inr (), vm0\<lparr>call_stack := [3], pc := 6\<rparr>) \<and>
   execute_instruction (instr0\<lparr>opcode := RET\<rparr>) (vm0\<lparr>call_stack := [3], pc := 7\<rparr>)
     = (Inr (), vm0\<lparr>pc := 4, call_stack := []\<rparr>) \<and>
   call_stack vm0 = [] \<and>
   execute_instruction (instr0\<lparr>opcode := RET\<rparr>) vm0 = (Inl ReturnFromEmptyCallStack, vm0)"
proof -
  let ?c = "instr0\<lparr>opcode := CALL, immediate := 6\<rparr>"
  let ?r = "instr0\<lparr>opcode := RET\<rparr>"
  have h: "opcode ?c = CALL" "opcode ?r = RET" "call_stack vm0 = []" "pc vm0 = 3"
    "call_stack (vm0\<lparr>call_stack := [3], pc := 7\<rparr>) = [] @ [3]"
    by (simp_all add: instr0_def vm0_def VM_new_def)
  have a: "vm0\<lparr>call_stack := [3], pc := 7, pc := 3 + 1, call_stack := []\<rparr>
             = vm0\<lparr>pc := 4, call_stack := []\<rparr>"
    by (simp add: vm0_def VM_new_def)
  have e: "execute_instruction ?r vm0 = (fst (execute_instruction ?r vm0), snd (execute_instruction ?r vm0))"
    by simp
  show ?thesis
    using call_ret_roundtrip [of ?c vm0 ?r vm0 "[]" 3]
      call_ret_roundtrip [of ?c vm0 ?r "vm0\<lparr>call_stack := [3], pc := 7\<rparr>" "[]" 3] h a
    by (simp add: prod_eq_iff)
qed

text \<open>
  Claim C4. Executing DIV fails with "Division by zero" exactly when the second operand
  register holds 0, and executing MOD fails with "Modulo by zero" exactly when it holds 0. In
  both error cases the machine is left as it was: no register is written and the program
  counter is not advanced. Otherwise the instruction completes, the destination register
  holds the unsigned 64-bit quotient, respectively remainder, and every other register is
  unchanged.
\<close>

theorem div_mod_by_zero:
  assumes "valid_registers instr s"
  shows "(opcode instr = DIV \<longrightarrow>
           (fst (execute_instruction instr s) = Inl DivisionByZero
              \<longleftrightarrow> reg s (operand2 instr) = 0) \<and>
           (reg s (operand2 instr) = 0 \<longrightarrow> snd (execute_instruction instr s) = s) \<and>
           (reg s (operand2 instr) \<noteq> 0 \<longrightarrow>
              fst (execute_instruction instr s) = Inr () \<and>
              reg (snd (execute_instruction instr s)) (dest instr)
                = reg s (operand1 instr) div reg s (operand2 instr) \<and>
              unat (reg (snd (execute_instruction instr s)) (dest instr))
                = unat (reg s (operand1 instr)) div unat (reg s (operand2 instr)) \<and>
              (\<forall>r. r \<noteq> dest instr \<longrightarrow> reg (snd (execute_instruction instr s)) r = reg s r))) \<and>
         (opcode instr = MOD \<longrightarrow>
           (fst (execute_instruction instr s) = Inl ModuloByZero
              \<longleftrightarrow> reg s (operand2 instr) = 0) \<and>
           (reg s (operand2 instr) = 0 \<longrightarrow> snd (execute_instruction instr s) = s) \<and>
           (reg s (operand2 instr) \<noteq> 0 \<longrightarrow>
              fst (execute_instruction instr s) = Inr () \<and>
              reg (snd (execute_instruction instr s)) (dest instr)
                = reg s (operand1 instr) mod reg s (operand2 instr) \<and>
              unat (reg (snd (execute_instruction instr s)) (dest instr))
                = unat (reg s (operand1 instr)) mod unat (reg s (operand2 instr)) \<and>
              (\<forall>r. r \<noteq> dest instr \<longrightarrow> reg (snd (execute_instruction instr s)) r = reg s r)))"
  using assms
  by (auto simp: execute_instruction_def dispatch_def execute_div_def execute_mod_def
        reg_def set_reg_def valid_registers_def Let_def unat_div unat_mod
        nth_list_update word_unat_eq_iff)

theorem div_mod_by_zero_witness:
  "valid_registers (instr0\<lparr>opcode := DIV\<rparr>) (set_reg 1 17 (set_reg 2 5 vm0)) \<and>
   reg (set_reg 1 17 (set_reg 2 5 vm0)) 2 \<noteq> 0 \<and>
   fst (execute_instruction (instr0\<lparr>opcode := DIV\<rparr>) (set_reg 1 17 (set_reg 2 5 vm0))) = Inr () \<and>
   reg (snd (execute_instruction (instr0\<lparr>opcode := DIV\<rparr>) (set_reg 1 17 (set_reg 2 5 vm0)))) 0 = 3 \<and>
   reg (snd (execute_instruction (instr0\<lparr>opcode := MOD\<rparr>) (set_reg 1 17 (set_reg 2 5 vm0)))) 0 = 2 \<and>
   reg (set_reg 1 17 vm0) 2 = 0 \<and>
   execute_instruction (instr0\<lparr>opcode := DIV\<rparr>) (set_reg 1 17 vm0)
     = (Inl DivisionByZero, set_reg 1 17 vm0) \<and>
   execute_instruction (instr0\<lparr>opcode := MOD\<rparr>) (set_reg 1 17 vm0)
     = (Inl ModuloByZero, set_reg 1 17 vm0)"
proof -
  let ?s = "set_reg 1 17 (set_reg 2 5 vm0)"
  let ?z = "set_reg 1 17 vm0"
  have v: "valid_registers (instr0\<lparr>opcode := DIV\<rparr>) ?s" "valid_registers (instr0\<lparr>opcode := MOD\<rparr>) ?s"
    "valid_registers (instr0\<lparr>opcode := DIV\<rparr>) ?z" "valid_registers (instr0\<lparr>opcode := MOD\<rparr>) ?z"
    by (simp_all add: valid_registers_def instr0_def vm0_def VM_new_def set_reg_def
          NUM_REGISTERS_def)
  have r: "reg ?s 2 = 5" "reg ?s 1 = 17" "reg ?z 2 = 0"
    by (simp_all add: reg_def vm0_def VM_new_def set_reg_def NUM_REGISTERS_def)
  have o: "operand1 instr0 = 1" "operand2 instr0 = 2" "dest instr0 = 0" "opcode instr0 = NOP"
    by (simp_all add: instr0_def)
  show ?thesis
    using div_mod_by_zero [OF v(1)] div_mod_by_zero [OF v(2)]
      div_mod_by_zero [OF v(3)] div_mod_by_zero [OF v(4)] v(1) r o
    by (simp add: prod_eq_iff)
qed

text \<open>
  Claim C5. \<open>push\<close> fails with "Stack overflow" exactly when \<open>sp + size > stack_size\<close>, and
  \<open>pop\<close> fails with "Stack underflow" exactly when \<open>sp < size\<close>; the sum is the machine's
  unsigned 64-bit sum. A successful \<open>push\<close> advances the stack pointer by \<open>size\<close>, a
  successful \<open>pop\<close> decreases it by \<open>size\<close>, and a failed operation leaves the stack pointer
  (and the whole machine) unchanged. Where \<open>sp + size\<close> does not exceed 64 bits the test of
  \<open>push\<close> is the comparison of the mathematical sum with the stack size.
\<close>

theorem push_pop_bounds:
  "(fst (push v sz s) = Inl StackOverflow \<longleftrightarrow> sp s + sz > stack_size s) \<and>
   (fst (push v sz s) = Inr () \<longleftrightarrow> \<not> sp s + sz > stack_size s) \<and>
   (\<not> sp s + sz > stack_size s \<longrightarrow> sp (snd (push v sz s)) = sp s + sz) \<and>
   (sp s + sz > stack_size s \<longrightarrow> snd (push v sz s) = s) \<and>
   (unat (sp s) + unat sz < 2 ^ 64 \<longrightarrow>
      (fst (push v sz s) = Inl StackOverflow
         \<longleftrightarrow> unat (sp s) + unat sz > unat (stack_size s))) \<and>
   (fst (pop sz s) = Inl StackUnderflow \<longleftrightarrow> sp s < sz) \<and>
   ((\<exists>x. fst (pop sz s) = Inr x) \<longleftrightarrow> \<not> sp s < sz) \<and>
   (\<not> sp s < sz \<longrightarrow> sp (snd (pop sz s)) = sp s - sz \<and>
      unat (sp (snd (pop sz s))) = unat (sp s) - unat sz) \<and>
   (sp s < sz \<longrightarrow> snd (pop sz s) = s)"
proof -
  have "unat (sp s + sz) = unat (sp s) + unat sz" if "unat (sp s) + unat sz < 2 ^ 64"
    using that by (simp add: unat_word_ariths)
  then show ?thesis
    by (auto simp: push_def pop_def Let_def word_less_nat_alt word_le_nat_alt unat_sub)
qed

theorem push_pop_bounds_witness:
  "\<not> sp vm0 + 8 > stack_size vm0 \<and>
   fst (push 7 8 vm0) = Inr () \<and> sp (snd (push 7 8 vm0)) = 8 \<and>
   sp vm0 + 40 > stack_size vm0 \<and> push 7 40 vm0 = (Inl StackOverflow, vm0) \<and>
   sp vm0 < 8 \<and> pop 8 vm0 = (Inl StackUnderflow, vm0) \<and>
   \<not> sp (snd (push 7 8 vm0)) < 8 \<and> sp (snd (pop 8 (snd (push 7 8 vm0)))) = 0"
proof -
  have h: "sp vm0 = 0" "stack_size vm0 = 32"
    by (simp_all add: vm0_def VM_new_def)
  have u: "unat (sp vm0) + unat (40 :: u64) < 2 ^ 64"
    by (simp add: h)
  show ?thesis
    using push_pop_bounds [of 7 8 vm0] push_pop_bounds [of 7 40 vm0]
      push_pop_bounds [of 7 8 "snd (push 7 8 vm0)"] h u
    by (simp add: prod_eq_iff)
qed

section \<open>Theorems about the lexer\<close>

lemma tokenize_shape:
  "tokenize s \<noteq> [] \<and> token_type (last (tokenize s)) = END_OF_FILE \<and>
   (\<forall>t \<in> set (butlast (tokenize s)). token_type t \<noteq> END_OF_FILE)"
proof (induction s rule: tokenize.induct)
  case (1 s)
  obtain token s' where n: "nextToken s = (token, s')"
    by (cases "nextToken s")
  show ?case
  proof (cases "token_type token = END_OF_FILE")
    case True
    then show ?thesis using n by (subst (1 2 3) tokenize.simps) simp
  next
    case False
    then have t: "tokenize s = token # tokenize s'"
      using n by (subst tokenize.simps) simp
    from 1 [OF n [symmetric] False] False show ?thesis
      unfolding t by auto
  qed
qed

lemma scanToken_error:
  "\<not> starts_token (source s ! position s) \<Longrightarrow>
     scanToken s = (Token ERROR [source s ! position s] (line s) (column s), advance s)"
  by (simp add: scanToken_def starts_token_def Let_def)

lemma skip_block_comment_unclosed:
  "\<not> comment_closed (source s) (position s) \<Longrightarrow>
     position s \<le> length (source s) \<Longrightarrow>
     position (skip_block_comment s) = length (source s) \<and>
     source (skip_block_comment s) = source s"
proof (induction s rule: skip_block_comment.induct)
  case (1 s)
  show ?case
  proof (cases "position s < length (source s)")
    case False
    then show ?thesis using 1(3) by (subst (1 2) skip_block_comment.simps) simp
  next
    case True
    have nc: "\<not> (source s ! position s = CHR ''*'' \<and> peek 1 s = CHR ''/'')"
    proof
      assume c: "source s ! position s = CHR ''*'' \<and> peek 1 s = CHR ''/''"
      then have "position s + 1 < length (source s)" "source s ! Suc (position s) = CHR ''/''"
        by (auto simp: peek_def Let_def split: if_splits)
      then have "comment_closed (source s) (position s)"
        using c by (auto simp: comment_closed_def list_ex_iff intro!: bexI [of _ "position s"])
      then show False using 1(2) by simp
    qed
    have "\<not> comment_closed (source (advance s)) (position (advance s))"
      using 1(2) True by (auto simp: comment_closed_def list_ex_iff position_advance)
    moreover have "position (advance s) \<le> length (source (advance s))"
      using True by (simp add: position_advance)
    ultimately have "position (skip_block_comment (advance s)) = length (source s) \<and>
        source (skip_block_comment (advance s)) = source s"
      using 1(1) [OF True nc] by simp
    then show ?thesis
      using True nc by (subst (1 2) skip_block_comment.simps) auto
  qed
qed

text \<open>
  Claim C9. Lexing is total: \<open>tokenize\<close> is a terminating function of every lexer state, hence
  of every input text. Its result is never empty, its last token is END_OF_FILE and no
  earlier token is. When, after whitespace and comments, the lexer stands on a byte that
  starts no token rule, \<open>nextToken\<close> returns an ERROR token whose lexeme is that one byte, at
  the byte's line and column, the lexer moves on by exactly one byte, and \<open>tokenize\<close>
  continues with the rest of the input.
\<close>

theorem tokenize_total:
  "tokenize s \<noteq> [] \<and> token_type (last (tokenize s)) = END_OF_FILE \<and>
   (\<forall>t \<in> set (butlast (tokenize s)). token_type t \<noteq> END_OF_FILE) \<and>
   (let k = skipWhitespaceAndComments s in
    position k < length (source k) \<and> \<not> starts_token (source k ! position k) \<longrightarrow>
      nextToken s = (Token ERROR [source k ! position k] (line k) (column k), advance k) \<and>
      position (advance k) = position k + 1 \<and>
      tokenize s
        = Token ERROR [source k ! position k] (line k) (column k) # tokenize (advance k))"
proof -
  let ?k = "skipWhitespaceAndComments s"
  have "nextToken s = (Token ERROR [source ?k ! position ?k] (line ?k) (column ?k), advance ?k) \<and>
      position (advance ?k) = position ?k + 1 \<and>
      tokenize s
        = Token ERROR [source ?k ! position ?k] (line ?k) (column ?k) # tokenize (advance ?k)"
    if a: "position ?k < length (source ?k)" and b: "\<not> starts_token (source ?k ! position ?k)"
  proof -
    have n: "nextToken s
               = (Token ERROR [source ?k ! position ?k] (line ?k) (column ?k), advance ?k)"
      using a scanToken_error [OF b] by (simp add: nextToken_def Let_def)
    moreover have "position (advance ?k) = position ?k + 1"
      using a by (simp add: position_advance)
    moreover have "tokenize s
        = Token ERROR [source ?k ! position ?k] (line ?k) (column ?k) # tokenize (advance ?k)"
      by (subst tokenize.simps) (simp add: n)
    ultimately show ?thesis by simp
  qed
  then show ?thesis
    using tokenize_shape [of s] by (simp add: Let_def)
qed

theorem tokenize_total_witness:
  "tokenize (Lexer_new ''a @ b'')
     = [Token IDENTIFIER ''a'' 1 1, Token ERROR ''@'' 1 3, Token IDENTIFIER ''b'' 1 5,
        Token END_OF_FILE [] 1 6] \<and>
   (let k = skipWhitespaceAndComments (Lexer_new ''@ b'') in
      position k < length (source k) \<and> \<not> starts_token (source k ! position k) \<and>
      nextToken (Lexer_new ''@ b'') = (Token ERROR ''@'' 1 1, advance k) \<and>
      position (advance k) = 1)"
proof -
  have t: "tokenize (Lexer_new ''a @ b'')
     = [Token IDENTIFIER ''a'' 1 1, Token ERROR ''@'' 1 3, Token IDENTIFIER ''b'' 1 5,
        Token END_OF_FILE [] 1 6]"
    by code_simp
  have k: "skipWhitespaceAndComments (Lexer_new ''@ b'') = Lexer_new ''@ b''"
    by code_simp
  have c: "position (Lexer_new ''@ b'') < length (source (Lexer_new ''@ b''))"
    "\<not> starts_token (source (Lexer_new ''@ b'') ! position (Lexer_new ''@ b''))"
    "source (Lexer_new ''@ b'') ! position (Lexer_new ''@ b'') = CHR ''@''"
    "line (Lexer_new ''@ b'') = 1" "column (Lexer_new ''@ b'') = 1"
    "position (Lexer_new ''@ b'') = 0"
    by (simp_all add: Lexer_new_def starts_token_def isdigit_def isalpha_def)
  show ?thesis
    using tokenize_total [of "Lexer_new ''a @ b''"] tokenize_total [of "Lexer_new ''@ b''"] t k c
    by (simp add: Let_def)
qed

text \<open>
  Claim C6, at the input \<open>= ==\<close>. The one-character token \<open>=\<close> is reported at its first
  character, column 1. The two-character token \<open>==\<close> begins at column 3 and is reported at
  column 4, the column of its second character: \<open>nextToken\<close> calls \<open>advance\<close> before
  \<open>makeToken\<close> reads the column.
\<close>

theorem two_character_token_column:
  "tokenize (Lexer_new ''= =='')
     = [Token EQUAL ''='' 1 1, Token EQUAL_EQUAL ''=='' 1 4, Token END_OF_FILE [] 1 5]"
  by code_simp

text \<open>
  Claim C10. When the lexer meets \<open>/*\<close> and the rest of the input does not hold \<open>*/\<close>, skipping
  whitespace and comments consumes the input to its end. The token sequence from there is the
  single END_OF_FILE token: no ERROR token is emitted and the text after \<open>/*\<close> yields no
  token.
\<close>

theorem unterminated_comment:
  assumes "position s + 1 < length (source s)"
    and "source s ! position s = CHR ''/''"
    and "source s ! (position s + 1) = CHR ''*''"
    and "\<not> comment_closed (source s) (position s + 2)"
  shows "position (skipWhitespaceAndComments s) = length (source s) \<and>
         tokenize s
           = [Token END_OF_FILE [] (line (skipWhitespaceAndComments s))
                (column (skipWhitespaceAndComments s))]"
proof -
  let ?b = "skip_block_comment (advance (advance s))"
  have p: "position (advance (advance s)) = position s + 2"
    "source (advance (advance s)) = source s"
    using assms(1) by (simp_all add: position_advance)
  have b: "position ?b = length (source s)" "source ?b = source s"
    using skip_block_comment_unclosed [of "advance (advance s)"] assms(1,4) p by simp_all
  have "skipWhitespaceAndComments ?b = ?b"
    using b by (subst skipWhitespaceAndComments.simps) simp
  moreover have "skipWhitespaceAndComments s = skipWhitespaceAndComments ?b"
    using assms(1,2,3)
    by (subst skipWhitespaceAndComments.simps) (simp add: peek_def isspace_def)
  ultimately have k: "skipWhitespaceAndComments s = ?b"
    by simp
  have "nextToken s = (Token END_OF_FILE [] (line ?b) (column ?b), ?b)"
    using b by (simp add: nextToken_def k Let_def)
  then have "tokenize s = [Token END_OF_FILE [] (line ?b) (column ?b)]"
    by (subst tokenize.simps) simp
  then show ?thesis using k b by simp
qed

theorem unterminated_comment_witness:
  "position (Lexer_new ''/* a * / b'') + 1 < length (source (Lexer_new ''/* a * / b'')) \<and>
   source (Lexer_new ''/* a * / b'') ! position (Lexer_new ''/* a * / b'') = CHR ''/'' \<and>
   source (Lexer_new ''/* a * / b'') ! (position (Lexer_new ''/* a * / b'') + 1) = CHR ''*'' \<and>
   \<not> comment_closed (source (Lexer_new ''/* a * / b'')) (position (Lexer_new ''/* a * / b'') + 2) \<and>
   tokenize (Lexer_new ''/* a * / b'') = [Token END_OF_FILE [] 1 11] \<and>
   map token_type (tokenize (Lexer_new ''/* a * / b*/'')) = [END_OF_FILE]"
proof -
  let ?s = "Lexer_new ''/* a * / b''"
  have h: "position ?s + 1 < length (source ?s)"
    "source ?s ! position ?s = CHR ''/''"
    "source ?s ! (position ?s + 1) = CHR ''*''"
    by (simp_all add: Lexer_new_def)
  have c: "\<not> comment_closed (source ?s) (position ?s + 2)"
    by code_simp
  have k: "line (skipWhitespaceAndComments ?s) = 1" "column (skipWhitespaceAndComments ?s) = 11"
    by code_simp+
  have closed: "map token_type (tokenize (Lexer_new ''/* a * / b*/'')) = [END_OF_FILE]"
    by code_simp
  show ?thesis
    using unterminated_comment [OF h c] h c k closed by simp
qed

section \<open>Theorems about the compiler\<close>




lemma emit_functions [simp]:
  "module_functions (current_module (emit op operands s)) = module_functions (current_module s)"
  by (simp add: emit_def)

lemma markLabel_functions [simp]:
  "module_functions (current_module (markLabel l s)) = module_functions (current_module s)"
  by (simp add: markLabel_def)

lemma pushScope_functions [simp]:
  "module_functions (current_module (pushScope sc s)) = module_functions (current_module s)"
  by (simp add: pushScope_def)

lemma popScope_functions [simp]:
  "module_functions (current_module (popScope s)) = module_functions (current_module s)"
  by (simp add: popScope_def)


















text \<open>
  Claim C7, as the code has it. \<open>lookupVariable\<close> asks the topmost scope only: on a non-empty
  scope stack it answers what the top scope's own lookup answers, and on an empty stack the
  sentinel \<open>UINT32_MAX\<close>. It agrees with a scan of the whole stack when the top scope binds
  the name and when no scope binds it.
\<close>

theorem lookupVariable_top_scope:
  "lookupVariable name s
     = (if scope_stack s = [] then UINT32_MAX
        else scope_lookupVariable (last (scope_stack s)) name) \<and>
   (scope_stack s \<noteq> [] \<and> scope_lookupVariable (last (scope_stack s)) name \<noteq> UINT32_MAX \<longrightarrow>
      lookupVariable name s = nearest_binding (scope_stack s) name) \<and>
   (nearest_binding (scope_stack s) name = UINT32_MAX \<longrightarrow> lookupVariable name s = UINT32_MAX)"
proof -
  have a: "nearest_binding scopes name = scope_lookupVariable (last scopes) name"
    if "scopes \<noteq> []" "scope_lookupVariable (last scopes) name \<noteq> UINT32_MAX" for scopes
  proof (cases scopes rule: rev_cases)
    case Nil
    then show ?thesis using that(1) by simp
  next
    case (snoc xs x)
    then show ?thesis using that(2) by (simp add: nearest_binding_def)
  qed
  show ?thesis
  proof (intro conjI impI)
    show "lookupVariable name s
            = (if scope_stack s = [] then UINT32_MAX
               else scope_lookupVariable (last (scope_stack s)) name)"
      by (simp add: lookupVariable_def)
  next
    assume h: "scope_stack s \<noteq> [] \<and>
               scope_lookupVariable (last (scope_stack s)) name \<noteq> UINT32_MAX"
    then have "nearest_binding (scope_stack s) name
                 = scope_lookupVariable (last (scope_stack s)) name"
      using a [of "scope_stack s"] by blast
    moreover have "lookupVariable name s = scope_lookupVariable (last (scope_stack s)) name"
      using h by (simp add: lookupVariable_def)
    ultimately show "lookupVariable name s = nearest_binding (scope_stack s) name"
      by (rule ssubst)
  next
    assume n: "nearest_binding (scope_stack s) name = UINT32_MAX"
    show "lookupVariable name s = UINT32_MAX"
    proof (cases "scope_stack s = []")
      case True
      then show ?thesis by (simp add: lookupVariable_def)
    next
      case False
      have "scope_lookupVariable (last (scope_stack s)) name = UINT32_MAX"
      proof (rule ccontr)
        assume c: "scope_lookupVariable (last (scope_stack s)) name \<noteq> UINT32_MAX"
        have "nearest_binding (scope_stack s) name
                = scope_lookupVariable (last (scope_stack s)) name"
          by (rule a [OF False c])
        then show False using n c by (simp only:)
      qed
      then show ?thesis using False by (simp add: lookupVariable_def)
    qed
  qed
qed

theorem lookupVariable_top_scope_witness:
  "scope_stack (function_entry ''f'' [''x'', ''y''] (Compiler_new 0 :: unit Compiler)) \<noteq> [] \<and>
   lookupVariable ''y'' (function_entry ''f'' [''x'', ''y''] (Compiler_new 0 :: unit Compiler)) = 1 \<and>
   nearest_binding (scope_stack (function_entry ''f'' [''x'', ''y''] (Compiler_new 0 :: unit Compiler))) ''y'' = 1 \<and>
   nearest_binding (scope_stack (function_entry ''f'' [''x'', ''y''] (Compiler_new 0 :: unit Compiler))) ''z'' = UINT32_MAX \<and>
   lookupVariable ''z'' (function_entry ''f'' [''x'', ''y''] (Compiler_new 0 :: unit Compiler)) = UINT32_MAX \<and>
   scope_stack (Compiler_new 0 :: unit Compiler) = [] \<and>
   lookupVariable ''x'' (Compiler_new 0 :: unit Compiler) = UINT32_MAX"
proof -
  let ?s = "function_entry ''f'' [''x'', ''y''] (Compiler_new 0 :: unit Compiler)"
  have h: "scope_stack ?s = [FunctionScope_new ''f'' [''x'', ''y'']]"
    "scope_stack (Compiler_new 0 :: unit Compiler) = []"
    by (simp_all add: function_entry_def pushScope_def Compiler_new_def)
  have k: "scope_lookupVariable (FunctionScope_new ''f'' [''x'', ''y'']) ''y'' = 1"
    "scope_lookupVariable (FunctionScope_new ''f'' [''x'', ''y'']) ''z'' = UINT32_MAX"
    "nearest_binding [FunctionScope_new ''f'' [''x'', ''y'']] ''y'' = 1"
    "nearest_binding [FunctionScope_new ''f'' [''x'', ''y'']] ''z'' = UINT32_MAX"
    "(1 :: u32) \<noteq> UINT32_MAX"
    by (simp_all add: scope_lookupVariable_def FunctionScope_new_def nearest_binding_def
          UINT32_MAX_def)
  show ?thesis
    using lookupVariable_top_scope [of "''y''" ?s] lookupVariable_top_scope [of "''z''" ?s]
      lookupVariable_top_scope [of "''x''" "Compiler_new 0 :: unit Compiler"] h k
    by simp
qed

text \<open>
  Claim C7 as stated fails inside a \<open>for\<close> loop of a function: the scope of \<open>f\<close> binds its
  parameter \<open>x\<close> to slot 0, the scope of the loop lies above it and binds nothing, and the
  lookup of \<open>x\<close> answers the sentinel. Compiling such a function fails with "Undefined
  variable".
\<close>

theorem lookupVariable_enclosing_scope_counterexample:
  "scope_stack (pushScope (FunctionScope_new ''for_loop'' [])
                  (function_entry ''f'' [''x''] (Compiler_new 0 :: unit Compiler)))
     = [FunctionScope_new ''f'' [''x''], FunctionScope_new ''for_loop'' []] \<and>
   nearest_binding [FunctionScope_new ''f'' [''x''], FunctionScope_new ''for_loop'' []] ''x'' = 0 \<and>
   lookupVariable ''x''
     (pushScope (FunctionScope_new ''for_loop'' [])
        (function_entry ''f'' [''x''] (Compiler_new 0 :: unit Compiler))) = UINT32_MAX \<and>
   visitNode loop_function (Compiler_new 0) = Inl (UndefinedVariable ''x'')"
  by (simp add: loop_function_def function_entry_def pushScope_def Compiler_new_def
        lookupVariable_def scope_lookupVariable_def FunctionScope_new_def nearest_binding_def
        UINT32_MAX_def Let_def)

section \<open>Theorems about the parser\<close>

text \<open>The equations of the parser functions are unfolded by name from here on.\<close>

declare
  parseExpression.simps [simp del]
  parseAssignment.simps [simp del]
  parseLogicalOr.simps [simp del]
  parseLogicalOr_loop.simps [simp del]
  parseLogicalAnd.simps [simp del]
  parseLogicalAnd_loop.simps [simp del]
  parseEquality.simps [simp del]
  parseEquality_loop.simps [simp del]
  parseRelational.simps [simp del]
  parseRelational_loop.simps [simp del]
  parseAdditive.simps [simp del]
  parseAdditive_loop.simps [simp del]
  parseMultiplicative.simps [simp del]
  parseMultiplicative_loop.simps [simp del]
  parseUnary.simps [simp del]
  parsePostfix.simps [simp del]
  parsePostfix_loop.simps [simp del]
  parseExpressions_loop.simps [simp del]
  parsePrimary.simps [simp del]

lemma outcome_case_neE:
  assumes "(case x of Timeout \<Rightarrow> Timeout | Throw e \<Rightarrow> A e | Done v c \<Rightarrow> B v c) \<noteq> Timeout"
  obtains e where "x = Throw e" and "A e \<noteq> Timeout"
        | v c where "x = Done v c" and "B v c \<noteq> Timeout"
  using assms by (cases x) simp_all

lemma sum_case_neE:
  assumes "(case x of Inl e \<Rightarrow> A e | Inr v \<Rightarrow> B v) \<noteq> Timeout"
  obtains e where "x = Inl e" and "A e \<noteq> Timeout"
        | v where "x = Inr v" and "B v \<noteq> Timeout"
  using assms by (cases x) simp_all

lemma parseExpression_fuel_step:
  assumes "\<And>c. parseAssignment stod ts n c \<noteq> Timeout \<Longrightarrow>
       parseAssignment stod ts (Suc n) c = parseAssignment stod ts n c"
  shows "parseExpression stod ts (Suc n) c \<noteq> Timeout \<Longrightarrow>
     parseExpression stod ts (Suc (Suc n)) c = parseExpression stod ts (Suc n) c"
  by (auto simp: parseExpression.simps(2) [of stod ts "Suc n" c] parseExpression.simps(2) [of stod ts n c] assms consume_def
        elim!: outcome_case_neE sum_case_neE split: if_split_asm)

lemma parseAssignment_fuel_step:
  assumes "\<And>c. parseLogicalOr stod ts n c \<noteq> Timeout \<Longrightarrow>
       parseLogicalOr stod ts (Suc n) c = parseLogicalOr stod ts n c"
    and "\<And>c. parseAssignment stod ts n c \<noteq> Timeout \<Longrightarrow>
       parseAssignment stod ts (Suc n) c = parseAssignment stod ts n c"
  shows "parseAssignment stod ts (Suc n) c \<noteq> Timeout \<Longrightarrow>
     parseAssignment stod ts (Suc (Suc n)) c = parseAssignment stod ts (Suc n) c"
  by (auto simp: parseAssignment.simps(2) [of stod ts "Suc n" c] parseAssignment.simps(2) [of stod ts n c] assms consume_def
        elim!: outcome_case_neE sum_case_neE split: if_split_asm)

lemma parseLogicalOr_fuel_step:
  assumes "\<And>c. parseLogicalAnd stod ts n c \<noteq> Timeout \<Longrightarrow>
       parseLogicalAnd stod ts (Suc n) c = parseLogicalAnd stod ts n c"
    and "\<And>x c. parseLogicalOr_loop stod ts n x c \<noteq> Timeout \<Longrightarrow>
       parseLogicalOr_loop stod ts (Suc n) x c = parseLogicalOr_loop stod ts n x c"
  shows "parseLogicalOr stod ts (Suc n) c \<noteq> Timeout \<Longrightarrow>
     parseLogicalOr stod ts (Suc (Suc n)) c = parseLogicalOr stod ts (Suc n) c"
  by (auto simp: parseLogicalOr.simps(2) [of stod ts "Suc n" c] parseLogicalOr.simps(2) [of stod ts n c] assms consume_def
        elim!: outcome_case_neE sum_case_neE split: if_split_asm)

lemma parseLogicalOr_loop_fuel_step:
  assumes "\<And>c. parseLogicalAnd stod ts n c \<noteq> Timeout \<Longrightarrow>
       parseLogicalAnd stod ts (Suc n) c = parseLogicalAnd stod ts n c"
    and "\<And>x c. parseLogicalOr_loop stod ts n x c \<noteq> Timeout \<Longrightarrow>
       parseLogicalOr_loop stod ts (Suc n) x c = parseLogicalOr_loop stod ts n x c"
  shows "parseLogicalOr_loop stod ts (Suc n) x c \<noteq> Timeout \<Longrightarrow>
     parseLogicalOr_loop stod ts (Suc (Suc n)) x c = parseLogicalOr_loop stod ts (Suc n) x c"
  by (auto simp: parseLogicalOr_loop.simps(2) [of stod ts "Suc n" x c] parseLogicalOr_loop.simps(2) [of stod ts n x c] assms consume_def
        elim!: outcome_case_neE sum_case_neE split: if_split_asm)

lemma parseLogicalAnd_fuel_step:
  assumes "\<And>c. parseEquality stod ts n c \<noteq> Timeout \<Longrightarrow>
       parseEquality stod ts (Suc n) c = parseEquality stod ts n c"
    and "\<And>x c. parseLogicalAnd_loop stod ts n x c \<noteq> Timeout \<Longrightarrow>
       parseLogicalAnd_loop stod ts (Suc n) x c = parseLogicalAnd_loop stod ts n x c"
  shows "parseLogicalAnd stod ts (Suc n) c \<noteq> Timeout \<Longrightarrow>
     parseLogicalAnd stod ts (Suc (Suc n)) c = parseLogicalAnd stod ts (Suc n) c"
  by (auto simp: parseLogicalAnd.simps(2) [of stod ts "Suc n" c] parseLogicalAnd.simps(2) [of stod ts n c] assms consume_def
        elim!: outcome_case_neE sum_case_neE split: if_split_asm)

lemma parseLogicalAnd_loop_fuel_step:
  assumes "\<And>c. parseEquality stod ts n c \<noteq> Timeout \<Longrightarrow>
       parseEquality stod ts (Suc n) c = parseEquality stod ts n c"
    and "\<And>x c. parseLogicalAnd_loop stod ts n x c \<noteq> Timeout \<Longrightarrow>
       parseLogicalAnd_loop stod ts (Suc n) x c = parseLogicalAnd_loop stod ts n x c"
  shows "parseLogicalAnd_loop stod ts (Suc n) x c \<noteq> Timeout \<Longrightarrow>
     parseLogicalAnd_loop stod ts (Suc (Suc n)) x c = parseLogicalAnd_loop stod ts (Suc n) x c"
  by (auto simp: parseLogicalAnd_loop.simps(2) [of stod ts "Suc n" x c] parseLogicalAnd_loop.simps(2) [of stod ts n x c] assms consume_def
        elim!: outcome_case_neE sum_case_neE split: if_split_asm)

lemma parseEquality_fuel_step:
  assumes "\<And>c. parseRelational stod ts n c \<noteq> Timeout \<Longrightarrow>
       parseRelational stod ts (Suc n) c = parseRelational stod ts n c"
    and "\<And>x c. parseEquality_loop stod ts n x c \<noteq> Timeout \<Longrightarrow>
       parseEquality_loop stod ts (Suc n) x c = parseEquality_loop stod ts n x c"
  shows "parseEquality stod ts (Suc n) c \<noteq> Timeout \<Longrightarrow>
     parseEquality stod ts (Suc (Suc n)) c = parseEquality stod ts (Suc n) c"
  by (auto simp: parseEquality.simps(2) [of stod ts "Suc n" c] parseEquality.simps(2) [of stod ts n c] assms consume_def
        elim!: outcome_case_neE sum_case_neE split: if_split_asm)

lemma parseEquality_loop_fuel_step:
  assumes "\<And>c. parseRelational stod ts n c \<noteq> Timeout \<Longrightarrow>
       parseRelational stod ts (Suc n) c = parseRelational stod ts n c"
    and "\<And>x c. parseEquality_loop stod ts n x c \<noteq> Timeout \<Longrightarrow>
       parseEquality_loop stod ts (Suc n) x c = parseEquality_loop stod ts n x c"
  shows "parseEquality_loop stod ts (Suc n) x c \<noteq> Timeout \<Longrightarrow>
     parseEquality_loop stod ts (Suc (Suc n)) x c = parseEquality_loop stod ts (Suc n) x c"
  by (auto simp: parseEquality_loop.simps(2) [of stod ts "Suc n" x c] parseEquality_loop.simps(2) [of stod ts n x c] assms consume_def
        elim!: outcome_case_neE sum_case_neE split: if_split_asm)

lemma parseRelational_fuel_step:
  assumes "\<And>c. parseAdditive stod ts n c \<noteq> Timeout \<Longrightarrow>
       parseAdditive stod ts (Suc n) c = parseAdditive stod ts n c"
    and "\<And>x c. parseRelational_loop stod ts n x c \<noteq> Timeout \<Longrightarrow>
       parseRelational_loop stod ts (Suc n) x c = parseRelational_loop stod ts n x c"
  shows "parseRelational stod ts (Suc n) c \<noteq> Timeout \<Longrightarrow>
     parseRelational stod ts (Suc (Suc n)) c = parseRelational stod ts (Suc n) c"
  by (auto simp: parseRelational.simps(2) [of stod ts "Suc n" c] parseRelational.simps(2) [of stod ts n c] assms consume_def
        elim!: outcome_case_neE sum_case_neE split: if_split_asm)

lemma parseRelational_loop_fuel_step:
  assumes "\<And>c. parseAdditive stod ts n c \<noteq> Timeout \<Longrightarrow>
       parseAdditive stod ts (Suc n) c = parseAdditive stod ts n c"
    and "\<And>x c. parseRelational_loop stod ts n x c \<noteq> Timeout \<Longrightarrow>
       parseRelational_loop stod ts (Suc n) x c = parseRelational_loop stod ts n x c"
  shows "parseRelational_loop stod ts (Suc n) x c \<noteq> Timeout \<Longrightarrow>
     parseRelational_loop stod ts (Suc (Suc n)) x c = parseRelational_loop stod ts (Suc n) x c"
  by (auto simp: parseRelational_loop.simps(2) [of stod ts "Suc n" x c] parseRelational_loop.simps(2) [of stod ts n x c] assms consume_def
        elim!: outcome_case_neE sum_case_neE split: if_split_asm)

lemma parseAdditive_fuel_step:
  assumes "\<And>c. parseMultiplicative stod ts n c \<noteq> Timeout \<Longrightarrow>
       parseMultiplicative stod ts (Suc n) c = parseMultiplicative stod ts n c"
    and "\<And>x c. parseAdditive_loop stod ts n x c \<noteq> Timeout \<Longrightarrow>
       parseAdditive_loop stod ts (Suc n) x c = parseAdditive_loop stod ts n x c"
  shows "parseAdditive stod ts (Suc n) c \<noteq> Timeout \<Longrightarrow>
     parseAdditive stod ts (Suc (Suc n)) c = parseAdditive stod ts (Suc n) c"
  by (auto simp: parseAdditive.simps(2) [of stod ts "Suc n" c] parseAdditive.simps(2) [of stod ts n c] assms consume_def
        elim!: outcome_case_neE sum_case_neE split: if_split_asm)

lemma parseAdditive_loop_fuel_step:
  assumes "\<And>c. parseMultiplicative stod ts n c \<noteq> Timeout \<Longrightarrow>
       parseMultiplicative stod ts (Suc n) c = parseMultiplicative stod ts n c"
    and "\<And>x c. parseAdditive_loop stod ts n x c \<noteq> Timeout \<Longrightarrow>
       parseAdditive_loop stod ts (Suc n) x c = parseAdditive_loop stod ts n x c"
  shows "parseAdditive_loop stod ts (Suc n) x c \<noteq> Timeout \<Longrightarrow>
     parseAdditive_loop stod ts (Suc (Suc n)) x c = parseAdditive_loop stod ts (Suc n) x c"
  by (auto simp: parseAdditive_loop.simps(2) [of stod ts "Suc n" x c] parseAdditive_loop.simps(2) [of stod ts n x c] assms consume_def
        elim!: outcome_case_neE sum_case_neE split: if_split_asm)

lemma parseMultiplicative_fuel_step:
  assumes "\<And>c. parseUnary stod ts n c \<noteq> Timeout \<Longrightarrow>
       parseUnary stod ts (Suc n) c = parseUnary stod ts n c"
    and "\<And>x c. parseMultiplicative_loop stod ts n x c \<noteq> Timeout \<Longrightarrow>
       parseMultiplicative_loop stod ts (Suc n) x c = parseMultiplicative_loop stod ts n x c"
  shows "parseMultiplicative stod ts (Suc n) c \<noteq> Timeout \<Longrightarrow>
     parseMultiplicative stod ts (Suc (Suc n)) c = parseMultiplicative stod ts (Suc n) c"
  by (auto simp: parseMultiplicative.simps(2) [of stod ts "Suc n" c] parseMultiplicative.simps(2) [of stod ts n c] assms consume_def
        elim!: outcome_case_neE sum_case_neE split: if_split_asm)

lemma parseMultiplicative_loop_fuel_step:
  assumes "\<And>c. parseUnary stod ts n c \<noteq> Timeout \<Longrightarrow>
       parseUnary stod ts (Suc n) c = parseUnary stod ts n c"
    and "\<And>x c. parseMultiplicative_loop stod ts n x c \<noteq> Timeout \<Longrightarrow>
       parseMultiplicative_loop stod ts (Suc n) x c = parseMultiplicative_loop stod ts n x c"
  shows "parseMultiplicative_loop stod ts (Suc n) x c \<noteq> Timeout \<Longrightarrow>
     parseMultiplicative_loop stod ts (Suc (Suc n)) x c = parseMultiplicative_loop stod ts (Suc n) x c"
  by (auto simp: parseMultiplicative_loop.simps(2) [of stod ts "Suc n" x c] parseMultiplicative_loop.simps(2) [of stod ts n x c] assms consume_def
        elim!: outcome_case_neE sum_case_neE split: if_split_asm)

lemma parseUnary_fuel_step:
  assumes "\<And>c. parseUnary stod ts n c \<noteq> Timeout \<Longrightarrow>
       parseUnary stod ts (Suc n) c = parseUnary stod ts n c"
    and "\<And>c. parsePostfix stod ts n c \<noteq> Timeout \<Longrightarrow>
       parsePostfix stod ts (Suc n) c = parsePostfix stod ts n c"
  shows "parseUnary stod ts (Suc n) c \<noteq> Timeout \<Longrightarrow>
     parseUnary stod ts (Suc (Suc n)) c = parseUnary stod ts (Suc n) c"
  by (auto simp: parseUnary.simps(2) [of stod ts "Suc n" c] parseUnary.simps(2) [of stod ts n c] assms consume_def
        elim!: outcome_case_neE sum_case_neE split: if_split_asm)

lemma parsePostfix_fuel_step:
  assumes "\<And>c. parsePrimary stod ts n c \<noteq> Timeout \<Longrightarrow>
       parsePrimary stod ts (Suc n) c = parsePrimary stod ts n c"
    and "\<And>x c. parsePostfix_loop stod ts n x c \<noteq> Timeout \<Longrightarrow>
       parsePostfix_loop stod ts (Suc n) x c = parsePostfix_loop stod ts n x c"
  shows "parsePostfix stod ts (Suc n) c \<noteq> Timeout \<Longrightarrow>
     parsePostfix stod ts (Suc (Suc n)) c = parsePostfix stod ts (Suc n) c"
  by (auto simp: parsePostfix.simps(2) [of stod ts "Suc n" c] parsePostfix.simps(2) [of stod ts n c] assms consume_def
        elim!: outcome_case_neE sum_case_neE split: if_split_asm)

lemma parsePostfix_loop_fuel_step:
  assumes "\<And>x c. parseExpressions_loop stod ts n x c \<noteq> Timeout \<Longrightarrow>
       parseExpressions_loop stod ts (Suc n) x c = parseExpressions_loop stod ts n x c"
    and "\<And>c. parseExpression stod ts n c \<noteq> Timeout \<Longrightarrow>
       parseExpression stod ts (Suc n) c = parseExpression stod ts n c"
    and "\<And>x c. parsePostfix_loop stod ts n x c \<noteq> Timeout \<Longrightarrow>
       parsePostfix_loop stod ts (Suc n) x c = parsePostfix_loop stod ts n x c"
  shows "parsePostfix_loop stod ts (Suc n) x c \<noteq> Timeout \<Longrightarrow>
     parsePostfix_loop stod ts (Suc (Suc n)) x c = parsePostfix_loop stod ts (Suc n) x c"
  by (auto simp: parsePostfix_loop.simps(2) [of stod ts "Suc n" x c] parsePostfix_loop.simps(2) [of stod ts n x c] assms consume_def
        elim!: outcome_case_neE sum_case_neE split: if_split_asm)

lemma parseExpressions_loop_fuel_step:
  assumes "\<And>c. parseExpression stod ts n c \<noteq> Timeout \<Longrightarrow>
       parseExpression stod ts (Suc n) c = parseExpression stod ts n c"
    and "\<And>x c. parseExpressions_loop stod ts n x c \<noteq> Timeout \<Longrightarrow>
       parseExpressions_loop stod ts (Suc n) x c = parseExpressions_loop stod ts n x c"
  shows "parseExpressions_loop stod ts (Suc n) x c \<noteq> Timeout \<Longrightarrow>
     parseExpressions_loop stod ts (Suc (Suc n)) x c = parseExpressions_loop stod ts (Suc n) x c"
  by (auto simp: parseExpressions_loop.simps(2) [of stod ts "Suc n" x c] parseExpressions_loop.simps(2) [of stod ts n x c] assms consume_def
        elim!: outcome_case_neE sum_case_neE split: if_split_asm)

lemma parsePrimary_fuel_step:
  assumes "\<And>c. parseExpression stod ts n c \<noteq> Timeout \<Longrightarrow>
       parseExpression stod ts (Suc n) c = parseExpression stod ts n c"
    and "\<And>x c. parseExpressions_loop stod ts n x c \<noteq> Timeout \<Longrightarrow>
       parseExpressions_loop stod ts (Suc n) x c = parseExpressions_loop stod ts n x c"
  shows "parsePrimary stod ts (Suc n) c \<noteq> Timeout \<Longrightarrow>
     parsePrimary stod ts (Suc (Suc n)) c = parsePrimary stod ts (Suc n) c"
  by (auto simp: parsePrimary.simps(2) [of stod ts "Suc n" c] parsePrimary.simps(2) [of stod ts n c] assms consume_def
        elim!: outcome_case_neE sum_case_neE split: if_split_asm)

lemma fuel_stable: "fuel_stable stod ts n"
proof (induction n)
  case 0
  show ?case
    by (simp add: fuel_stable_def parseExpression.simps(1) parseAssignment.simps(1) parseLogicalOr.simps(1) parseLogicalOr_loop.simps(1) parseLogicalAnd.simps(1) parseLogicalAnd_loop.simps(1) parseEquality.simps(1) parseEquality_loop.simps(1) parseRelational.simps(1) parseRelational_loop.simps(1) parseAdditive.simps(1) parseAdditive_loop.simps(1) parseMultiplicative.simps(1) parseMultiplicative_loop.simps(1) parseUnary.simps(1) parsePostfix.simps(1) parsePostfix_loop.simps(1) parseExpressions_loop.simps(1) parsePrimary.simps(1))
next
  case (Suc n)
  from Suc have ih:
    "\<And>c. parseExpression stod ts n c \<noteq> Timeout \<Longrightarrow>
        parseExpression stod ts (Suc n) c = parseExpression stod ts n c"
    "\<And>c. parseAssignment stod ts n c \<noteq> Timeout \<Longrightarrow>
        parseAssignment stod ts (Suc n) c = parseAssignment stod ts n c"
    "\<And>c. parseLogicalOr stod ts n c \<noteq> Timeout \<Longrightarrow>
        parseLogicalOr stod ts (Suc n) c = parseLogicalOr stod ts n c"
    "\<And>x c. parseLogicalOr_loop stod ts n x c \<noteq> Timeout \<Longrightarrow>
        parseLogicalOr_loop stod ts (Suc n) x c = parseLogicalOr_loop stod ts n x c"
    "\<And>c. parseLogicalAnd stod ts n c \<noteq> Timeout \<Longrightarrow>
        parseLogicalAnd stod ts (Suc n) c = parseLogicalAnd stod ts n c"
    "\<And>x c. parseLogicalAnd_loop stod ts n x c \<noteq> Timeout \<Longrightarrow>
        parseLogicalAnd_loop stod ts (Suc n) x c = parseLogicalAnd_loop stod ts n x c"
    "\<And>c. parseEquality stod ts n c \<noteq> Timeout \<Longrightarrow>
        parseEquality stod ts (Suc n) c = parseEquality stod ts n c"
    "\<And>x c. parseEquality_loop stod ts n x c \<noteq> Timeout \<Longrightarrow>
        parseEquality_loop stod ts (Suc n) x c = parseEquality_loop stod ts n x c"
    "\<And>c. parseRelational stod ts n c \<noteq> Timeout \<Longrightarrow>
        parseRelational stod ts (Suc n) c = parseRelational stod ts n c"
    "\<And>x c. parseRelational_loop stod ts n x c \<noteq> Timeout \<Longrightarrow>
        parseRelational_loop stod ts (Suc n) x c = parseRelational_loop stod ts n x c"
    "\<And>c. parseAdditive stod ts n c \<noteq> Timeout \<Longrightarrow>
        parseAdditive stod ts (Suc n) c = parseAdditive stod ts n c"
    "\<And>x c. parseAdditive_loop stod ts n x c \<noteq> Timeout \<Longrightarrow>
        parseAdditive_loop stod ts (Suc n) x c = parseAdditive_loop stod ts n x c"
    "\<And>c. parseMultiplicative stod ts n c \<noteq> Timeout \<Longrightarrow>
        parseMultiplicative stod ts (Suc n) c = parseMultiplicative stod ts n c"
    "\<And>x c. parseMultiplicative_loop stod ts n x c \<noteq> Timeout \<Longrightarrow>
        parseMultiplicative_loop stod ts (Suc n) x c = parseMultiplicative_loop stod ts n x c"
    "\<And>c. parseUnary stod ts n c \<noteq> Timeout \<Longrightarrow>
        parseUnary stod ts (Suc n) c = parseUnary stod ts n c"
    "\<And>c. parsePostfix stod ts n c \<noteq> Timeout \<Longrightarrow>
        parsePostfix stod ts (Suc n) c = parsePostfix stod ts n c"
    "\<And>x c. parsePostfix_loop stod ts n x c \<noteq> Timeout \<Longrightarrow>
        parsePostfix_loop stod ts (Suc n) x c = parsePostfix_loop stod ts n x c"
    "\<And>x c. parseExpressions_loop stod ts n x c \<noteq> Timeout \<Longrightarrow>
        parseExpressions_loop stod ts (Suc n) x c = parseExpressions_loop stod ts n x c"
    "\<And>c. parsePrimary stod ts n c \<noteq> Timeout \<Longrightarrow>
        parsePrimary stod ts (Suc n) c = parsePrimary stod ts n c"
    by (simp_all add: fuel_stable_def)
  show ?case
    unfolding fuel_stable_def
    apply (intro conjI allI impI)
    subgoal by (rule parseExpression_fuel_step) (simp_all add: ih)
    subgoal by (rule parseAssignment_fuel_step) (simp_all add: ih)
    subgoal by (rule parseLogicalOr_fuel_step) (simp_all add: ih)
    subgoal by (rule parseLogicalOr_loop_fuel_step) (simp_all add: ih)
    subgoal by (rule parseLogicalAnd_fuel_step) (simp_all add: ih)
    subgoal by (rule parseLogicalAnd_loop_fuel_step) (simp_all add: ih)
    subgoal by (rule parseEquality_fuel_step) (simp_all add: ih)
    subgoal by (rule parseEquality_loop_fuel_step) (simp_all add: ih)
    subgoal by (rule parseRelational_fuel_step) (simp_all add: ih)
    subgoal by (rule parseRelational_loop_fuel_step) (simp_all add: ih)
    subgoal by (rule parseAdditive_fuel_step) (simp_all add: ih)
    subgoal by (rule parseAdditive_loop_fuel_step) (simp_all add: ih)
    subgoal by (rule parseMultiplicative_fuel_step) (simp_all add: ih)
    subgoal by (rule parseMultiplicative_loop_fuel_step) (simp_all add: ih)
    subgoal by (rule parseUnary_fuel_step) (simp_all add: ih)
    subgoal by (rule parsePostfix_fuel_step) (simp_all add: ih)
    subgoal by (rule parsePostfix_loop_fuel_step) (simp_all add: ih)
    subgoal by (rule parseExpressions_loop_fuel_step) (simp_all add: ih)
    subgoal by (rule parsePrimary_fuel_step) (simp_all add: ih)
    done
qed

lemma fuel_mono:
  fixes p :: "nat \<Rightarrow> 'a outcome"
  assumes "\<And>n. p n \<noteq> Timeout \<Longrightarrow> p (Suc n) = p n"
  shows "n \<le> m \<Longrightarrow> p n \<noteq> Timeout \<Longrightarrow> p m = p n"
proof (induction m)
  case 0
  then show ?case by simp
next
  case (Suc m)
  show ?case
  proof (cases "n = Suc m")
    case True
    then show ?thesis by simp
  next
    case False
    then have "p m = p n" using Suc by simp
    then show ?thesis using assms [of m] Suc.prems(2) by simp
  qed
qed

lemma parseAssignment_fuel_mono:
  "n \<le> m \<Longrightarrow> parseAssignment stod ts n c \<noteq> Timeout \<Longrightarrow>
     parseAssignment stod ts m c = parseAssignment stod ts n c"
  using fuel_mono [of "\<lambda>n. parseAssignment stod ts n c" n m] fuel_stable [of stod ts]
  by (simp add: fuel_stable_def)

lemma parseLogicalOr_fuel_mono:
  "n \<le> m \<Longrightarrow> parseLogicalOr stod ts n c \<noteq> Timeout \<Longrightarrow>
     parseLogicalOr stod ts m c = parseLogicalOr stod ts n c"
  using fuel_mono [of "\<lambda>n. parseLogicalOr stod ts n c" n m] fuel_stable [of stod ts]
  by (simp add: fuel_stable_def)


lemma check_advance:
  "check ts ty c \<Longrightarrow> c < length ts \<and> Parser_advance ts c = Suc c"
  by (auto simp: check_def Parser_advance_def isAtEnd_def split: if_splits)

lemma check_in_range: "check ts ty c \<Longrightarrow> c < length ts"
  by (simp add: check_advance)

lemma check_Parser_advance [simp]: "check ts ty c \<Longrightarrow> Parser_advance ts c = Suc c"
  by (simp add: check_advance)

lemma consume_Done:
  "consume ts ty msg c = Done t c' \<Longrightarrow> c' = Suc c \<and> c < length ts"
  by (auto simp: consume_def check_advance split: if_splits)

lemma consume_not_Timeout [simp]: "consume ts ty msg c \<noteq> Timeout"
  by (simp add: consume_def)

lemma outcome_case_DoneE:
  assumes "(case y of Timeout \<Rightarrow> Timeout | Throw e \<Rightarrow> Throw e | Done v c \<Rightarrow> B v c) = Done x c'"
  obtains v c where "y = Done v c" and "B v c = Done x c'"
  using assms by (cases y) simp_all

lemma parseExpression_position_step:
  assumes "\<And>c v c'. parseAssignment stod ts n c = Done v c' \<Longrightarrow> c \<le> c'"
  shows "parseExpression stod ts (Suc n) c = Done v c' \<Longrightarrow> c \<le> c'"
  by (auto simp: parseExpression.simps(2) [of stod ts n c]
        elim!: outcome_case_DoneE split: if_split_asm sum.split_asm Node.split_asm
        dest!: assms consume_Done check_advance)

lemma parseAssignment_position_step:
  assumes "\<And>c v c'. parseLogicalOr stod ts n c = Done v c' \<Longrightarrow> c \<le> c'"
    and "\<And>c v c'. parseAssignment stod ts n c = Done v c' \<Longrightarrow> c \<le> c'"
  shows "parseAssignment stod ts (Suc n) c = Done v c' \<Longrightarrow> c \<le> c'"
  by (auto simp: parseAssignment.simps(2) [of stod ts n c]
        elim!: outcome_case_DoneE split: if_split_asm sum.split_asm Node.split_asm
        dest!: assms consume_Done check_advance)

lemma parseLogicalOr_position_step:
  assumes "\<And>c v c'. parseLogicalAnd stod ts n c = Done v c' \<Longrightarrow> c \<le> c'"
    and "\<And>x c v c'. parseLogicalOr_loop stod ts n x c = Done v c' \<Longrightarrow> c \<le> c'"
  shows "parseLogicalOr stod ts (Suc n) c = Done v c' \<Longrightarrow> c \<le> c'"
  by (auto simp: parseLogicalOr.simps(2) [of stod ts n c]
        elim!: outcome_case_DoneE split: if_split_asm sum.split_asm Node.split_asm
        dest!: assms consume_Done check_advance)

lemma parseLogicalOr_loop_position_step:
  assumes "\<And>c v c'. parseLogicalAnd stod ts n c = Done v c' \<Longrightarrow> c \<le> c'"
    and "\<And>x c v c'. parseLogicalOr_loop stod ts n x c = Done v c' \<Longrightarrow> c \<le> c'"
  shows "parseLogicalOr_loop stod ts (Suc n) x c = Done v c' \<Longrightarrow> c \<le> c'"
  by (auto simp: parseLogicalOr_loop.simps(2) [of stod ts n x c]
        elim!: outcome_case_DoneE split: if_split_asm sum.split_asm Node.split_asm
        dest!: assms consume_Done check_advance)

lemma parseLogicalAnd_position_step:
  assumes "\<And>c v c'. parseEquality stod ts n c = Done v c' \<Longrightarrow> c \<le> c'"
    and "\<And>x c v c'. parseLogicalAnd_loop stod ts n x c = Done v c' \<Longrightarrow> c \<le> c'"
  shows "parseLogicalAnd stod ts (Suc n) c = Done v c' \<Longrightarrow> c \<le> c'"
  by (auto simp: parseLogicalAnd.simps(2) [of stod ts n c]
        elim!: outcome_case_DoneE split: if_split_asm sum.split_asm Node.split_asm
        dest!: assms consume_Done check_advance)

lemma parseLogicalAnd_loop_position_step:
  assumes "\<And>c v c'. parseEquality stod ts n c = Done v c' \<Longrightarrow> c \<le> c'"
    and "\<And>x c v c'. parseLogicalAnd_loop stod ts n x c = Done v c' \<Longrightarrow> c \<le> c'"
  shows "parseLogicalAnd_loop stod ts (Suc n) x c = Done v c' \<Longrightarrow> c \<le> c'"
  by (auto simp: parseLogicalAnd_loop.simps(2) [of stod ts n x c]
        elim!: outcome_case_DoneE split: if_split_asm sum.split_asm Node.split_asm
        dest!: assms consume_Done check_advance)

lemma parseEquality_position_step:
  assumes "\<And>c v c'. parseRelational stod ts n c = Done v c' \<Longrightarrow> c \<le> c'"
    and "\<And>x c v c'. parseEquality_loop stod ts n x c = Done v c' \<Longrightarrow> c \<le> c'"
  shows "parseEquality stod ts (Suc n) c = Done v c' \<Longrightarrow> c \<le> c'"
  by (auto simp: parseEquality.simps(2) [of stod ts n c]
        elim!: outcome_case_DoneE split: if_split_asm sum.split_asm Node.split_asm
        dest!: assms consume_Done check_advance)

lemma parseEquality_loop_position_step:
  assumes "\<And>c v c'. parseRelational stod ts n c = Done v c' \<Longrightarrow> c \<le> c'"
    and "\<And>x c v c'. parseEquality_loop stod ts n x c = Done v c' \<Longrightarrow> c \<le> c'"
  shows "parseEquality_loop stod ts (Suc n) x c = Done v c' \<Longrightarrow> c \<le> c'"
  by (auto simp: parseEquality_loop.simps(2) [of stod ts n x c]
        elim!: outcome_case_DoneE split: if_split_asm sum.split_asm Node.split_asm
        dest!: assms consume_Done check_advance)

lemma parseRelational_position_step:
  assumes "\<And>c v c'. parseAdditive stod ts n c = Done v c' \<Longrightarrow> c \<le> c'"
    and "\<And>x c v c'. parseRelational_loop stod ts n x c = Done v c' \<Longrightarrow> c \<le> c'"
  shows "parseRelational stod ts (Suc n) c = Done v c' \<Longrightarrow> c \<le> c'"
  by (auto simp: parseRelational.simps(2) [of stod ts n c]
        elim!: outcome_case_DoneE split: if_split_asm sum.split_asm Node.split_asm
        dest!: assms consume_Done check_advance)

lemma parseRelational_loop_position_step:
  assumes "\<And>c v c'. parseAdditive stod ts n c = Done v c' \<Longrightarrow> c \<le> c'"
    and "\<And>x c v c'. parseRelational_loop stod ts n x c = Done v c' \<Longrightarrow> c \<le> c'"
  shows "parseRelational_loop stod ts (Suc n) x c = Done v c' \<Longrightarrow> c \<le> c'"
  by (auto simp: parseRelational_loop.simps(2) [of stod ts n x c]
        elim!: outcome_case_DoneE split: if_split_asm sum.split_asm Node.split_asm
        dest!: assms consume_Done check_advance)

lemma parseAdditive_position_step:
  assumes "\<And>c v c'. parseMultiplicative stod ts n c = Done v c' \<Longrightarrow> c \<le> c'"
    and "\<And>x c v c'. parseAdditive_loop stod ts n x c = Done v c' \<Longrightarrow> c \<le> c'"
  shows "parseAdditive stod ts (Suc n) c = Done v c' \<Longrightarrow> c \<le> c'"
  by (auto simp: parseAdditive.simps(2) [of stod ts n c]
        elim!: outcome_case_DoneE split: if_split_asm sum.split_asm Node.split_asm
        dest!: assms consume_Done check_advance)

lemma parseAdditive_loop_position_step:
  assumes "\<And>c v c'. parseMultiplicative stod ts n c = Done v c' \<Longrightarrow> c \<le> c'"
    and "\<And>x c v c'. parseAdditive_loop stod ts n x c = Done v c' \<Longrightarrow> c \<le> c'"
  shows "parseAdditive_loop stod ts (Suc n) x c = Done v c' \<Longrightarrow> c \<le> c'"
  by (auto simp: parseAdditive_loop.simps(2) [of stod ts n x c]
        elim!: outcome_case_DoneE split: if_split_asm sum.split_asm Node.split_asm
        dest!: assms consume_Done check_advance)

lemma parseMultiplicative_position_step:
  assumes "\<And>c v c'. parseUnary stod ts n c = Done v c' \<Longrightarrow> c \<le> c'"
    and "\<And>x c v c'. parseMultiplicative_loop stod ts n x c = Done v c' \<Longrightarrow> c \<le> c'"
  shows "parseMultiplicative stod ts (Suc n) c = Done v c' \<Longrightarrow> c \<le> c'"
  by (auto simp: parseMultiplicative.simps(2) [of stod ts n c]
        elim!: outcome_case_DoneE split: if_split_asm sum.split_asm Node.split_asm
        dest!: assms consume_Done check_advance)

lemma parseMultiplicative_loop_position_step:
  assumes "\<And>c v c'. parseUnary stod ts n c = Done v c' \<Longrightarrow> c \<le> c'"
    and "\<And>x c v c'. parseMultiplicative_loop stod ts n x c = Done v c' \<Longrightarrow> c \<le> c'"
  shows "parseMultiplicative_loop stod ts (Suc n) x c = Done v c' \<Longrightarrow> c \<le> c'"
  by (auto simp: parseMultiplicative_loop.simps(2) [of stod ts n x c]
        elim!: outcome_case_DoneE split: if_split_asm sum.split_asm Node.split_asm
        dest!: assms consume_Done check_advance)

lemma parseUnary_position_step:
  assumes "\<And>c v c'. parseUnary stod ts n c = Done v c' \<Longrightarrow> c \<le> c'"
    and "\<And>c v c'. parsePostfix stod ts n c = Done v c' \<Longrightarrow> c \<le> c'"
  shows "parseUnary stod ts (Suc n) c = Done v c' \<Longrightarrow> c \<le> c'"
  by (auto simp: parseUnary.simps(2) [of stod ts n c]
        elim!: outcome_case_DoneE split: if_split_asm sum.split_asm Node.split_asm
        dest!: assms consume_Done check_advance)

lemma parsePostfix_position_step:
  assumes "\<And>c v c'. parsePrimary stod ts n c = Done v c' \<Longrightarrow> c \<le> c'"
    and "\<And>x c v c'. parsePostfix_loop stod ts n x c = Done v c' \<Longrightarrow> c \<le> c'"
  shows "parsePostfix stod ts (Suc n) c = Done v c' \<Longrightarrow> c \<le> c'"
  by (auto simp: parsePostfix.simps(2) [of stod ts n c]
        elim!: outcome_case_DoneE split: if_split_asm sum.split_asm Node.split_asm
        dest!: assms consume_Done check_advance)

lemma parsePostfix_loop_position_step:
  assumes "\<And>x c v c'. parseExpressions_loop stod ts n x c = Done v c' \<Longrightarrow> c \<le> c'"
    and "\<And>c v c'. parseExpression stod ts n c = Done v c' \<Longrightarrow> c \<le> c'"
    and "\<And>x c v c'. parsePostfix_loop stod ts n x c = Done v c' \<Longrightarrow> c \<le> c'"
  shows "parsePostfix_loop stod ts (Suc n) x c = Done v c' \<Longrightarrow> c \<le> c'"
  by (auto simp: parsePostfix_loop.simps(2) [of stod ts n x c]
        elim!: outcome_case_DoneE split: if_split_asm sum.split_asm Node.split_asm
        dest!: assms consume_Done check_advance)

lemma parseExpressions_loop_position_step:
  assumes "\<And>c v c'. parseExpression stod ts n c = Done v c' \<Longrightarrow> c \<le> c'"
    and "\<And>x c v c'. parseExpressions_loop stod ts n x c = Done v c' \<Longrightarrow> c \<le> c'"
  shows "parseExpressions_loop stod ts (Suc n) x c = Done v c' \<Longrightarrow> c \<le> c'"
  by (auto simp: parseExpressions_loop.simps(2) [of stod ts n x c]
        elim!: outcome_case_DoneE split: if_split_asm sum.split_asm Node.split_asm
        dest!: assms consume_Done check_advance)

lemma parsePrimary_position_step:
  assumes "\<And>c v c'. parseExpression stod ts n c = Done v c' \<Longrightarrow> c \<le> c'"
    and "\<And>x c v c'. parseExpressions_loop stod ts n x c = Done v c' \<Longrightarrow> c \<le> c'"
  shows "parsePrimary stod ts (Suc n) c = Done v c' \<Longrightarrow> c \<le> c'"
  by (auto simp: parsePrimary.simps(2) [of stod ts n c]
        elim!: outcome_case_DoneE split: if_split_asm sum.split_asm Node.split_asm
        dest!: assms consume_Done check_advance)

lemma cursor_monotone: "cursor_monotone stod ts n"
proof (induction n)
  case 0
  show ?case
    by (simp add: cursor_monotone_def parseExpression.simps(1) parseAssignment.simps(1) parseLogicalOr.simps(1) parseLogicalOr_loop.simps(1) parseLogicalAnd.simps(1) parseLogicalAnd_loop.simps(1) parseEquality.simps(1) parseEquality_loop.simps(1) parseRelational.simps(1) parseRelational_loop.simps(1) parseAdditive.simps(1) parseAdditive_loop.simps(1) parseMultiplicative.simps(1) parseMultiplicative_loop.simps(1) parseUnary.simps(1) parsePostfix.simps(1) parsePostfix_loop.simps(1) parseExpressions_loop.simps(1) parsePrimary.simps(1))
next
  case (Suc n)
  from Suc have ih:
    "\<And>c v c'. parseExpression stod ts n c = Done v c' \<Longrightarrow> c \<le> c'"
    "\<And>c v c'. parseAssignment stod ts n c = Done v c' \<Longrightarrow> c \<le> c'"
    "\<And>c v c'. parseLogicalOr stod ts n c = Done v c' \<Longrightarrow> c \<le> c'"
    "\<And>x c v c'. parseLogicalOr_loop stod ts n x c = Done v c' \<Longrightarrow> c \<le> c'"
    "\<And>c v c'. parseLogicalAnd stod ts n c = Done v c' \<Longrightarrow> c \<le> c'"
    "\<And>x c v c'. parseLogicalAnd_loop stod ts n x c = Done v c' \<Longrightarrow> c \<le> c'"
    "\<And>c v c'. parseEquality stod ts n c = Done v c' \<Longrightarrow> c \<le> c'"
    "\<And>x c v c'. parseEquality_loop stod ts n x c = Done v c' \<Longrightarrow> c \<le> c'"
    "\<And>c v c'. parseRelational stod ts n c = Done v c' \<Longrightarrow> c \<le> c'"
    "\<And>x c v c'. parseRelational_loop stod ts n x c = Done v c' \<Longrightarrow> c \<le> c'"
    "\<And>c v c'. parseAdditive stod ts n c = Done v c' \<Longrightarrow> c \<le> c'"
    "\<And>x c v c'. parseAdditive_loop stod ts n x c = Done v c' \<Longrightarrow> c \<le> c'"
    "\<And>c v c'. parseMultiplicative stod ts n c = Done v c' \<Longrightarrow> c \<le> c'"
    "\<And>x c v c'. parseMultiplicative_loop stod ts n x c = Done v c' \<Longrightarrow> c \<le> c'"
    "\<And>c v c'. parseUnary stod ts n c = Done v c' \<Longrightarrow> c \<le> c'"
    "\<And>c v c'. parsePostfix stod ts n c = Done v c' \<Longrightarrow> c \<le> c'"
    "\<And>x c v c'. parsePostfix_loop stod ts n x c = Done v c' \<Longrightarrow> c \<le> c'"
    "\<And>x c v c'. parseExpressions_loop stod ts n x c = Done v c' \<Longrightarrow> c \<le> c'"
    "\<And>c v c'. parsePrimary stod ts n c = Done v c' \<Longrightarrow> c \<le> c'"
    by (simp_all add: cursor_monotone_def)
  show ?case
    unfolding cursor_monotone_def
    apply (intro conjI allI impI)
    subgoal by (rule parseExpression_position_step) (auto dest: ih)
    subgoal by (rule parseAssignment_position_step) (auto dest: ih)
    subgoal by (rule parseLogicalOr_position_step) (auto dest: ih)
    subgoal by (rule parseLogicalOr_loop_position_step) (auto dest: ih)
    subgoal by (rule parseLogicalAnd_position_step) (auto dest: ih)
    subgoal by (rule parseLogicalAnd_loop_position_step) (auto dest: ih)
    subgoal by (rule parseEquality_position_step) (auto dest: ih)
    subgoal by (rule parseEquality_loop_position_step) (auto dest: ih)
    subgoal by (rule parseRelational_position_step) (auto dest: ih)
    subgoal by (rule parseRelational_loop_position_step) (auto dest: ih)
    subgoal by (rule parseAdditive_position_step) (auto dest: ih)
    subgoal by (rule parseAdditive_loop_position_step) (auto dest: ih)
    subgoal by (rule parseMultiplicative_position_step) (auto dest: ih)
    subgoal by (rule parseMultiplicative_loop_position_step) (auto dest: ih)
    subgoal by (rule parseUnary_position_step) (auto dest: ih)
    subgoal by (rule parsePostfix_position_step) (auto dest: ih)
    subgoal by (rule parsePostfix_loop_position_step) (auto dest: ih)
    subgoal by (rule parseExpressions_loop_position_step) (auto dest: ih)
    subgoal by (rule parsePrimary_position_step) (auto dest: ih)
    done
qed

lemma cursor_facts:
  "parseExpression stod ts n c = Done v c' \<Longrightarrow> c \<le> c'"
  "parseAssignment stod ts n c = Done v c' \<Longrightarrow> c \<le> c'"
  "parseLogicalOr stod ts n c = Done v c' \<Longrightarrow> c \<le> c'"
  "parseLogicalOr_loop stod ts n x c = Done v c' \<Longrightarrow> c \<le> c'"
  "parseLogicalAnd stod ts n c = Done v c' \<Longrightarrow> c \<le> c'"
  "parseLogicalAnd_loop stod ts n x c = Done v c' \<Longrightarrow> c \<le> c'"
  "parseEquality stod ts n c = Done v c' \<Longrightarrow> c \<le> c'"
  "parseEquality_loop stod ts n x c = Done v c' \<Longrightarrow> c \<le> c'"
  "parseRelational stod ts n c = Done v c' \<Longrightarrow> c \<le> c'"
  "parseRelational_loop stod ts n x c = Done v c' \<Longrightarrow> c \<le> c'"
  "parseAdditive stod ts n c = Done v c' \<Longrightarrow> c \<le> c'"
  "parseAdditive_loop stod ts n x c = Done v c' \<Longrightarrow> c \<le> c'"
  "parseMultiplicative stod ts n c = Done v c' \<Longrightarrow> c \<le> c'"
  "parseMultiplicative_loop stod ts n x c = Done v c' \<Longrightarrow> c \<le> c'"
  "parseUnary stod ts n c = Done v c' \<Longrightarrow> c \<le> c'"
  "parsePostfix stod ts n c = Done v c' \<Longrightarrow> c \<le> c'"
  "parsePostfix_loop stod ts n x c = Done v c' \<Longrightarrow> c \<le> c'"
  "parseExpressions_loop stod ts n xs c = Done vs c' \<Longrightarrow> c \<le> c'"
  "parsePrimary stod ts n c = Done v c' \<Longrightarrow> c \<le> c'"
  using cursor_monotone [of stod ts n] by (simp_all add: cursor_monotone_def)

lemma parseExpression_enough_step:
  assumes "\<And>c. 20 * (length ts - c) + 17 \<le> n \<Longrightarrow> parseAssignment stod ts n c \<noteq> Timeout"
  shows "20 * (length ts - c) + 18 \<le> Suc n \<Longrightarrow> parseExpression stod ts (Suc n) c \<noteq> Timeout"
  by (auto simp: parseExpression.simps(2) [of stod ts n c] assms
        split: outcome.split sum.split Node.split
        dest!: cursor_facts consume_Done check_advance)

lemma parseAssignment_enough_step:
  assumes "\<And>c. 20 * (length ts - c) + 16 \<le> n \<Longrightarrow> parseLogicalOr stod ts n c \<noteq> Timeout"
    and "\<And>c. 20 * (length ts - c) + 17 \<le> n \<Longrightarrow> parseAssignment stod ts n c \<noteq> Timeout"
  shows "20 * (length ts - c) + 17 \<le> Suc n \<Longrightarrow> parseAssignment stod ts (Suc n) c \<noteq> Timeout"
  by (auto simp: parseAssignment.simps(2) [of stod ts n c] assms
        split: outcome.split sum.split Node.split
        dest!: cursor_facts consume_Done check_advance)

lemma parseLogicalOr_enough_step:
  assumes "\<And>c. 20 * (length ts - c) + 14 \<le> n \<Longrightarrow> parseLogicalAnd stod ts n c \<noteq> Timeout"
    and "\<And>x c. 20 * (length ts - c) + 15 \<le> n \<Longrightarrow> parseLogicalOr_loop stod ts n x c \<noteq> Timeout"
  shows "20 * (length ts - c) + 16 \<le> Suc n \<Longrightarrow> parseLogicalOr stod ts (Suc n) c \<noteq> Timeout"
  by (auto simp: parseLogicalOr.simps(2) [of stod ts n c] assms
        split: outcome.split sum.split Node.split
        dest!: cursor_facts consume_Done check_advance)

lemma parseLogicalOr_loop_enough_step:
  assumes "\<And>c. 20 * (length ts - c) + 14 \<le> n \<Longrightarrow> parseLogicalAnd stod ts n c \<noteq> Timeout"
    and "\<And>x c. 20 * (length ts - c) + 15 \<le> n \<Longrightarrow> parseLogicalOr_loop stod ts n x c \<noteq> Timeout"
  shows "20 * (length ts - c) + 15 \<le> Suc n \<Longrightarrow> parseLogicalOr_loop stod ts (Suc n) x c \<noteq> Timeout"
  by (auto simp: parseLogicalOr_loop.simps(2) [of stod ts n x c] assms
        split: outcome.split sum.split Node.split
        dest!: cursor_facts consume_Done check_advance)

lemma parseLogicalAnd_enough_step:
  assumes "\<And>c. 20 * (length ts - c) + 12 \<le> n \<Longrightarrow> parseEquality stod ts n c \<noteq> Timeout"
    and "\<And>x c. 20 * (length ts - c) + 13 \<le> n \<Longrightarrow> parseLogicalAnd_loop stod ts n x c \<noteq> Timeout"
  shows "20 * (length ts - c) + 14 \<le> Suc n \<Longrightarrow> parseLogicalAnd stod ts (Suc n) c \<noteq> Timeout"
  by (auto simp: parseLogicalAnd.simps(2) [of stod ts n c] assms
        split: outcome.split sum.split Node.split
        dest!: cursor_facts consume_Done check_advance)

lemma parseLogicalAnd_loop_enough_step:
  assumes "\<And>c. 20 * (length ts - c) + 12 \<le> n \<Longrightarrow> parseEquality stod ts n c \<noteq> Timeout"
    and "\<And>x c. 20 * (length ts - c) + 13 \<le> n \<Longrightarrow> parseLogicalAnd_loop stod ts n x c \<noteq> Timeout"
  shows "20 * (length ts - c) + 13 \<le> Suc n \<Longrightarrow> parseLogicalAnd_loop stod ts (Suc n) x c \<noteq> Timeout"
  by (auto simp: parseLogicalAnd_loop.simps(2) [of stod ts n x c] assms
        split: outcome.split sum.split Node.split
        dest!: cursor_facts consume_Done check_advance)

lemma parseEquality_enough_step:
  assumes "\<And>c. 20 * (length ts - c) + 10 \<le> n \<Longrightarrow> parseRelational stod ts n c \<noteq> Timeout"
    and "\<And>x c. 20 * (length ts - c) + 11 \<le> n \<Longrightarrow> parseEquality_loop stod ts n x c \<noteq> Timeout"
  shows "20 * (length ts - c) + 12 \<le> Suc n \<Longrightarrow> parseEquality stod ts (Suc n) c \<noteq> Timeout"
  by (auto simp: parseEquality.simps(2) [of stod ts n c] assms
        split: outcome.split sum.split Node.split
        dest!: cursor_facts consume_Done check_advance)

lemma parseEquality_loop_enough_step:
  assumes "\<And>c. 20 * (length ts - c) + 10 \<le> n \<Longrightarrow> parseRelational stod ts n c \<noteq> Timeout"
    and "\<And>x c. 20 * (length ts - c) + 11 \<le> n \<Longrightarrow> parseEquality_loop stod ts n x c \<noteq> Timeout"
  shows "20 * (length ts - c) + 11 \<le> Suc n \<Longrightarrow> parseEquality_loop stod ts (Suc n) x c \<noteq> Timeout"
  by (auto simp: parseEquality_loop.simps(2) [of stod ts n x c] assms
        split: outcome.split sum.split Node.split
        dest!: cursor_facts consume_Done check_advance)

lemma parseRelational_enough_step:
  assumes "\<And>c. 20 * (length ts - c) + 8 \<le> n \<Longrightarrow> parseAdditive stod ts n c \<noteq> Timeout"
    and "\<And>x c. 20 * (length ts - c) + 9 \<le> n \<Longrightarrow> parseRelational_loop stod ts n x c \<noteq> Timeout"
  shows "20 * (length ts - c) + 10 \<le> Suc n \<Longrightarrow> parseRelational stod ts (Suc n) c \<noteq> Timeout"
  by (auto simp: parseRelational.simps(2) [of stod ts n c] assms
        split: outcome.split sum.split Node.split
        dest!: cursor_facts consume_Done check_advance)

lemma parseRelational_loop_enough_step:
  assumes "\<And>c. 20 * (length ts - c) + 8 \<le> n \<Longrightarrow> parseAdditive stod ts n c \<noteq> Timeout"
    and "\<And>x c. 20 * (length ts - c) + 9 \<le> n \<Longrightarrow> parseRelational_loop stod ts n x c \<noteq> Timeout"
  shows "20 * (length ts - c) + 9 \<le> Suc n \<Longrightarrow> parseRelational_loop stod ts (Suc n) x c \<noteq> Timeout"
  by (auto simp: parseRelational_loop.simps(2) [of stod ts n x c] assms
        split: outcome.split sum.split Node.split
        dest!: cursor_facts consume_Done check_advance)

lemma parseAdditive_enough_step:
  assumes "\<And>c. 20 * (length ts - c) + 6 \<le> n \<Longrightarrow> parseMultiplicative stod ts n c \<noteq> Timeout"
    and "\<And>x c. 20 * (length ts - c) + 7 \<le> n \<Longrightarrow> parseAdditive_loop stod ts n x c \<noteq> Timeout"
  shows "20 * (length ts - c) + 8 \<le> Suc n \<Longrightarrow> parseAdditive stod ts (Suc n) c \<noteq> Timeout"
  by (auto simp: parseAdditive.simps(2) [of stod ts n c] assms
        split: outcome.split sum.split Node.split
        dest!: cursor_facts consume_Done check_advance)

lemma parseAdditive_loop_enough_step:
  assumes "\<And>c. 20 * (length ts - c) + 6 \<le> n \<Longrightarrow> parseMultiplicative stod ts n c \<noteq> Timeout"
    and "\<And>x c. 20 * (length ts - c) + 7 \<le> n \<Longrightarrow> parseAdditive_loop stod ts n x c \<noteq> Timeout"
  shows "20 * (length ts - c) + 7 \<le> Suc n \<Longrightarrow> parseAdditive_loop stod ts (Suc n) x c \<noteq> Timeout"
  by (auto simp: parseAdditive_loop.simps(2) [of stod ts n x c] assms
        split: outcome.split sum.split Node.split
        dest!: cursor_facts consume_Done check_advance)

lemma parseMultiplicative_enough_step:
  assumes "\<And>c. 20 * (length ts - c) + 4 \<le> n \<Longrightarrow> parseUnary stod ts n c \<noteq> Timeout"
    and "\<And>x c. 20 * (length ts - c) + 5 \<le> n \<Longrightarrow> parseMultiplicative_loop stod ts n x c \<noteq> Timeout"
  shows "20 * (length ts - c) + 6 \<le> Suc n \<Longrightarrow> parseMultiplicative stod ts (Suc n) c \<noteq> Timeout"
  by (auto simp: parseMultiplicative.simps(2) [of stod ts n c] assms
        split: outcome.split sum.split Node.split
        dest!: cursor_facts consume_Done check_advance)

lemma parseMultiplicative_loop_enough_step:
  assumes "\<And>c. 20 * (length ts - c) + 4 \<le> n \<Longrightarrow> parseUnary stod ts n c \<noteq> Timeout"
    and "\<And>x c. 20 * (length ts - c) + 5 \<le> n \<Longrightarrow> parseMultiplicative_loop stod ts n x c \<noteq> Timeout"
  shows "20 * (length ts - c) + 5 \<le> Suc n \<Longrightarrow> parseMultiplicative_loop stod ts (Suc n) x c \<noteq> Timeout"
  by (auto simp: parseMultiplicative_loop.simps(2) [of stod ts n x c] assms
        split: outcome.split sum.split Node.split
        dest!: cursor_facts consume_Done check_advance)

lemma parseUnary_enough_step:
  assumes "\<And>c. 20 * (length ts - c) + 4 \<le> n \<Longrightarrow> parseUnary stod ts n c \<noteq> Timeout"
    and "\<And>c. 20 * (length ts - c) + 3 \<le> n \<Longrightarrow> parsePostfix stod ts n c \<noteq> Timeout"
  shows "20 * (length ts - c) + 4 \<le> Suc n \<Longrightarrow> parseUnary stod ts (Suc n) c \<noteq> Timeout"
  by (auto simp: parseUnary.simps(2) [of stod ts n c] assms
        split: outcome.split sum.split Node.split
        dest!: cursor_facts consume_Done check_advance)

lemma parsePostfix_enough_step:
  assumes "\<And>c. 20 * (length ts - c) + 1 \<le> n \<Longrightarrow> parsePrimary stod ts n c \<noteq> Timeout"
    and "\<And>x c. 20 * (length ts - c) + 2 \<le> n \<Longrightarrow> parsePostfix_loop stod ts n x c \<noteq> Timeout"
  shows "20 * (length ts - c) + 3 \<le> Suc n \<Longrightarrow> parsePostfix stod ts (Suc n) c \<noteq> Timeout"
  by (auto simp: parsePostfix.simps(2) [of stod ts n c] assms
        split: outcome.split sum.split Node.split
        dest!: cursor_facts consume_Done check_advance)

lemma parsePostfix_loop_enough_step:
  assumes "\<And>x c. 20 * (length ts - c) + 19 \<le> n \<Longrightarrow> parseExpressions_loop stod ts n x c \<noteq> Timeout"
    and "\<And>c. 20 * (length ts - c) + 18 \<le> n \<Longrightarrow> parseExpression stod ts n c \<noteq> Timeout"
    and "\<And>x c. 20 * (length ts - c) + 2 \<le> n \<Longrightarrow> parsePostfix_loop stod ts n x c \<noteq> Timeout"
  shows "20 * (length ts - c) + 2 \<le> Suc n \<Longrightarrow> parsePostfix_loop stod ts (Suc n) x c \<noteq> Timeout"
  by (auto simp: parsePostfix_loop.simps(2) [of stod ts n x c] assms
        split: outcome.split sum.split Node.split
        dest!: cursor_facts consume_Done check_advance)

lemma parseExpressions_loop_enough_step:
  assumes "\<And>c. 20 * (length ts - c) + 18 \<le> n \<Longrightarrow> parseExpression stod ts n c \<noteq> Timeout"
    and "\<And>x c. 20 * (length ts - c) + 19 \<le> n \<Longrightarrow> parseExpressions_loop stod ts n x c \<noteq> Timeout"
  shows "20 * (length ts - c) + 19 \<le> Suc n \<Longrightarrow> parseExpressions_loop stod ts (Suc n) x c \<noteq> Timeout"
  by (auto simp: parseExpressions_loop.simps(2) [of stod ts n x c] assms
        split: outcome.split sum.split Node.split
        dest!: cursor_facts consume_Done check_advance)

lemma parsePrimary_enough_step:
  assumes "\<And>c. 20 * (length ts - c) + 18 \<le> n \<Longrightarrow> parseExpression stod ts n c \<noteq> Timeout"
    and "\<And>x c. 20 * (length ts - c) + 19 \<le> n \<Longrightarrow> parseExpressions_loop stod ts n x c \<noteq> Timeout"
  shows "20 * (length ts - c) + 1 \<le> Suc n \<Longrightarrow> parsePrimary stod ts (Suc n) c \<noteq> Timeout"
  by (auto simp: parsePrimary.simps(2) [of stod ts n c] assms
        split: outcome.split sum.split Node.split
        dest!: cursor_facts consume_Done check_advance)

lemma enough_fuel: "enough_fuel stod ts n"
proof (induction n)
  case 0
  show ?case
    by (simp add: enough_fuel_def)
next
  case (Suc n)
  from Suc have ih:
    "\<And>c. 20 * (length ts - c) + 18 \<le> n \<Longrightarrow> parseExpression stod ts n c \<noteq> Timeout"
    "\<And>c. 20 * (length ts - c) + 17 \<le> n \<Longrightarrow> parseAssignment stod ts n c \<noteq> Timeout"
    "\<And>c. 20 * (length ts - c) + 16 \<le> n \<Longrightarrow> parseLogicalOr stod ts n c \<noteq> Timeout"
    "\<And>x c. 20 * (length ts - c) + 15 \<le> n \<Longrightarrow> parseLogicalOr_loop stod ts n x c \<noteq> Timeout"
    "\<And>c. 20 * (length ts - c) + 14 \<le> n \<Longrightarrow> parseLogicalAnd stod ts n c \<noteq> Timeout"
    "\<And>x c. 20 * (length ts - c) + 13 \<le> n \<Longrightarrow> parseLogicalAnd_loop stod ts n x c \<noteq> Timeout"
    "\<And>c. 20 * (length ts - c) + 12 \<le> n \<Longrightarrow> parseEquality stod ts n c \<noteq> Timeout"
    "\<And>x c. 20 * (length ts - c) + 11 \<le> n \<Longrightarrow> parseEquality_loop stod ts n x c \<noteq> Timeout"
    "\<And>c. 20 * (length ts - c) + 10 \<le> n \<Longrightarrow> parseRelational stod ts n c \<noteq> Timeout"
    "\<And>x c. 20 * (length ts - c) + 9 \<le> n \<Longrightarrow> parseRelational_loop stod ts n x c \<noteq> Timeout"
    "\<And>c. 20 * (length ts - c) + 8 \<le> n \<Longrightarrow> parseAdditive stod ts n c \<noteq> Timeout"
    "\<And>x c. 20 * (length ts - c) + 7 \<le> n \<Longrightarrow> parseAdditive_loop stod ts n x c \<noteq> Timeout"
    "\<And>c. 20 * (length ts - c) + 6 \<le> n \<Longrightarrow> parseMultiplicative stod ts n c \<noteq> Timeout"
    "\<And>x c. 20 * (length ts - c) + 5 \<le> n \<Longrightarrow> parseMultiplicative_loop stod ts n x c \<noteq> Timeout"
    "\<And>c. 20 * (length ts - c) + 4 \<le> n \<Longrightarrow> parseUnary stod ts n c \<noteq> Timeout"
    "\<And>c. 20 * (length ts - c) + 3 \<le> n \<Longrightarrow> parsePostfix stod ts n c \<noteq> Timeout"
    "\<And>x c. 20 * (length ts - c) + 2 \<le> n \<Longrightarrow> parsePostfix_loop stod ts n x c \<noteq> Timeout"
    "\<And>x c. 20 * (length ts - c) + 19 \<le> n \<Longrightarrow> parseExpressions_loop stod ts n x c \<noteq> Timeout"
    "\<And>c. 20 * (length ts - c) + 1 \<le> n \<Longrightarrow> parsePrimary stod ts n c \<noteq> Timeout"
    by (simp_all add: enough_fuel_def)
  show ?case
    unfolding enough_fuel_def
    apply (intro conjI allI impI)
    subgoal by (rule parseExpression_enough_step) (simp_all add: ih)
    subgoal by (rule parseAssignment_enough_step) (simp_all add: ih)
    subgoal by (rule parseLogicalOr_enough_step) (simp_all add: ih)
    subgoal by (rule parseLogicalOr_loop_enough_step) (simp_all add: ih)
    subgoal by (rule parseLogicalAnd_enough_step) (simp_all add: ih)
    subgoal by (rule parseLogicalAnd_loop_enough_step) (simp_all add: ih)
    subgoal by (rule parseEquality_enough_step) (simp_all add: ih)
    subgoal by (rule parseEquality_loop_enough_step) (simp_all add: ih)
    subgoal by (rule parseRelational_enough_step) (simp_all add: ih)
    subgoal by (rule parseRelational_loop_enough_step) (simp_all add: ih)
    subgoal by (rule parseAdditive_enough_step) (simp_all add: ih)
    subgoal by (rule parseAdditive_loop_enough_step) (simp_all add: ih)
    subgoal by (rule parseMultiplicative_enough_step) (simp_all add: ih)
    subgoal by (rule parseMultiplicative_loop_enough_step) (simp_all add: ih)
    subgoal by (rule parseUnary_enough_step) (simp_all add: ih)
    subgoal by (rule parsePostfix_enough_step) (simp_all add: ih)
    subgoal by (rule parsePostfix_loop_enough_step) (simp_all add: ih)
    subgoal by (rule parseExpressions_loop_enough_step) (simp_all add: ih)
    subgoal by (rule parsePrimary_enough_step) (simp_all add: ih)
    done
qed

lemma parseAssignment_terminates:
  "\<exists>r. returns (\<lambda>n. parseAssignment stod ts n c) r"
proof -
  have "parseAssignment stod ts (20 * (length ts - c) + 17) c \<noteq> Timeout"
    using enough_fuel [of stod ts "20 * (length ts - c) + 17"] by (simp add: enough_fuel_def)
  then show ?thesis
    unfolding returns_def by blast
qed

lemma returns_parseAssignment_unique:
  assumes "returns (\<lambda>n. parseAssignment stod ts n c) r"
    and "returns (\<lambda>n. parseAssignment stod ts n c) r'"
  shows "r = r'"
proof -
  from assms obtain n m where
    n: "parseAssignment stod ts n c = r" "r \<noteq> Timeout"
    and m: "parseAssignment stod ts m c = r'" "r' \<noteq> Timeout"
    by (auto simp: returns_def)
  have "parseAssignment stod ts (max n m) c = r"
    using parseAssignment_fuel_mono [of n "max n m" stod ts c] n by simp
  moreover have "parseAssignment stod ts (max n m) c = r'"
    using parseAssignment_fuel_mono [of m "max n m" stod ts c] m by simp
  ultimately show ?thesis by simp
qed

text \<open>
  Claim C8. \<open>parseAssignment\<close> returns for every token vector and every cursor: with a
  value or with an exception. Let the left-hand side parse to \<open>lhs\<close>. Without a following \<open>ASSIGN\<close> token
  \<open>parseAssignment\<close> returns \<open>lhs\<close>. With one, and with the text after it parsed by
  \<open>parseAssignment\<close> itself to \<open>rhs\<close> (so that \<open>a = b = 1\<close> assigns \<open>b = 1\<close> to \<open>a\<close>), the
  parser fails with "Invalid assignment target" exactly when \<open>lhs\<close> is not a \<open>VariableNode\<close>,
  and returns the \<open>AssignmentNode\<close> of the variable's name and \<open>rhs\<close> when it is.
\<close>

theorem parseAssignment_target:
  assumes "returns (\<lambda>n. parseLogicalOr stod ts n c) (Done lhs c1)"
  shows "(\<exists>r. returns (\<lambda>n. parseAssignment stod ts n c) r) \<and>
         (\<not> check ts ASSIGN c1 \<longrightarrow>
            returns (\<lambda>n. parseAssignment stod ts n c) (Done lhs c1)) \<and>
         (check ts ASSIGN c1 \<and>
          returns (\<lambda>n. parseAssignment stod ts n (Parser_advance ts c1)) (Done rhs c2) \<longrightarrow>
            (returns (\<lambda>n. parseAssignment stod ts n c) (Throw InvalidAssignmentTarget)
               \<longleftrightarrow> (\<forall>name. lhs \<noteq> VariableNode name)) \<and>
            (\<forall>name. lhs = VariableNode name \<longrightarrow>
               returns (\<lambda>n. parseAssignment stod ts n c) (Done (AssignmentNode name rhs) c2)))"
proof (intro conjI impI)
  show "\<exists>r. returns (\<lambda>n. parseAssignment stod ts n c) r"
    by (rule parseAssignment_terminates)
next
  from assms obtain n1 where l: "parseLogicalOr stod ts n1 c = Done lhs c1"
    by (auto simp: returns_def)
  {
    assume "\<not> check ts ASSIGN c1"
    then have "parseAssignment stod ts (Suc n1) c = Done lhs c1"
      using l by (simp add: parseAssignment.simps)
    then show "returns (\<lambda>n. parseAssignment stod ts n c) (Done lhs c1)"
      unfolding returns_def by blast
  }
  assume a: "check ts ASSIGN c1 \<and>
    returns (\<lambda>n. parseAssignment stod ts n (Parser_advance ts c1)) (Done rhs c2)"
  then obtain n2 where r: "parseAssignment stod ts n2 (Parser_advance ts c1) = Done rhs c2"
    by (auto simp: returns_def)
  let ?n = "max n1 n2"
  let ?R = "case lhs of VariableNode name \<Rightarrow> Done (AssignmentNode name rhs) c2
            | _ \<Rightarrow> Throw InvalidAssignmentTarget"
  have l': "parseLogicalOr stod ts ?n c = Done lhs c1"
    using parseLogicalOr_fuel_mono [of n1 ?n stod ts c] l by simp
  have r': "parseAssignment stod ts ?n (Parser_advance ts c1) = Done rhs c2"
    using parseAssignment_fuel_mono [of n2 ?n stod ts "Parser_advance ts c1"] r by simp
  have "parseAssignment stod ts (Suc ?n) c = ?R"
    using l' r' a by (simp add: parseAssignment.simps)
  moreover have ne: "?R \<noteq> Timeout"
    by (cases lhs) simp_all
  ultimately have R: "returns (\<lambda>n. parseAssignment stod ts n c) ?R"
    unfolding returns_def by blast
  show "returns (\<lambda>n. parseAssignment stod ts n c) (Throw InvalidAssignmentTarget)
          \<longleftrightarrow> (\<forall>name. lhs \<noteq> VariableNode name)"
  proof
    assume "returns (\<lambda>n. parseAssignment stod ts n c) (Throw InvalidAssignmentTarget)"
    then have "?R = Throw InvalidAssignmentTarget"
      using returns_parseAssignment_unique [OF R] by simp
    then show "\<forall>name. lhs \<noteq> VariableNode name"
      by (cases lhs) simp_all
  next
    assume "\<forall>name. lhs \<noteq> VariableNode name"
    then have "?R = Throw InvalidAssignmentTarget"
      by (cases lhs) simp_all
    then show "returns (\<lambda>n. parseAssignment stod ts n c) (Throw InvalidAssignmentTarget)"
      using R by simp
  qed
  show "\<forall>name. lhs = VariableNode name \<longrightarrow>
          returns (\<lambda>n. parseAssignment stod ts n c) (Done (AssignmentNode name rhs) c2)"
    using R by auto
qed

theorem parseAssignment_target_witness:
  "returns (\<lambda>n. parseLogicalOr keep_lexeme chained_assignment n 0) (Done (VariableNode ''a'') 1) \<and>
   check chained_assignment ASSIGN 1 \<and>
   returns (\<lambda>n. parseAssignment keep_lexeme chained_assignment n
                  (Parser_advance chained_assignment 1))
     (Done (AssignmentNode ''b'' (NumberNode ''1'')) 5) \<and>
   returns (\<lambda>n. parseAssignment keep_lexeme chained_assignment n 0)
     (Done (AssignmentNode ''a'' (AssignmentNode ''b'' (NumberNode ''1''))) 5) \<and>
   returns (\<lambda>n. parseLogicalOr keep_lexeme number_assignment n 0) (Done (NumberNode ''1'') 1) \<and>
   check number_assignment ASSIGN 1 \<and>
   returns (\<lambda>n. parseAssignment keep_lexeme number_assignment n
                  (Parser_advance number_assignment 1))
     (Done (NumberNode ''2'') 3) \<and>
   returns (\<lambda>n. parseAssignment keep_lexeme number_assignment n 0)
     (Throw InvalidAssignmentTarget) \<and>
   \<not> check number_assignment ASSIGN 3 \<and>
   returns (\<lambda>n. parseAssignment keep_lexeme number_assignment n 2) (Done (NumberNode ''2'') 3)"
proof -
  have a: "parseLogicalOr keep_lexeme chained_assignment 29 0 = Done (VariableNode ''a'') 1"
    by code_simp
  have b: "check chained_assignment ASSIGN 1"
    by code_simp
  have c: "parseAssignment keep_lexeme chained_assignment 29
             (Parser_advance chained_assignment 1)
           = Done (AssignmentNode ''b'' (NumberNode ''1'')) 5"
    by code_simp
  have d: "parseLogicalOr keep_lexeme number_assignment 29 0 = Done (NumberNode ''1'') 1"
    by code_simp
  have e: "check number_assignment ASSIGN 1"
    by code_simp
  have f: "parseAssignment keep_lexeme number_assignment 29
             (Parser_advance number_assignment 1)
           = Done (NumberNode ''2'') 3"
    by code_simp
  have g: "\<not> check number_assignment ASSIGN 3"
    by code_simp
  have h: "parseLogicalOr keep_lexeme number_assignment 29 2 = Done (NumberNode ''2'') 3"
    by code_simp
  have ra: "returns (\<lambda>n. parseLogicalOr keep_lexeme chained_assignment n 0)
              (Done (VariableNode ''a'') 1)"
    unfolding returns_def using a by blast
  have rc: "returns (\<lambda>n. parseAssignment keep_lexeme chained_assignment n
                       (Parser_advance chained_assignment 1))
              (Done (AssignmentNode ''b'' (NumberNode ''1'')) 5)"
    unfolding returns_def using c by blast
  have rd: "returns (\<lambda>n. parseLogicalOr keep_lexeme number_assignment n 0)
              (Done (NumberNode ''1'') 1)"
    unfolding returns_def using d by blast
  have rf: "returns (\<lambda>n. parseAssignment keep_lexeme number_assignment n
                       (Parser_advance number_assignment 1))
              (Done (NumberNode ''2'') 3)"
    unfolding returns_def using f by blast
  have rh: "returns (\<lambda>n. parseLogicalOr keep_lexeme number_assignment n 2)
              (Done (NumberNode ''2'') 3)"
    unfolding returns_def using h by blast
  show ?thesis
    using parseAssignment_target [OF ra, of "AssignmentNode ''b'' (NumberNode ''1'')" 5]
      parseAssignment_target [OF rd, of "NumberNode ''2''" 3]
      parseAssignment_target [OF rh, of "NumberNode ''2''" 3]
      ra b rc rd e rf g
    by simp
qed

end
